(* ===== verification/Prelude.thy ===== *)
theory Prelude
  imports
    Main
    "HOL-Library.Char_ord"
    "HOL-Library.List_Lexorder"
    "HOL-Library.Finite_Map"
    "HOL-Library.Multiset"
begin

text \<open>
  Shared vocabulary of the development: Go errors as values, the result-and-state type of an
  action against the cluster with its combinators (sequencing, error wrapping, retry, polling,
  fan-out), a small Hoare calculus for such actions, and the parts of Go's standard library the
  controllers use on strings, slices and maps. Go strings are byte strings, hence \<open>string\<close>
  (a list of 8-bit characters) with the bytewise lexicographic order of \<open>List_Lexorder\<close>.
\<close>

named_theorems act_simps \<open>evaluation rules of the action combinators\<close>
named_theorems triple_rules \<open>structural rules of the Hoare calculus\<close>
named_theorems go_simps \<open>evaluation rules of the Go standard library fragments\<close>

section \<open>Errors\<close>

text \<open>
  \<open>Api\<close> is an error of the Kubernetes API. \<open>Wrap\<close> is \<open>fmt.Errorf\<close> with the verb
  \<open>%w\<close>: the cause stays visible to \<open>errors.As\<close>. \<open>Fmt\<close> is \<open>fmt.Errorf\<close> with
  \<open>%s\<close> or \<open>%v\<close> on an error: only its text is kept. \<open>Msg\<close> has no cause,
  \<open>Agg\<close> is \<open>utilerrors.NewAggregate\<close> of a non-empty list, \<open>Panic\<close> a run-time panic.
  The string is the constant part of the message.
\<close>

datatype api_error = NotFound | AlreadyExists | Conflict | ApiOther string

datatype error =
    Api api_error
  | Msg string
  | Wrap string error
  | Fmt string error
  | Agg "error list"
  | Panic string

text \<open>\<open>apierrors.ReasonForError\<close>: the API error a chain of wrapped errors leads to.\<close>

fun reason :: "error \<Rightarrow> api_error option" where
  "reason (Api e) = Some e"
| "reason (Wrap _ e) = reason e"
| "reason _ = None"

definition IsNotFound :: "error \<Rightarrow> bool" where
  "IsNotFound e \<longleftrightarrow> reason e = Some NotFound"

definition IsAlreadyExists :: "error \<Rightarrow> bool" where
  "IsAlreadyExists e \<longleftrightarrow> reason e = Some AlreadyExists"

definition IsConflict :: "error \<Rightarrow> bool" where
  "IsConflict e \<longleftrightarrow> reason e = Some Conflict"

lemmas error_class_defs [act_simps] = IsNotFound_def IsAlreadyExists_def IsConflict_def

text \<open>A panic is not an error value the code can ignore; it is carried up through the wrappers.\<close>

fun isPanic :: "error \<Rightarrow> bool" where
  "isPanic (Panic _) = True"
| "isPanic (Wrap _ e) = isPanic e"
| "isPanic (Fmt _ e) = isPanic e"
| "isPanic (Agg es) = list_ex isPanic es"
| "isPanic _ = False"

section \<open>Actions\<close>

text \<open>An action runs in a state of the world and returns an error or a value, with the next state.\<close>

type_synonym ('s, 'a) act = "'s \<Rightarrow> (error + 'a) \<times> 's"

definition ret :: "'a \<Rightarrow> ('s, 'a) act" where
  "ret x s = (Inr x, s)"

definition fail :: "error \<Rightarrow> ('s, 'a) act" where
  "fail e s = (Inl e, s)"

definition bindA :: "('s, 'a) act \<Rightarrow> ('a \<Rightarrow> ('s, 'b) act) \<Rightarrow> ('s, 'b) act" where
  "bindA m f s = (case m s of (Inl e, s') \<Rightarrow> (Inl e, s') | (Inr x, s') \<Rightarrow> f x s')"

definition thenA :: "('s, 'a) act \<Rightarrow> ('s, 'b) act \<Rightarrow> ('s, 'b) act" where
  "thenA m n = bindA m (\<lambda>_. n)"

text \<open>The outcome, error or not, is handed on: \<open>x, err := f()\<close> with \<open>err\<close> inspected later.\<close>

definition tryA :: "('s, 'a) act \<Rightarrow> (error + 'a \<Rightarrow> ('s, 'b) act) \<Rightarrow> ('s, 'b) act" where
  "tryA m f s = (case m s of (r, s') \<Rightarrow> f r s')"

definition mapErr :: "(error \<Rightarrow> error) \<Rightarrow> ('s, 'a) act \<Rightarrow> ('s, 'a) act" where
  "mapErr g m s = (case m s of (Inl e, s') \<Rightarrow> (Inl (g e), s') | (Inr x, s') \<Rightarrow> (Inr x, s'))"

definition whenA :: "bool \<Rightarrow> ('s, unit) act \<Rightarrow> ('s, unit) act" where
  "whenA b m = (if b then m else ret ())"

text \<open>An error that is only logged.\<close>

definition ignoreErr :: "('s, 'a) act \<Rightarrow> ('s, unit) act" where
  "ignoreErr m = tryA m (\<lambda>r. case r of Inl e \<Rightarrow> if isPanic e then fail e else ret () | Inr _ \<Rightarrow> ret ())"

text \<open>A value computed from the state, with no effect.\<close>

definition asks :: "('s \<Rightarrow> 'a) \<Rightarrow> ('s, 'a) act" where
  "asks f s = (Inr (f s), s)"

text \<open>
  \<open>retry.RetryOnConflict\<close>: the action is run again while it reports a conflict, for at most
  \<open>Suc n\<close> attempts (\<open>backoff.Steps\<close>); the last outcome is the result.
\<close>

fun retryOnConflict :: "nat \<Rightarrow> ('s, 'a) act \<Rightarrow> ('s, 'a) act" where
  "retryOnConflict 0 m s = m s"
| "retryOnConflict (Suc n) m s =
     (case m s of
        (Inl e, s') \<Rightarrow> if IsConflict e then retryOnConflict n m s' else (Inl e, s')
      | (Inr x, s') \<Rightarrow> (Inr x, s'))"

text \<open>\<open>retry.DefaultBackoff\<close> has four steps, \<open>retry.DefaultRetry\<close> five.\<close>

definition DefaultBackoff :: nat where "DefaultBackoff = 3"
definition DefaultRetry :: nat where "DefaultRetry = 4"

text \<open>
  \<open>wait.PollUntilContextTimeout\<close>: the condition is evaluated until it holds or fails; the
  number of evaluations that fit before the timeout is the argument, and running out of them is
  the timeout error.
\<close>

fun pollUntil :: "nat \<Rightarrow> ('s, bool) act \<Rightarrow> ('s, unit) act" where
  "pollUntil 0 c s = (Inl (Msg ''timed out waiting for the condition''), s)"
| "pollUntil (Suc n) c s =
     (case c s of
        (Inl e, s') \<Rightarrow> (Inl e, s')
      | (Inr True, s') \<Rightarrow> (Inr (), s')
      | (Inr False, s') \<Rightarrow> pollUntil n c s')"

text \<open>A sequential loop that stops at the first error.\<close>

fun forEach :: "'x list \<Rightarrow> ('x \<Rightarrow> ('s, unit) act) \<Rightarrow> ('s, unit) act" where
  "forEach [] f s = (Inr (), s)"
| "forEach (x # xs) f s =
     (case f x s of (Inl e, s') \<Rightarrow> (Inl e, s') | (Inr _, s') \<Rightarrow> forEach xs f s')"

text \<open>
  A fan-out over goroutines joined by a \<open>sync.WaitGroup\<close>, in the order in which they are
  scheduled: every body runs, its error is collected.
\<close>

fun forkAll :: "'x list \<Rightarrow> ('x \<Rightarrow> ('s, unit) act) \<Rightarrow> 's \<Rightarrow> error list \<times> 's" where
  "forkAll [] f s = ([], s)"
| "forkAll (x # xs) f s =
     (case f x s of (r, s1) \<Rightarrow>
        (case forkAll xs f s1 of (errs, s2) \<Rightarrow>
           ((case r of Inl e \<Rightarrow> e # errs | Inr _ \<Rightarrow> errs), s2)))"

definition aggregate :: "error list \<Rightarrow> ('s, unit) act" where
  "aggregate errs = (if errs = [] then ret () else fail (Agg errs))"

definition forkJoin :: "'x list \<Rightarrow> ('x \<Rightarrow> ('s, unit) act) \<Rightarrow> ('s, unit) act" where
  "forkJoin xs f s = (case forkAll xs f s of (errs, s') \<Rightarrow> aggregate errs s')"

text \<open>The same fan-out under an \<open>errgroup\<close>, whose result is the first error.\<close>

definition forkFirst :: "'x list \<Rightarrow> ('x \<Rightarrow> ('s, unit) act) \<Rightarrow> ('s, unit) act" where
  "forkFirst xs f s =
     (case forkAll xs f s of (errs, s') \<Rightarrow> ((case errs of [] \<Rightarrow> Inr () | e # _ \<Rightarrow> Inl e), s'))"

text \<open>
  Variables the goroutines of a function share (a flag, the object being reconciled) are a local
  state next to the world.
\<close>

definition liftW :: "('s, 'a) act \<Rightarrow> ('l \<times> 's, 'a) act" where
  "liftW m p = (case m (snd p) of (r, s') \<Rightarrow> (r, (fst p, s')))"

definition getL :: "('l \<times> 's, 'l) act" where
  "getL p = (Inr (fst p), p)"

definition putL :: "'l \<Rightarrow> ('l \<times> 's, unit) act" where
  "putL l p = (Inr (), (l, snd p))"

definition withLocal :: "'l \<Rightarrow> ('l \<times> 's, 'a) act \<Rightarrow> ('s, 'a \<times> 'l) act" where
  "withLocal l m s =
     (case m (l, s) of (r, (l', s')) \<Rightarrow> ((case r of Inl e \<Rightarrow> Inl e | Inr x \<Rightarrow> Inr (x, l')), s'))"

lemma ret_apply [act_simps, simp]: "ret x s = (Inr x, s)" by (simp add: ret_def)
lemma fail_apply [act_simps, simp]: "fail e s = (Inl e, s)" by (simp add: fail_def)
lemma asks_apply [act_simps, simp]: "asks f s = (Inr (f s), s)" by (simp add: asks_def)

lemma bindA_Inr [simp]: "m s = (Inr x, s') \<Longrightarrow> bindA m f s = f x s'"
  by (simp add: bindA_def)

lemma bindA_Inl [simp]: "m s = (Inl e, s') \<Longrightarrow> bindA m f s = (Inl e, s')"
  by (simp add: bindA_def)

lemma bindA_ret [simp]: "bindA (ret x) f = f x"
  by (rule ext) (simp add: bindA_def)

lemma bindA_fail [simp]: "bindA (fail e) f = fail e"
  by (rule ext) (simp add: bindA_def)

lemma bindA_assoc: "bindA (bindA m f) g = bindA m (\<lambda>x. bindA (f x) g)"
  by (rule ext) (simp add: bindA_def split: prod.split sum.split)

lemma bindA_thenA_ret: "bindA (thenA m (ret c)) f = thenA m (f c)"
  by (rule ext) (simp add: thenA_def bindA_def split: prod.split sum.split)

lemma thenA_Inr [simp]: "m s = (Inr x, s') \<Longrightarrow> thenA m n s = n s'"
  by (simp add: thenA_def)

lemma thenA_Inl [simp]: "m s = (Inl e, s') \<Longrightarrow> thenA m n s = (Inl e, s')"
  by (simp add: thenA_def)

lemma mapErr_Inr [simp]: "m s = (Inr x, s') \<Longrightarrow> mapErr g m s = (Inr x, s')"
  by (simp add: mapErr_def)

lemma mapErr_Inl [simp]: "m s = (Inl e, s') \<Longrightarrow> mapErr g m s = (Inl (g e), s')"
  by (simp add: mapErr_def)

lemma bindA_eq_Inr_iff:
  "bindA m f s = (Inr y, t) \<longleftrightarrow> (\<exists>x u. m s = (Inr x, u) \<and> f x u = (Inr y, t))"
  by (auto simp: bindA_def split: prod.splits sum.splits)

lemma thenA_eq_Inr_iff:
  "thenA m n s = (Inr y, t) \<longleftrightarrow> (\<exists>x u. m s = (Inr x, u) \<and> n u = (Inr y, t))"
  by (simp add: thenA_def bindA_eq_Inr_iff)

lemma mapErr_eq_Inr_iff [simp]: "mapErr g m s = (Inr y, t) \<longleftrightarrow> m s = (Inr y, t)"
  by (auto simp: mapErr_def split: prod.splits sum.splits)

lemma tryA_eq_iff: "tryA m f s = (r, t) \<longleftrightarrow> (\<exists>x u. m s = (x, u) \<and> f x u = (r, t))"
  by (auto simp: tryA_def split: prod.splits)

lemma tryA_apply [simp]: "m s = (r, u) \<Longrightarrow> tryA m f s = f r u"
  by (simp add: tryA_def)

lemmas act_eq_iffs = bindA_eq_Inr_iff thenA_eq_Inr_iff mapErr_eq_Inr_iff

section \<open>A Hoare calculus for actions\<close>

text \<open>
  \<open>triple P m Q E\<close>: from a state satisfying \<open>P\<close>, the action \<open>m\<close> ends with a value
  satisfying \<open>Q\<close> or an error satisfying \<open>E\<close>.
\<close>

definition triple ::
  "('s \<Rightarrow> bool) \<Rightarrow> ('s, 'a) act \<Rightarrow> ('a \<Rightarrow> 's \<Rightarrow> bool) \<Rightarrow> (error \<Rightarrow> 's \<Rightarrow> bool) \<Rightarrow> bool" where
  "triple P m Q E \<longleftrightarrow>
     (\<forall>s. P s \<longrightarrow> (case m s of (Inl e, s') \<Rightarrow> E e s' | (Inr x, s') \<Rightarrow> Q x s'))"

text \<open>An action that keeps a predicate of the state on every outcome.\<close>

abbreviation keeps :: "('s \<Rightarrow> bool) \<Rightarrow> ('s, 'a) act \<Rightarrow> bool" where
  "keeps I m \<equiv> triple I m (\<lambda>_. I) (\<lambda>_. I)"

lemma tripleD_Inr: "triple P m Q E \<Longrightarrow> P s \<Longrightarrow> m s = (Inr x, s') \<Longrightarrow> Q x s'"
  by (auto simp: triple_def)

lemma tripleD_Inl: "triple P m Q E \<Longrightarrow> P s \<Longrightarrow> m s = (Inl e, s') \<Longrightarrow> E e s'"
  by (auto simp: triple_def)

lemma keeps_iff: "keeps I m \<longleftrightarrow> (\<forall>s. I s \<longrightarrow> I (snd (m s)))"
  by (fastforce simp: triple_def split: prod.split sum.split)

lemma keepsD: "keeps I m \<Longrightarrow> I s \<Longrightarrow> I (snd (m s))"
  by (simp add: keeps_iff)

lemma keepsD': "keeps I m \<Longrightarrow> I s \<Longrightarrow> m s = (r, s') \<Longrightarrow> I s'"
  by (metis keepsD snd_conv)

lemma tripleI:
  assumes "\<And>s x s'. P s \<Longrightarrow> m s = (Inr x, s') \<Longrightarrow> Q x s'"
    and "\<And>s e s'. P s \<Longrightarrow> m s = (Inl e, s') \<Longrightarrow> E e s'"
  shows "triple P m Q E"
  using assms by (fastforce simp: triple_def split: prod.split sum.split)

lemma keepsI: "(\<And>s. I s \<Longrightarrow> I (snd (m s))) \<Longrightarrow> keeps I m"
  by (rule tripleI) (metis snd_conv)+

lemma triple_ret [triple_rules]: "triple (Q x) (ret x) Q E"
  by (simp add: triple_def)

lemma triple_fail [triple_rules]: "triple (E e) (fail e) Q E"
  by (simp add: triple_def)

lemma triple_bindA [triple_rules]:
  "triple P m R E \<Longrightarrow> (\<And>x. triple (R x) (f x) Q E) \<Longrightarrow> triple P (bindA m f) Q E"
  by (fastforce simp: triple_def bindA_def split: prod.splits sum.splits)

lemma triple_thenA [triple_rules]:
  "triple P m (\<lambda>_. R) E \<Longrightarrow> triple R n Q E \<Longrightarrow> triple P (thenA m n) Q E"
  unfolding thenA_def by (rule triple_bindA)

lemma triple_conseq:
  "triple P m Q E \<Longrightarrow> (\<And>s. P' s \<Longrightarrow> P s) \<Longrightarrow> (\<And>x s. Q x s \<Longrightarrow> Q' x s)
   \<Longrightarrow> (\<And>e s. E e s \<Longrightarrow> E' e s) \<Longrightarrow> triple P' m Q' E'"
  by (fastforce simp: triple_def split: prod.splits sum.splits)

lemma keeps_ret [triple_rules]: "keeps I (ret x)"
  by (simp add: triple_def)

lemma keeps_fail [triple_rules]: "keeps I (fail e)"
  by (simp add: triple_def)

lemma keeps_Pair [simp]: "keeps I (Pair r)"
  by (cases r) (simp_all add: triple_def)

lemma keeps_asks [triple_rules]: "keeps I (asks f)"
  by (simp add: triple_def)

lemma keeps_bindA [triple_rules]:
  "keeps I m \<Longrightarrow> (\<And>x. keeps I (f x)) \<Longrightarrow> keeps I (bindA m f)"
  by (rule triple_bindA)

lemma keeps_bind_if:
  assumes "triple I m (\<lambda>x s. P x \<and> I s) (\<lambda>_. I)" and "\<And>x. P x \<Longrightarrow> keeps I (f x)"
  shows "keeps I (bindA m f)"
  by (rule triple_bindA [OF assms(1)]) (use assms(2) in \<open>auto simp: triple_def\<close>)

lemma keeps_thenA [triple_rules]: "keeps I m \<Longrightarrow> keeps I n \<Longrightarrow> keeps I (thenA m n)"
  by (rule triple_thenA)

lemma keeps_tryA [triple_rules]:
  "keeps I m \<Longrightarrow> (\<And>r. keeps I (f r)) \<Longrightarrow> keeps I (tryA m f)"
  by (rule keepsI) (auto simp: tryA_def split: prod.split intro: keepsD keepsD')

lemma keeps_ignoreErr [triple_rules]: "keeps I m \<Longrightarrow> keeps I (ignoreErr m)"
  unfolding ignoreErr_def by (rule keeps_tryA) (auto simp: keeps_ret keeps_fail split: sum.split)

lemma keeps_mapErr [triple_rules]: "keeps I m \<Longrightarrow> keeps I (mapErr g m)"
  by (rule keepsI) (auto simp: mapErr_def split: prod.split sum.split intro: keepsD')

lemma keeps_whenA [triple_rules]: "keeps I m \<Longrightarrow> keeps I (whenA b m)"
  by (simp add: whenA_def keeps_ret)

lemma keeps_if [triple_rules]: "(b \<Longrightarrow> keeps I m) \<Longrightarrow> (\<not> b \<Longrightarrow> keeps I n) \<Longrightarrow> keeps I (if b then m else n)"
  by simp

lemma keeps_case_sum [triple_rules]:
  "(\<And>e. r = Inl e \<Longrightarrow> keeps I (f e)) \<Longrightarrow> (\<And>x. r = Inr x \<Longrightarrow> keeps I (g x)) \<Longrightarrow>
   keeps I (case r of Inl e \<Rightarrow> f e | Inr x \<Rightarrow> g x)"
  by (cases r) simp_all

lemma keeps_case_option [triple_rules]:
  "(r = None \<Longrightarrow> keeps I m) \<Longrightarrow> (\<And>x. r = Some x \<Longrightarrow> keeps I (g x)) \<Longrightarrow>
   keeps I (case r of None \<Rightarrow> m | Some x \<Rightarrow> g x)"
  by (cases r) simp_all

lemma keeps_retry [triple_rules]:
  assumes m: "keeps I m"
  shows "keeps I (retryOnConflict n m)"
proof (rule keepsI)
  show "I s \<Longrightarrow> I (snd (retryOnConflict n m s))" for s
    by (induction n arbitrary: s) (auto split: prod.split sum.split intro: keepsD [OF m] keepsD' [OF m])
qed

lemma keeps_poll [triple_rules]:
  assumes c: "keeps I c"
  shows "keeps I (pollUntil n c)"
proof (rule keepsI)
  show "I s \<Longrightarrow> I (snd (pollUntil n c s))" for s
    by (induction n arbitrary: s) (auto split: prod.split sum.split bool.split intro: keepsD' [OF c])
qed

lemma keeps_forEach [triple_rules]:
  assumes "\<And>x. x \<in> set xs \<Longrightarrow> keeps I (f x)"
  shows "keeps I (forEach xs f)"
proof (rule keepsI)
  show "I s \<Longrightarrow> I (snd (forEach xs f s))" for s
    using assms
  proof (induction xs arbitrary: s)
    case (Cons x xs)
    have "I (snd (f x s))" using Cons.prems by (auto intro: keepsD)
    with Cons show ?case by (auto split: prod.splits sum.splits)
  qed simp
qed

lemma forkAll_keeps:
  assumes "\<And>x. x \<in> set xs \<Longrightarrow> keeps I (f x)" and "I s"
  shows "I (snd (forkAll xs f s))"
  using assms
proof (induction xs arbitrary: s)
  case (Cons x xs)
  have "I (snd (f x s))" using Cons.prems by (auto intro: keepsD)
  then have "I (snd (forkAll xs f (snd (f x s))))" using Cons by simp
  then show ?case by (auto split: prod.split)
qed simp

lemma keeps_aggregate [triple_rules]: "keeps I (aggregate errs)"
  by (simp add: aggregate_def keeps_ret keeps_fail)

lemma keeps_forkJoin [triple_rules]:
  assumes "\<And>x. x \<in> set xs \<Longrightarrow> keeps I (f x)"
  shows "keeps I (forkJoin xs f)"
proof (rule keepsI)
  fix s assume "I s"
  with assms have "I (snd (forkAll xs f s))" by (rule forkAll_keeps)
  then show "I (snd (forkJoin xs f s))"
    by (auto simp: forkJoin_def aggregate_def split: prod.split)
qed

lemma keeps_forkFirst [triple_rules]:
  assumes "\<And>x. x \<in> set xs \<Longrightarrow> keeps I (f x)"
  shows "keeps I (forkFirst xs f)"
proof (rule keepsI)
  fix s assume "I s"
  with assms have "I (snd (forkAll xs f s))" by (rule forkAll_keeps)
  then show "I (snd (forkFirst xs f s))"
    by (cases "forkAll xs f s") (simp add: forkFirst_def)
qed

lemma keeps_liftW [triple_rules]: "keeps I m \<Longrightarrow> keeps (\<lambda>p. I (snd p)) (liftW m)"
  by (rule keepsI) (auto simp: liftW_def split: prod.split intro: keepsD')

lemma keeps_getL [triple_rules]: "keeps (\<lambda>p. I (snd p)) getL"
  by (simp add: triple_def getL_def)

lemma keeps_putL [triple_rules]: "keeps (\<lambda>p. I (snd p)) (putL l)"
  by (simp add: triple_def putL_def)

lemma keeps_withLocal [triple_rules]:
  assumes "keeps (\<lambda>p. I (snd p)) m"
  shows "keeps I (withLocal l m)"
proof (rule keepsI)
  fix s assume "I s"
  then have "I (snd (snd (m (l, s))))" using keepsD [OF assms, of "(l, s)"] by simp
  then show "I (snd (withLocal l m s))"
    by (cases "m (l, s)") (auto simp: withLocal_def split: prod.split)
qed

text \<open>A retried action succeeds only through a run of the action itself.\<close>

lemma triple_retry:
  assumes m: "triple I m Q (\<lambda>_. I)"
  shows "triple I (retryOnConflict n m) Q (\<lambda>_. I)"
proof (induction n)
  case 0
  from m show ?case by (simp add: triple_def)
next
  case (Suc n)
  show ?case
  proof (rule tripleI)
    fix s x s' assume "I s" and "retryOnConflict (Suc n) m s = (Inr x, s')"
    then show "Q x s'"
      by (auto split: prod.splits sum.splits if_splits
          intro: tripleD_Inr [OF m] tripleD_Inr [OF Suc] tripleD_Inl [OF m])
  next
    fix s e s' assume "I s" and "retryOnConflict (Suc n) m s = (Inl e, s')"
    then show "I s'"
      by (auto split: prod.splits sum.splits if_splits
          intro: tripleD_Inl [OF m] tripleD_Inl [OF Suc])
  qed
qed

lemma triple_mapErr:
  "triple P m Q (\<lambda>e. E (g e)) \<Longrightarrow> triple P (mapErr g m) Q E"
  by (fastforce simp: triple_def mapErr_def split: prod.splits sum.splits)

lemma retry_success [simp]: "m s = (Inr x, s') \<Longrightarrow> retryOnConflict n m s = (Inr x, s')"
  by (cases n) simp_all

lemma retry_failure: "m s = (Inl e, s') \<Longrightarrow> \<not> IsConflict e \<Longrightarrow> retryOnConflict n m s = (Inl e, s')"
  by (cases n) simp_all

lemma poll_success [simp]: "0 < n \<Longrightarrow> c s = (Inr True, s') \<Longrightarrow> pollUntil n c s = (Inr (), s')"
  by (cases n) simp_all

text \<open>
  A fan-out whose bodies all succeed: \<open>I\<close> is kept, \<open>R\<close> relates the states before and after
  each body, and what a body achieves is stable under \<open>R\<close>.
\<close>

lemma forkAll_total:
  assumes body: "\<And>x s. x \<in> set xs \<Longrightarrow> I s \<Longrightarrow> \<exists>s'. f x s = (Inr (), s') \<and> I s' \<and> R s s' \<and> Q x s'"
    and stable: "\<And>x s s'. Q x s \<Longrightarrow> R s s' \<Longrightarrow> Q x s'"
    and refl: "\<And>s. R s s" and trans: "\<And>s t u. R s t \<Longrightarrow> R t u \<Longrightarrow> R s u"
  shows "I s \<Longrightarrow> \<exists>s'. forkAll xs f s = ([], s') \<and> I s' \<and> R s s' \<and> (\<forall>x \<in> set xs. Q x s')"
  using body
proof (induction xs arbitrary: s)
  case Nil
  then show ?case using refl by simp
next
  case (Cons x xs)
  from Cons.prems(1) Cons.prems(2) [of x] obtain t where
    t: "f x s = (Inr (), t)" "I t" "R s t" "Q x t" by force
  from Cons.IH [OF t(2)] Cons.prems(2) obtain u where
    u: "forkAll xs f t = ([], u)" "I u" "R t u" "\<forall>x \<in> set xs. Q x u" by force
  have "forkAll (x # xs) f s = ([], u)" using t u by simp
  moreover have "R s u" by (rule trans [OF t(3) u(3)])
  moreover have "\<forall>y \<in> set (x # xs). Q y u" using u(4) stable [OF t(4) u(3)] by simp
  ultimately show ?case using u(2) by blast
qed

text \<open>A poll succeeds only through an evaluation of its condition that holds.\<close>

lemma triple_poll:
  assumes c: "triple I c (\<lambda>b s. I s \<and> (b \<longrightarrow> Q s)) (\<lambda>_. I)"
  shows "triple I (pollUntil n c) (\<lambda>_ s. I s \<and> Q s) (\<lambda>_. I)"
proof (rule tripleI)
  show "I s \<Longrightarrow> pollUntil n c s = (Inr x, s') \<Longrightarrow> I s' \<and> Q s'" for s x s'
    by (induction n arbitrary: s)
      (auto split: prod.splits sum.splits bool.splits dest: tripleD_Inr [OF c] tripleD_Inl [OF c])
  show "I s \<Longrightarrow> pollUntil n c s = (Inl e, s') \<Longrightarrow> I s'" for s e s'
    by (induction n arbitrary: s)
      (auto split: prod.splits sum.splits bool.splits dest: tripleD_Inr [OF c] tripleD_Inl [OF c])
qed

text \<open>A fan-out that reports no error has run every body to success.\<close>

lemma triple_forkJoin:
  assumes f: "\<And>x. x \<in> set xs \<Longrightarrow> triple I (f x) (\<lambda>_ s. I s \<and> Q x) (\<lambda>_. I)"
  shows "triple I (forkJoin xs f) (\<lambda>_ s. I s \<and> (\<forall>x \<in> set xs. Q x)) (\<lambda>_. I)"
proof -
  have all: "I s \<Longrightarrow> I s' \<and> (errs = [] \<longrightarrow> (\<forall>x \<in> set xs. Q x))" if "forkAll xs f s = (errs, s')" for s errs s'
    using f that
  proof (induction xs arbitrary: s errs)
    case (Cons x xs)
    obtain r t where r: "f x s = (r, t)" by fastforce
    obtain es u where es: "forkAll xs f t = (es, u)" by fastforce
    have "I t" and "r = Inr y \<Longrightarrow> Q x" for y
      using Cons.prems(2) [of x] Cons.prems(1) r by (cases r; auto dest: tripleD_Inr tripleD_Inl)+
    with Cons.IH [of t es] Cons.prems r es show ?case by (auto split: sum.splits)
  qed simp
  show ?thesis
    by (rule tripleI)
      (auto simp: forkJoin_def aggregate_def split: prod.splits if_splits dest!: all)
qed

text \<open>An action on the world next to a local state.\<close>

lemma triple_liftW:
  assumes "\<And>l. triple (\<lambda>s. P (l, s)) m (\<lambda>x s. Q x (l, s)) (\<lambda>e s. E e (l, s))"
  shows "triple P (liftW m) Q E"
proof (rule tripleI)
  fix p x q assume "P p" and "liftW m p = (Inr x, q)"
  then show "Q x q" using tripleD_Inr [OF assms [of "fst p"], of "snd p"] by (auto simp: liftW_def split: prod.splits)
next
  fix p e q assume "P p" and "liftW m p = (Inl e, q)"
  then show "E e q" using tripleD_Inl [OF assms [of "fst p"], of "snd p"] by (auto simp: liftW_def split: prod.splits)
qed

lemma triple_getL: "(\<And>l. triple (\<lambda>p. P p \<and> fst p = l) (f l) Q E) \<Longrightarrow> triple P (bindA getL f) Q E"
  by (auto simp: triple_def bindA_def getL_def)

lemma triple_if:
  "(b \<Longrightarrow> triple P m Q E) \<Longrightarrow> (\<not> b \<Longrightarrow> triple P n Q E) \<Longrightarrow> triple P (if b then m else n) Q E"
  by simp

lemma triple_pre: "triple P m Q E \<Longrightarrow> (\<And>s. P' s \<Longrightarrow> P s) \<Longrightarrow> triple P' m Q E"
  by (simp add: triple_def)

lemma triple_const:
  "triple P m Q E \<Longrightarrow> triple (\<lambda>s. P s \<and> c) m (\<lambda>x s. Q x s \<and> c) (\<lambda>e s. E e s \<and> c)"
  by (cases c) (simp_all add: triple_def)

lemma triple_anyErr: "triple P m Q E \<Longrightarrow> triple P m Q (\<lambda>_ _. True)"
  by (erule triple_conseq) simp_all

text \<open>What a read-only action finds out about the part \<open>h s\<close> of the state it leaves alone.\<close>

lemma triple_readonly:
  assumes ro: "\<And>v. triple (\<lambda>s. h s = v) m (\<lambda>x s. h s = v \<and> R x v) (\<lambda>_ s. h s = v)"
  shows "triple (\<lambda>s. P (h s)) m (\<lambda>x s. P (h s) \<and> R x (h s)) (\<lambda>_ s. P (h s))"
proof (rule tripleI)
  fix s x s' assume P: "P (h s)" and m: "m s = (Inr x, s')"
  have "h s' = h s \<and> R x (h s)" by (rule tripleD_Inr [OF ro refl m])
  with P show "P (h s') \<and> R x (h s')" by simp
next
  fix s e s' assume P: "P (h s)" and m: "m s = (Inl e, s')"
  have "h s' = h s" by (rule tripleD_Inl [OF ro refl m])
  with P show "P (h s')" by simp
qed

end
