(* ===== verification/GoLib.thy ===== *)
theory GoLib
  imports Prelude
begin

text \<open>
  The fragments of Go and its standard library the controllers rely on: \<open>strconv.Itoa\<close> and
  \<open>strconv.Atoi\<close> (64-bit \<open>int\<close>), \<open>strings.LastIndex\<close>, \<open>strings.EqualFold\<close>,
  \<open>strings.TrimSpace\<close> (as the test for a blank string), \<open>strings.Join\<close>,
  \<open>sort.SliceStable\<close>, slices and maps that may be nil. The main results are the round trip
  of \<open>Atoi\<close> and \<open>Itoa\<close> and the correctness of the stable sort for a strict total order.
\<close>

section \<open>Fallible pure code\<close>

definition bindE :: "error + 'a \<Rightarrow> ('a \<Rightarrow> error + 'b) \<Rightarrow> error + 'b" where
  "bindE r f = (case r of Inl e \<Rightarrow> Inl e | Inr x \<Rightarrow> f x)"

fun mapE :: "('a \<Rightarrow> error + 'b) \<Rightarrow> 'a list \<Rightarrow> error + 'b list" where
  "mapE f [] = Inr []"
| "mapE f (x # xs) = bindE (f x) (\<lambda>y. bindE (mapE f xs) (\<lambda>ys. Inr (y # ys)))"

fun foldE :: "('a \<Rightarrow> 'b \<Rightarrow> error + 'b) \<Rightarrow> 'a list \<Rightarrow> 'b \<Rightarrow> error + 'b" where
  "foldE f [] b = Inr b"
| "foldE f (x # xs) b = bindE (f x b) (foldE f xs)"

definition liftE :: "error + 'a \<Rightarrow> ('s, 'a) act" where
  "liftE r = (case r of Inl e \<Rightarrow> fail e | Inr x \<Rightarrow> ret x)"

lemma bindE_simps [simp]: "bindE (Inl e) f = Inl e" "bindE (Inr x) f = f x"
  by (simp_all add: bindE_def)

lemma bindE_Inr_iff: "bindE r f = Inr y \<longleftrightarrow> (\<exists>x. r = Inr x \<and> f x = Inr y)"
  by (cases r) simp_all

lemma mapE_Inr_iff: "mapE f xs = Inr ys \<longleftrightarrow> list_all2 (\<lambda>x y. f x = Inr y) xs ys"
  by (induction xs arbitrary: ys) (auto simp: bindE_Inr_iff list_all2_Cons1)

lemma liftE_simps [simp]: "liftE (Inl e) = fail e" "liftE (Inr x) = ret x"
  by (simp_all add: liftE_def)

lemma keeps_liftE [triple_rules]: "keeps I (liftE r)"
  by (cases r) (simp_all add: keeps_fail keeps_ret)

section \<open>Machine integers\<close>

text \<open>Go's \<open>int\<close> is 64 bits wide; arithmetic wraps around.\<close>

definition wrap64 :: "int \<Rightarrow> int" where
  "wrap64 x = (x + 2 ^ 63) mod 2 ^ 64 - 2 ^ 63"

definition is_int64 :: "int \<Rightarrow> bool" where
  "is_int64 x \<longleftrightarrow> - (2 ^ 63) \<le> x \<and> x < 2 ^ 63"

lemma wrap64_id: "is_int64 x \<Longrightarrow> wrap64 x = x"
  by (simp add: wrap64_def is_int64_def)

lemma wrap64_range: "is_int64 (wrap64 x)"
  by (simp add: wrap64_def is_int64_def)

section \<open>strconv\<close>

definition digit_char :: "nat \<Rightarrow> char" where
  "digit_char n = char_of (48 + n)"

fun nat_digits :: "nat \<Rightarrow> string" where
  "nat_digits n = (if n < 10 then [digit_char n] else nat_digits (n div 10) @ [digit_char (n mod 10)])"

declare nat_digits.simps [simp del]

definition Itoa :: "int \<Rightarrow> string" where
  "Itoa i = (if i < 0 then CHR ''-'' # nat_digits (nat (- i)) else nat_digits (nat i))"

definition digit_val :: "char \<Rightarrow> nat option" where
  "digit_val c = (let n = of_char c in if 48 \<le> n \<and> n \<le> 57 then Some (n - 48) else None)"

fun parse_digits :: "nat \<Rightarrow> string \<Rightarrow> nat option" where
  "parse_digits acc [] = Some acc"
| "parse_digits acc (c # cs) =
     (case digit_val c of None \<Rightarrow> None | Some d \<Rightarrow> parse_digits (10 * acc + d) cs)"

text \<open>\<open>strconv.Atoi\<close>: an optional sign and decimal digits, within the range of \<open>int\<close>.\<close>

definition signed_digits :: "string \<Rightarrow> bool \<times> string" where
  "signed_digits s =
     (case s of
        [] \<Rightarrow> (False, [])
      | c # cs \<Rightarrow> if c = CHR ''-'' then (True, cs) else if c = CHR ''+'' then (False, cs) else (False, s))"

definition Atoi :: "string \<Rightarrow> int option" where
  "Atoi s =
     (case signed_digits s of (neg, ds) \<Rightarrow>
        if ds = [] then None
        else case parse_digits 0 ds of
               None \<Rightarrow> None
             | Some n \<Rightarrow> (let v = (if neg then - int n else int n)
                         in if is_int64 v then Some v else None))"

lemma of_char_digit [simp]: "n < 10 \<Longrightarrow> (of_char (digit_char n) :: nat) = 48 + n"
  by (simp add: digit_char_def)

lemma digit_val_digit [simp]: "n < 10 \<Longrightarrow> digit_val (digit_char n) = Some n"
  by (simp add: digit_val_def)

lemma digit_char_neq:
  assumes "n < 10"
  shows "digit_char n \<noteq> CHR ''-''" and "digit_char n \<noteq> CHR ''+''" and "digit_char n \<noteq> CHR '',''"
proof -
  have "(of_char (digit_char n) :: nat) \<ge> 48" using assms by simp
  then show "digit_char n \<noteq> CHR ''-''" and "digit_char n \<noteq> CHR ''+''" and "digit_char n \<noteq> CHR '',''"
    by (auto simp del: of_char_digit)
qed

lemma nat_digits_nonempty [simp]: "nat_digits n \<noteq> []"
  by (subst nat_digits.simps) simp

lemma set_nat_digits: "c \<in> set (nat_digits n) \<Longrightarrow> \<exists>d < 10. c = digit_char d"
proof (induction n rule: nat_digits.induct)
  case (1 n)
  show ?case
  proof (cases "n < 10")
    case True
    with "1.prems" show ?thesis by (auto simp: nat_digits.simps [of n])
  next
    case False
    then have "c \<in> set (nat_digits (n div 10)) \<or> c = digit_char (n mod 10)"
      using "1.prems" by (auto simp: nat_digits.simps [of n])
    moreover have "n mod 10 < 10" by simp
    ultimately show ?thesis using "1.IH" [OF False] by blast
  qed
qed

lemma nat_digits_chars: "CHR ''-'' \<notin> set (nat_digits n)" "CHR ''+'' \<notin> set (nat_digits n)"
  "CHR '','' \<notin> set (nat_digits n)"
  using set_nat_digits digit_char_neq by metis+

lemma parse_digits_append:
  "parse_digits acc (xs @ ys) = Option.bind (parse_digits acc xs) (\<lambda>a. parse_digits a ys)"
  by (induction xs arbitrary: acc) (auto split: option.split)

lemma parse_digits_nat_digits: "parse_digits 0 (nat_digits n) = Some n"
proof (induction n rule: nat_digits.induct)
  case (1 n)
  show ?case
  proof (cases "n < 10")
    case True
    then show ?thesis by (simp add: nat_digits.simps [of n])
  next
    case False
    with 1 show ?thesis by (simp add: nat_digits.simps [of n] parse_digits_append)
  qed
qed

lemma Itoa_nonempty [simp]: "Itoa i \<noteq> []"
  by (simp add: Itoa_def)

lemma Itoa_nat_no_dash: "0 \<le> i \<Longrightarrow> CHR ''-'' \<notin> set (Itoa i)"
  by (simp add: Itoa_def nat_digits_chars)

lemma Itoa_no_comma: "CHR '','' \<notin> set (Itoa i)"
  by (simp add: Itoa_def nat_digits_chars)

lemma signed_digits_nat [simp]: "signed_digits (nat_digits n) = (False, nat_digits n)"
  using nat_digits_chars [of n] by (auto simp: signed_digits_def split: list.split)

lemma Atoi_Itoa: "is_int64 i \<Longrightarrow> Atoi (Itoa i) = Some i"
  by (cases "i < 0")
    (auto simp: Atoi_def Itoa_def parse_digits_nat_digits, simp add: signed_digits_def parse_digits_nat_digits)

lemma Atoi_range: "Atoi s = Some i \<Longrightarrow> is_int64 i"
  by (auto simp: Atoi_def Let_def split: prod.splits if_splits option.splits)

lemma Itoa_inject: "is_int64 i \<Longrightarrow> is_int64 j \<Longrightarrow> Itoa i = Itoa j \<longleftrightarrow> i = j"
  by (metis Atoi_Itoa option.inject)

section \<open>strings\<close>

text \<open>\<open>strings.LastIndex\<close> of a one-character substring; \<open>None\<close> is Go's \<open>-1\<close>.\<close>

fun LastIndex :: "char \<Rightarrow> string \<Rightarrow> nat option" where
  "LastIndex c [] = None"
| "LastIndex c (x # xs) =
     (case LastIndex c xs of Some i \<Rightarrow> Some (Suc i) | None \<Rightarrow> if x = c then Some 0 else None)"

lemma LastIndex_None: "LastIndex c xs = None \<longleftrightarrow> c \<notin> set xs"
  by (induction xs) (auto split: option.splits)

lemma LastIndex_append: "c \<notin> set ys \<Longrightarrow> LastIndex c (xs @ c # ys) = Some (length xs)"
  by (induction xs) (auto simp: LastIndex_None [THEN iffD2] split: option.splits)

text \<open>
  \<open>strings.EqualFold\<close> against an ASCII constant without the letters k and s, whose only
  simple case foldings are the ASCII ones.
\<close>

definition lower_char :: "char \<Rightarrow> char" where
  "lower_char c = (let n = (of_char c :: nat) in if 65 \<le> n \<and> n \<le> 90 then char_of (n + 32) else c)"

definition EqualFold :: "string \<Rightarrow> string \<Rightarrow> bool" where
  "EqualFold a b \<longleftrightarrow> map lower_char a = map lower_char b"

lemma EqualFold_refl [simp]: "EqualFold a a"
  by (simp add: EqualFold_def)

text \<open>
  \<open>strings.TrimSpace(s) == ""\<close>: the string consists of the UTF-8 encodings of white space
  (\<open>unicode.IsSpace\<close>) only.
\<close>

definition space1 :: "nat \<Rightarrow> bool" where
  "space1 a \<longleftrightarrow> a \<in> {9, 10, 11, 12, 13, 32}"

definition space2 :: "nat \<Rightarrow> nat \<Rightarrow> bool" where
  "space2 a b \<longleftrightarrow> a = 194 \<and> (b = 133 \<or> b = 160)"

definition space3 :: "nat \<Rightarrow> nat \<Rightarrow> nat \<Rightarrow> bool" where
  "space3 a b c \<longleftrightarrow>
     a = 225 \<and> b = 154 \<and> c = 128 \<or>
     a = 226 \<and> b = 128 \<and> (128 \<le> c \<and> c \<le> 138 \<or> c = 168 \<or> c = 169 \<or> c = 175) \<or>
     a = 226 \<and> b = 129 \<and> c = 159 \<or>
     a = 227 \<and> b = 128 \<and> c = 128"

fun blank_bytes :: "nat list \<Rightarrow> bool" where
  "blank_bytes [] = True"
| "blank_bytes (a # r) =
     (if space1 a then blank_bytes r
      else case r of
             [] \<Rightarrow> False
           | b # r2 \<Rightarrow>
               if space2 a b then blank_bytes r2
               else case r2 of
                      [] \<Rightarrow> False
                    | c # r3 \<Rightarrow> space3 a b c \<and> blank_bytes r3)"

definition isBlank :: "string \<Rightarrow> bool" where
  "isBlank s = blank_bytes (map of_char s)"

lemma isBlank_Nil [simp]: "isBlank []"
  by (simp add: isBlank_def)

lemma blank_bytes_cases:
  assumes "blank_bytes (a # r)"
  obtains "space1 a" "blank_bytes r"
  | b r2 where "r = b # r2" "space2 a b" "blank_bytes r2"
  | b c r3 where "r = b # c # r3" "space3 a b c" "blank_bytes r3"
  using assms by (cases r; cases "tl r") (auto split: if_splits)

lemma blank_bytes_no_dash: "blank_bytes bs \<Longrightarrow> 45 \<notin> set bs"
proof (induction bs rule: length_induct)
  case (1 bs)
  show ?case
  proof (cases bs)
    case (Cons a r)
    with 1 have "blank_bytes (a # r)" by simp
    then show ?thesis
      by (cases rule: blank_bytes_cases) (use 1 Cons in \<open>auto simp: space1_def space2_def space3_def\<close>)
  qed simp
qed

declare blank_bytes.simps(2) [simp del]

lemma isBlank_no_dash: "isBlank s \<Longrightarrow> CHR ''-'' \<notin> set s"
  using blank_bytes_no_dash [of "map of_char s"] by (force simp: isBlank_def image_iff)

fun Join :: "string list \<Rightarrow> string \<Rightarrow> string" where
  "Join [] sep = []"
| "Join [x] sep = x"
| "Join (x # y # ys) sep = x @ sep @ Join (y # ys) sep"

lemma set_Join_subset: "set (Join xs sep) \<subseteq> (\<Union>x\<in>set xs. set x) \<union> set sep"
  by (induction xs sep rule: Join.induct) auto

lemma set_sep_Join: "2 \<le> length xs \<Longrightarrow> set sep \<subseteq> set (Join xs sep)"
  by (induction xs sep rule: Join.induct) auto

section \<open>sort.SliceStable\<close>

text \<open>
  The stable sort by a comparison function. For a strict weak order the result of a stable sort
  is unique, so insertion stands for the algorithm of the library.
\<close>

fun insertBy :: "('a \<Rightarrow> 'a \<Rightarrow> bool) \<Rightarrow> 'a \<Rightarrow> 'a list \<Rightarrow> 'a list" where
  "insertBy lt x [] = [x]"
| "insertBy lt x (y # ys) = (if lt y x then y # insertBy lt x ys else x # y # ys)"

definition sortStable :: "('a \<Rightarrow> 'a \<Rightarrow> bool) \<Rightarrow> 'a list \<Rightarrow> 'a list" where
  "sortStable lt xs = foldr (insertBy lt) xs []"

lemma mset_insertBy [simp]: "mset (insertBy lt x xs) = add_mset x (mset xs)"
  by (induction xs) auto

lemma mset_sortStable [simp]: "mset (sortStable lt xs) = mset xs"
  by (induction xs) (auto simp: sortStable_def)

lemma set_sortStable [simp]: "set (sortStable lt xs) = set xs"
  by (metis mset_sortStable set_mset_mset)

lemma length_sortStable [simp]: "length (sortStable lt xs) = length xs"
  by (metis mset_sortStable size_mset)

lemma distinct_sortStable [simp]: "distinct (sortStable lt xs) = distinct xs"
  by (metis distinct_count_atmost_1 mset_sortStable set_sortStable)

text \<open>The contract of a comparison function, and what the sort promises for it.\<close>

locale strict_weak_lt =
  fixes lt :: "'a \<Rightarrow> 'a \<Rightarrow> bool"
  assumes lt_asym: "lt x y \<Longrightarrow> \<not> lt y x"
    and not_lt_trans: "\<not> lt y x \<Longrightarrow> \<not> lt z y \<Longrightarrow> \<not> lt z x"
begin

definition ordered :: "'a list \<Rightarrow> bool" where
  "ordered xs \<longleftrightarrow> sorted_wrt (\<lambda>x y. \<not> lt y x) xs"

lemma set_insertBy [simp]: "set (insertBy lt x xs) = insert x (set xs)"
  by (metis mset_insertBy set_mset_add_mset_insert set_mset_mset)

lemma ordered_insertBy: "ordered xs \<Longrightarrow> ordered (insertBy lt x xs)"
  unfolding ordered_def
  by (induction xs) (auto dest: lt_asym not_lt_trans)

lemma ordered_sortStable: "ordered (sortStable lt xs)"
  by (induction xs) (auto simp: sortStable_def ordered_insertBy, simp add: ordered_def)

lemma sortStable_ordered_id: "ordered xs \<Longrightarrow> sortStable lt xs = xs"
proof (induction xs)
  case (Cons x xs)
  then have "sortStable lt xs = xs" by (simp add: ordered_def)
  with Cons.prems show ?case
    by (cases xs) (auto simp: sortStable_def ordered_def)
qed (simp add: sortStable_def)

end

text \<open>For a total order the sorted permutation is unique.\<close>

locale strict_total_lt = strict_weak_lt +
  assumes lt_total: "x \<noteq> y \<Longrightarrow> lt x y \<or> lt y x"
begin

lemma ordered_unique:
  "ordered xs \<Longrightarrow> ordered ys \<Longrightarrow> mset xs = mset ys \<Longrightarrow> xs = ys"
proof (induction xs arbitrary: ys)
  case (Cons x xs)
  then obtain y ys' where ys: "ys = y # ys'" by (cases ys) auto
  from Cons.prems(3) ys have "y \<in> set (x # xs)" and "x \<in> set (y # ys')"
    by (metis list.set_intros(1) mset_eq_setD)+
  then have "x = y"
    using Cons.prems(1,2) ys lt_total by (auto simp: ordered_def)
  with Cons ys show ?case by (auto simp: ordered_def)
qed simp

lemma sortStable_eq:
  assumes "ordered ys" and "mset xs = mset ys"
  shows "sortStable lt xs = ys"
  using ordered_unique [OF ordered_sortStable assms(1)] assms(2) by simp

end

section \<open>Slices and maps\<close>

text \<open>A slice or a map that may be nil is an option; reading a nil one is reading an empty one.\<close>

type_synonym 'a goslice = "'a list option"
type_synonym 'v gomap = "(string, 'v) fmap option"

definition elems :: "'a goslice \<Rightarrow> 'a list" where
  "elems xs = (case xs of None \<Rightarrow> [] | Some ys \<Rightarrow> ys)"

definition mbody :: "'v gomap \<Rightarrow> (string, 'v) fmap" where
  "mbody m = (case m of None \<Rightarrow> fmempty | Some f \<Rightarrow> f)"

definition mfind :: "'v gomap \<Rightarrow> string \<Rightarrow> 'v option" where
  "mfind m k = fmlookup (mbody m) k"

text \<open>\<open>m[k]\<close> of a map of strings: the zero value is the empty string.\<close>

definition mstr :: "string gomap \<Rightarrow> string \<Rightarrow> string" where
  "mstr m k = (case mfind m k of None \<Rightarrow> [] | Some v \<Rightarrow> v)"

text \<open>\<open>if m == nil { m = make(...) }\<close>, and an assignment after it.\<close>

definition minit :: "'v gomap \<Rightarrow> 'v gomap" where
  "minit m = Some (mbody m)"

definition mput :: "string \<Rightarrow> 'v \<Rightarrow> 'v gomap \<Rightarrow> 'v gomap" where
  "mput k v m = Some (fmupd k v (mbody m))"

text \<open>\<open>for k, v := range src { m[k] = v }\<close>.\<close>

definition mputAll :: "'v gomap \<Rightarrow> 'v gomap \<Rightarrow> 'v gomap" where
  "mputAll src m = Some (mbody m ++\<^sub>f mbody src)"

text \<open>\<open>for k, v := range src { if _, ok := m[k]; !ok { m[k] = v } }\<close>.\<close>

definition mputAbsent :: "'v gomap \<Rightarrow> 'v gomap \<Rightarrow> 'v gomap" where
  "mputAbsent src m = Some (mbody src ++\<^sub>f mbody m)"

text \<open>
  \<open>for k, v := range src { if m == nil { m = make(\<dots>) }; if m[k] != v { m[k] = v } }\<close> on maps of
  strings: a nil map stays nil when there is nothing to range over, and an absent entry equals the
  empty string.
\<close>

definition mputDiffering :: "string gomap \<Rightarrow> string gomap \<Rightarrow> string gomap" where
  "mputDiffering src m =
     (if fmdom (mbody src) = {||} then m
      else Some (mbody m ++\<^sub>f fmfilter (\<lambda>k. mstr m k \<noteq> mstr src k) (mbody src)))"

definition wrap32 :: "int \<Rightarrow> int" where
  "wrap32 x = (x + 2 ^ 31) mod 2 ^ 32 - 2 ^ 31"

lemma elems_simps [simp, go_simps]: "elems None = []" "elems (Some xs) = xs"
  by (simp_all add: elems_def)

lemma mbody_simps [simp, go_simps]:
  "mbody None = fmempty" "mbody (Some f) = f" "mbody (minit m) = mbody m"
  "mbody (mput k v m) = fmupd k v (mbody m)" "mbody (mputAll src m) = mbody m ++\<^sub>f mbody src"
  by (simp_all add: mbody_def minit_def mput_def mputAll_def)

lemma mfind_simps [simp, go_simps]:
  "mfind None k = None" "mfind (minit m) k = mfind m k"
  "mfind (mput k' v m) k = (if k' = k then Some v else mfind m k)"
  "mfind (mputAll src m) k = (case mfind src k of Some v \<Rightarrow> Some v | None \<Rightarrow> mfind m k)"
  by (auto simp: mfind_def minit_def mput_def mputAll_def fmlookup_dom_iff split: option.split)

lemma mstr_simps [simp, go_simps]:
  "mstr (minit m) k = mstr m k"
  "mstr (mput k' v m) k = (if k' = k then v else mstr m k)"
  by (simp_all add: mstr_def)

lemma mstr_None [simp, go_simps]: "mstr None k = []"
  by (simp add: mstr_def)

lemma not_None_minit [simp]: "minit m \<noteq> None" "mput k v m \<noteq> None" "mputAll s m \<noteq> None"
  by (simp_all add: minit_def mput_def mputAll_def)

lemma mfind_mputAbsent [simp, go_simps]:
  "mfind (mputAbsent src m) k = (case mfind m k of Some v \<Rightarrow> Some v | None \<Rightarrow> mfind src k)"
  by (auto simp: mfind_def mputAbsent_def fmlookup_dom_iff split: option.split)

lemma mstr_mputDiffering: "mstr (mputDiffering src m) k = (case mfind src k of Some v \<Rightarrow> v | None \<Rightarrow> mstr m k)"
proof (cases "fmdom (mbody src) = {||}")
  case True
  then have "mfind src k = None" by (metis fempty_iff fmdom_notD mfind_def)
  with True show ?thesis by (simp add: mputDiffering_def)
next
  case False
  show ?thesis
  proof (cases "fmlookup (mbody src) k")
    case None
    with False show ?thesis by (simp add: mputDiffering_def mstr_def mfind_def fmlookup_dom_iff)
  next
    case (Some v)
    with False show ?thesis
      by (cases "fmlookup (mbody m) k") (auto simp: mputDiffering_def mstr_def mfind_def fmlookup_dom_iff)
  qed
qed

lemma mputDiffering_idem: "mputDiffering src (mputDiffering src m) = mputDiffering src m"
proof (cases "fmdom (mbody src) = {||}")
  case True
  then show ?thesis by (simp add: mputDiffering_def)
next
  case False
  then obtain f where f: "mputDiffering src m = Some f" by (auto simp: mputDiffering_def)
  have "fmfilter (\<lambda>k. mstr (mputDiffering src m) k \<noteq> mstr src k) (mbody src) = fmempty"
  proof (rule fmap_ext)
    fix k
    have "mstr (mputDiffering src m) k = mstr src k" if "fmlookup (mbody src) k = Some v" for v
      unfolding mstr_mputDiffering using that by (simp add: mfind_def mstr_def)
    then show "fmlookup (fmfilter (\<lambda>k. mstr (mputDiffering src m) k \<noteq> mstr src k) (mbody src)) k = fmlookup fmempty k"
      by (cases "fmlookup (mbody src) k") auto
  qed
  then have "mputDiffering src (Some f) = Some (f ++\<^sub>f fmempty)"
    using False f unfolding mputDiffering_def [of src "Some f"] by (simp only: f if_False mbody_simps)
  then show ?thesis using f by simp
qed

end
