(* ===== verification/ApiTypes.thy ===== *)
theory ApiTypes
  imports GoLib
begin

text \<open>
  The objects of the system, from \<open>src/api/v1alpha2\<close> (Unit, UnitSet) and the fields of the
  Kubernetes types (Pod, PodTemplate, PersistentVolumeClaim, ...) the controllers read or write.
  The fields no controller inspects are kept together in one opaque field named \<open>..._other\<close>,
  so that copying a structure copies them too; the empty string is their zero value.
  Quantities (\<open>resource.Quantity\<close>) are opaque: what the controllers do with them goes through
  the parameters of \<open>ext\<close>, the record of pure third-party functions.
\<close>

section \<open>Kubernetes types\<close>

datatype quantity = Quantity string

type_synonym resourceList = "quantity gomap"

datatype ownerRef = OwnerRef string string string

record meta =
  Name :: string
  Namespace :: string
  Labels :: "string gomap"
  Annotations :: "string gomap"
  OwnerReferences :: "ownerRef list"
  Finalizers :: "string list"
  ResourceVersion :: string
  Generation :: int
  DeletionTimestamp :: "nat option"
  UID :: string

record envVar =
  e_Name :: string
  e_Value :: string
  e_ValueFrom :: "string option"

record volumeMount =
  vm_Name :: string
  vm_MountPath :: string
  vm_ReadOnly :: bool
  vm_other :: string

record resourceRequirements =
  Limits :: resourceList
  Requests :: resourceList
  rr_other :: string

record resizePolicy =
  rp_ResourceName :: string
  rp_RestartPolicy :: string

record containerPort =
  cp_Name :: string
  cp_ContainerPort :: int
  cp_Protocol :: string
  cp_other :: string

record probe =
  PeriodSeconds :: int
  SuccessThreshold :: int
  TimeoutSeconds :: int

record container =
  c_Name :: string
  c_Image :: string
  c_Env :: "envVar goslice"
  c_Resources :: resourceRequirements
  c_ResizePolicy :: "resizePolicy goslice"
  c_VolumeMounts :: "volumeMount goslice"
  c_Ports :: "containerPort goslice"
  c_ReadinessProbe :: "probe option"
  c_other :: string

record pvcSource =
  ClaimName :: string
  pvcs_ReadOnly :: bool

record secretSource =
  SecretName :: string
  ss_other :: string

record configMapSource =
  cms_Name :: string
  cms_other :: string

record emptyDirSource =
  ed_Medium :: string
  SizeLimit :: "quantity option"

record volume =
  v_Name :: string
  v_PersistentVolumeClaim :: "pvcSource option"
  v_Secret :: "secretSource option"
  v_ConfigMap :: "configMapSource option"
  v_EmptyDir :: "emptyDirSource option"
  v_other :: string

text \<open>A requirement of a node selector or of a label selector.\<close>

record requirement =
  req_Key :: string
  req_Operator :: string
  req_Values :: "string list"

record nodeSelectorTerm =
  nst_MatchExpressions :: "requirement list"
  nst_other :: string

record nodeAffinity =
  na_Required :: "nodeSelectorTerm list option"
  na_other :: string

record podAffinityTerm =
  pat_MatchExpressions :: "requirement list"
  pat_TopologyKey :: string
  pat_other :: string

record podAntiAffinity =
  paa_Required :: "podAffinityTerm list"
  paa_other :: string

record affinity =
  NodeAffinity :: "nodeAffinity option"
  PodAntiAffinity :: "podAntiAffinity option"
  aff_other :: string

record topologySpread =
  MaxSkew :: int
  tsc_TopologyKey :: string
  WhenUnsatisfiable :: string
  tsc_MatchLabels :: "(string \<times> string) list"
  tsc_other :: string

record podSpec =
  Containers :: "container list"
  InitContainers :: "container list"
  Volumes :: "volume list"
  Affinity :: "affinity option"
  NodeName :: string
  Hostname :: string
  Subdomain :: string
  EnableServiceLinks :: "bool option"
  ServiceAccountName :: string
  TopologySpreadConstraints :: "topologySpread list"
  ps_other :: string

record podCondition =
  pc_Type :: string
  pc_Status :: string

record containerStatus =
  cs_Name :: string
  cs_Running :: bool
  cs_Ready :: bool

record podStatus =
  p_Phase :: string
  p_Reason :: string
  p_Conditions :: "podCondition list"
  p_ContainerStatuses :: "containerStatus list"
  p_HostIP :: string
  p_PodIPs :: "string list"

record pod =
  p_meta :: meta
  p_Spec :: podSpec
  p_Status :: podStatus

record podTemplateSpec =
  pts_Labels :: "string gomap"
  pts_Annotations :: "string gomap"
  pts_Spec :: podSpec
  pts_other :: string

record podTemplate =
  pt_meta :: meta
  pt_Template :: podTemplateSpec

record pvcSpec =
  AccessModes :: "string list"
  pvc_Requests :: resourceList
  StorageClassName :: "string option"
  VolumeName :: string
  pvcspec_other :: string

record pvc =
  pvc_meta :: meta
  pvc_Spec :: pvcSpec
  pvc_Phase :: string
  pvc_Capacity :: resourceList

record objectRef =
  ref_Namespace :: string
  ref_Name :: string

record pv =
  pv_meta :: meta
  ClaimRef :: "objectRef option"

record node =
  n_meta :: meta
  n_Conditions :: "podCondition list"

record configMap =
  cm_meta :: meta
  cm_Data :: "string gomap"

record servicePort =
  sp_Name :: string
  sp_Protocol :: string
  sp_Port :: int
  sp_TargetPort :: int
  sp_NodePort :: int

record service =
  svc_meta :: meta
  svc_Type :: string
  svc_ClusterIP :: string
  svc_Selector :: "string gomap"
  svc_Ports :: "servicePort list"
  svc_PublishNotReadyAddresses :: bool
  svc_IngressIPs :: "string list"
  svc_other :: string

section \<open>Further objects the controllers create\<close>

record secret =
  sec_meta :: meta
  sec_Data :: "string gomap"

record policyRule =
  APIGroups :: "string list"
  pr_Resources :: "string list"
  Verbs :: "string list"

record role =
  role_meta :: meta
  Rules :: "policyRule list"

record roleRef =
  rr_APIGroup :: string
  rr_Kind :: string
  rr_Name :: string

record rbacSubject =
  subj_Kind :: string
  subj_Name :: string
  subj_Namespace :: string

record roleBinding =
  rb_meta :: meta
  RoleRef :: roleRef
  Subjects :: "rbacSubject list"

text \<open>An issuer of cert-manager: the secret of its certificate authority, or self-signed.\<close>

record issuer =
  iss_meta :: meta
  iss_CA :: "string option"
  iss_SelfSigned :: bool

text \<open>Durations are nanoseconds.\<close>

record certificate =
  cert_meta :: meta
  IsCA :: bool
  CommonName :: string
  DNSNames :: "string list"
  cert_Organizations :: "string list option"
  KeyAlgorithm :: string
  KeyEncoding :: string
  KeySize :: int
  IssuerRef :: roleRef
  cert_SecretName :: string
  Duration :: int
  RenewBefore :: int

record monitorRelabel =
  mr_TargetLabel :: string
  mr_Action :: string
  mr_Replacement :: "string option"

record metricsEndpoint =
  pme_Port :: string
  pme_RelabelConfigs :: "monitorRelabel goslice"

record podMonitorSpec =
  PodMetricsEndpoints :: "metricsEndpoint list"
  MatchNames :: "string list"
  MatchLabels :: "(string \<times> string) list"

record podMonitor =
  pm_meta :: meta
  pm_Spec :: podMonitorSpec

section \<open>Project (\<open>project_types.go\<close>)\<close>

record PrivateKeyInfo =
  pk_Algorithm :: string
  pk_Size :: int

record CAInfo =
  ca_Enabled :: bool
  ca_CommonName :: string
  ca_SecretName :: string
  ca_Duration :: string
  ca_RenewBefore :: string
  ca_PrivateKey :: PrivateKeyInfo

record Project =
  proj_meta :: meta
  proj_CA :: CAInfo

section \<open>GrpcCall (\<open>src/api/v1alpha1/grpccall_types.go\<close>)\<close>

record GrpcCallSpec =
  TargetUnit :: string
  gc_Type :: string
  gc_Action :: string
  TTLSecondsAfterFinished :: "int option"
  Parameters :: "string gomap"

text \<open>Points in time are nanoseconds.\<close>

record GrpcCallStatus =
  Result :: string
  Message :: string
  CompletionTime :: "nat option"
  StartTime :: "nat option"

record GrpcCall =
  gc_meta :: meta
  gc_Spec :: GrpcCallSpec
  gc_Status :: GrpcCallStatus

section \<open>Unit\<close>

record vctemplate =
  vct_Name :: string
  vct_Labels :: "string gomap"
  vct_Annotations :: "string gomap"
  vct_Spec :: pvcSpec

record unitPodTemplate =
  t_Name :: string
  t_Namespace :: string
  t_Labels :: "string gomap"
  t_Annotations :: "string gomap"
  t_Spec :: podSpec

record recoveryPolicy =
  Enabled :: bool
  ReconcileThreshold :: int

record UnitSpec =
  Startup :: bool
  u_ConfigTemplateName :: string
  u_ConfigValueName :: string
  VolumeClaimTemplates :: "vctemplate list"
  Template :: unitPodTemplate
  FailedPodRecoveryPolicy :: "recoveryPolicy option"

record PvcInfo =
  pi_Name :: string
  pi_VolumeName :: string
  pi_AccessModes :: "string list"
  pi_Storage :: quantity
  pi_Phase :: string

record syncStatus =
  LastTransitionTime :: nat
  ss_Status :: string

record UnitStatus =
  Conditions :: string
  u_ObservedGeneration :: int
  Phase :: string
  NodeReady :: string
  u_NodeName :: string
  Task :: string
  ProcessState :: string
  HostIP :: string
  PodIPs :: "string list"
  ConfigSyncStatus :: syncStatus
  PersistentVolumeClaim :: "PvcInfo list"

record Unit =
  u_meta :: meta
  u_Spec :: UnitSpec
  u_Status :: UnitStatus

section \<open>UnitSet\<close>

record extraVolume =
  ev_Volume :: volume
  VolumeMountPath :: string

record relabelConfig =
  TargetLabel :: string
  Replacement :: string
  Action :: string

record monitorEndpoint =
  me_Port :: string
  RelabelConfigs :: "relabelConfig list"

record podMonitorInfo =
  Enable :: bool
  Endpoints :: "monitorEndpoint list"

record certificateProfile =
  Organizations :: "string list"
  RootSecret :: string

record updateStrategy =
  us_Type :: string
  Partition :: int
  MaxUnavailable :: int

record nodeAffinityPreset =
  nap_Key :: string
  nap_Values :: "string list"

record storageSpec =
  st_Name :: string
  Size :: string
  st_StorageClassName :: string
  st_MountPath :: string

record emptyDirSpec =
  eds_Name :: string
  eds_Size :: string
  eds_MountPath :: string

record UnitSetSpec =
  Type :: string
  Edition :: string
  Version :: string
  Units :: int
  Resources :: resourceRequirements
  ResizePolicy :: "resizePolicy goslice"
  Env :: "envVar list"
  ExternalService :: string
  UnitService :: string
  UpdateStrategy :: updateStrategy
  NodeAffinityPreset :: "nodeAffinityPreset list"
  PodAntiAffinityPreset :: string
  Storage :: "storageSpec list"
  EmptyDir :: "emptyDirSpec list"
  ExtraVolume :: "extraVolume list"
  CertificateProfile :: certificateProfile
  PodMonitor :: podMonitorInfo

record UnitSetStatus =
  us_Conditions :: string
  ObservedGeneration :: int
  s_Units :: int
  ReadyUnits :: int
  PvcSyncStatus :: syncStatus
  ImageSyncStatus :: syncStatus
  ResourceSyncStatus :: syncStatus
  InUpdate :: string
  s_ExternalService :: string
  s_UnitService :: "string gomap"

record UnitSet =
  us_meta :: meta
  us_Spec :: UnitSetSpec
  us_Status :: UnitSetStatus

section \<open>Constants (\<open>const.go\<close>)\<close>

definition UnitsetName :: string where "UnitsetName = ''unit-operator/unitset.name''"
definition UnitName :: string where "UnitName = ''unit-operator/unit.name''"
definition UnitSn :: string where "UnitSn = ''unit-operator/unit.sn''"
definition NoneSetFlag :: string where "NoneSetFlag = ''noneSet''"
definition AnnotationMaintenance :: string where
  "AnnotationMaintenance = ''unit-operator/maintenance''"
definition AnnotationMainContainerName :: string where
  "AnnotationMainContainerName = ''kubectl.kubernetes.io/default-container''"
definition AnnotationMainContainerVersion :: string where
  "AnnotationMainContainerVersion = ''kubectl.kubernetes.io/default-container-version''"
definition AnnotationForceDelete :: string where
  "AnnotationForceDelete = ''unit-operator/force-delete''"
definition AnnotationUnitsetNodeNameMap :: string where
  "AnnotationUnitsetNodeNameMap = ''unit-operator/unit.node-name.map''"
definition AnnotationUnitServiceType :: string where
  "AnnotationUnitServiceType = ''unit-operator/unit-service.type''"
definition AnnotationExternalServiceType :: string where
  "AnnotationExternalServiceType = ''unit-operator/external-service.type''"
definition AnnotationConfigTemplateVersion :: string where
  "AnnotationConfigTemplateVersion = ''unit-operator/config-template.version''"
definition AnnotationConfigValueVersion :: string where
  "AnnotationConfigValueVersion = ''unit-operator/config-value.version''"
definition AnnotationExtraVolumePrefix :: string where
  "AnnotationExtraVolumePrefix = ''unit-operator/extraVolume.volume.''"
definition AnnotationStoragePrefix :: string where
  "AnnotationStoragePrefix = ''unit-operator/storage.volume.''"
definition AnnotationCertificatePrefix :: string where
  "AnnotationCertificatePrefix = ''unit-operator/certificate.volume.''"
definition LabelUnitsCount :: string where
  "LabelUnitsCount = ''unit-operator/unitset.units.count''"
definition FinalizerUnitDelete :: string where
  "FinalizerUnitDelete = ''unit-operator/unit-delete''"
definition FinalizerConfigMapDelete :: string where
  "FinalizerConfigMapDelete = ''unit-operator/configmap-delete''"
definition FinalizerPodDelete :: string where
  "FinalizerPodDelete = ''unit-operator/pod-delete''"
definition FinalizerPvcDelete :: string where
  "FinalizerPvcDelete = ''unit-operator/pvc-delete''"
definition CertmanagerCertificateSuffix :: string where
  "CertmanagerCertificateSuffix = ''certmanager-ca''"
definition CertmanagerSecretNameSuffix :: string where
  "CertmanagerSecretNameSuffix = ''secret''"

definition UnitReady :: string where "UnitReady = ''Ready''"
definition UnitRunning :: string where "UnitRunning = ''Running''"
definition UnitFailed :: string where "UnitFailed = ''Failed''"

lemmas const_defs =
  UnitsetName_def UnitName_def UnitSn_def NoneSetFlag_def AnnotationMaintenance_def
  AnnotationMainContainerName_def AnnotationMainContainerVersion_def AnnotationForceDelete_def
  AnnotationUnitsetNodeNameMap_def AnnotationUnitServiceType_def AnnotationExternalServiceType_def
  AnnotationConfigTemplateVersion_def AnnotationConfigValueVersion_def
  AnnotationExtraVolumePrefix_def AnnotationStoragePrefix_def AnnotationCertificatePrefix_def
  LabelUnitsCount_def FinalizerUnitDelete_def FinalizerConfigMapDelete_def FinalizerPodDelete_def
  FinalizerPvcDelete_def CertmanagerCertificateSuffix_def CertmanagerSecretNameSuffix_def
  UnitReady_def UnitRunning_def UnitFailed_def

lemma label_keys_distinct [simp]:
  "UnitsetName \<noteq> UnitName" "UnitsetName \<noteq> UnitSn" "UnitsetName \<noteq> LabelUnitsCount"
  "UnitName \<noteq> UnitsetName" "UnitName \<noteq> UnitSn" "UnitName \<noteq> LabelUnitsCount"
  "UnitSn \<noteq> UnitsetName" "UnitSn \<noteq> UnitName" "UnitSn \<noteq> LabelUnitsCount"
  "LabelUnitsCount \<noteq> UnitsetName" "LabelUnitsCount \<noteq> UnitName" "LabelUnitsCount \<noteq> UnitSn"
  by (simp_all add: const_defs)

lemma annotation_keys_distinct [simp]:
  "AnnotationMainContainerName \<noteq> AnnotationMainContainerVersion"
  "AnnotationMainContainerVersion \<noteq> AnnotationMainContainerName"
  by (simp_all add: const_defs)

section \<open>Names (\<open>unitset_funs.go\<close>, \<open>unit_funcs.go\<close>)\<close>

definition us_Name :: "UnitSet \<Rightarrow> string" where "us_Name u = Name (us_meta u)"
definition u_Name :: "Unit \<Rightarrow> string" where "u_Name u = Name (u_meta u)"

text \<open>\<open>UnitNames\<close>: the loop counter runs over the non-negative numbers below \<open>spec.units\<close>.\<close>

definition unitNameAt :: "UnitSet \<Rightarrow> int \<Rightarrow> string" where
  "unitNameAt u i = us_Name u @ ''-'' @ Itoa i"

definition UnitNames :: "UnitSet \<Rightarrow> string list \<times> (string, string) fmap" where
  "UnitNames u =
     (let is = [0 .. Units (us_Spec u) - 1] in
      (map (unitNameAt u) is,
       fold (\<lambda>i m. fmupd (unitNameAt u i) (Itoa i) m) is fmempty))"

abbreviation unitNames :: "UnitSet \<Rightarrow> string list" where
  "unitNames u \<equiv> fst (UnitNames u)"

definition versioned :: "UnitSet \<Rightarrow> string" where
  "versioned u =
     (if Edition (us_Spec u) = [] then Type (us_Spec u) @ ''-'' @ Version (us_Spec u)
      else Type (us_Spec u) @ ''-'' @ Edition (us_Spec u) @ ''-'' @ Version (us_Spec u))"

definition TemplateConfigTemplateName :: "UnitSet \<Rightarrow> string" where
  "TemplateConfigTemplateName u = versioned u @ ''-config-template''"

definition ConfigTemplateName :: "UnitSet \<Rightarrow> string" where
  "ConfigTemplateName u = us_Name u @ ''-config-template''"

definition ConfigValueName :: "UnitSet \<Rightarrow> string \<Rightarrow> string" where
  "ConfigValueName u unitName = unitName @ ''-config-value''"

definition TemplateConfigValueName :: "UnitSet \<Rightarrow> string" where
  "TemplateConfigValueName u = versioned u @ ''-config-value''"

definition HeadlessServiceName :: "UnitSet \<Rightarrow> string" where
  "HeadlessServiceName u = us_Name u @ ''-headless-svc''"

definition ExternalServiceName :: "UnitSet \<Rightarrow> string" where
  "ExternalServiceName u = us_Name u @ ''-svc''"

definition TemplatePodTemplateName :: "UnitSet \<Rightarrow> string" where
  "TemplatePodTemplateName u = versioned u"

definition PodTemplateName :: "UnitSet \<Rightarrow> string" where
  "PodTemplateName u = us_Name u @ ''-podtemplate''"

definition MainContainerName :: "Unit \<Rightarrow> string" where
  "MainContainerName u = mstr (t_Annotations (Template (u_Spec u))) AnnotationMainContainerName"

definition PersistentVolumeClaimName :: "Unit \<Rightarrow> string \<Rightarrow> string" where
  "PersistentVolumeClaimName u volume = u_Name u @ ''-'' @ volume"

definition UnitsetHeadlessSvcName :: "Unit \<Rightarrow> string" where
  "UnitsetHeadlessSvcName u = mstr (Labels (u_meta u)) UnitsetName @ ''-headless-svc''"

lemma unitNameAt_inject:
  "is_int64 i \<Longrightarrow> is_int64 j \<Longrightarrow> unitNameAt u i = unitNameAt u j \<longleftrightarrow> i = j"
  by (simp add: unitNameAt_def Itoa_inject)

lemma unitNames_eq: "unitNames u = map (unitNameAt u) [0 .. Units (us_Spec u) - 1]"
  by (simp add: UnitNames_def Let_def)

section \<open>Zero values\<close>

text \<open>The zero values of the structures, on which Go's composite literals are built.\<close>

definition meta0 :: meta where
  "meta0 = \<lparr>Name = [], Namespace = [], Labels = None, Annotations = None, OwnerReferences = [],
     Finalizers = [], ResourceVersion = [], Generation = 0, DeletionTimestamp = None, UID = []\<rparr>"

definition resources0 :: resourceRequirements where
  "resources0 = \<lparr>Limits = None, Requests = None, rr_other = []\<rparr>"

definition container0 :: container where
  "container0 = \<lparr>c_Name = [], c_Image = [], c_Env = None, c_Resources = resources0,
     c_ResizePolicy = None, c_VolumeMounts = None, c_Ports = None, c_ReadinessProbe = None,
     c_other = []\<rparr>"

definition volume0 :: volume where
  "volume0 = \<lparr>v_Name = [], v_PersistentVolumeClaim = None, v_Secret = None, v_ConfigMap = None,
     v_EmptyDir = None, v_other = []\<rparr>"

definition volumeMount0 :: volumeMount where
  "volumeMount0 = \<lparr>vm_Name = [], vm_MountPath = [], vm_ReadOnly = False, vm_other = []\<rparr>"

definition affinity0 :: affinity where
  "affinity0 = \<lparr>NodeAffinity = None, PodAntiAffinity = None, aff_other = []\<rparr>"

definition nodeAffinity0 :: nodeAffinity where
  "nodeAffinity0 = \<lparr>na_Required = None, na_other = []\<rparr>"

definition podSpec0 :: podSpec where
  "podSpec0 = \<lparr>Containers = [], InitContainers = [], Volumes = [], Affinity = None, NodeName = [],
     Hostname = [], Subdomain = [], EnableServiceLinks = None, ServiceAccountName = [],
     TopologySpreadConstraints = [], ps_other = []\<rparr>"

definition podStatus0 :: podStatus where
  "podStatus0 = \<lparr>p_Phase = [], p_Reason = [], p_Conditions = [], p_ContainerStatuses = [],
     p_HostIP = [], p_PodIPs = []\<rparr>"

definition unitPodTemplate0 :: unitPodTemplate where
  "unitPodTemplate0 = \<lparr>t_Name = [], t_Namespace = [], t_Labels = None, t_Annotations = None,
     t_Spec = podSpec0\<rparr>"

definition pvcSpec0 :: pvcSpec where
  "pvcSpec0 = \<lparr>AccessModes = [], pvc_Requests = None, StorageClassName = None, VolumeName = [],
     pvcspec_other = []\<rparr>"

definition unitSpec0 :: UnitSpec where
  "unitSpec0 = \<lparr>Startup = False, u_ConfigTemplateName = [], u_ConfigValueName = [],
     VolumeClaimTemplates = [], Template = unitPodTemplate0, FailedPodRecoveryPolicy = None\<rparr>"

definition syncStatus0 :: syncStatus where
  "syncStatus0 = \<lparr>LastTransitionTime = 0, ss_Status = []\<rparr>"

definition unitStatus0 :: UnitStatus where
  "unitStatus0 = \<lparr>Conditions = [], u_ObservedGeneration = 0, Phase = [], NodeReady = [],
     u_NodeName = [], Task = [], ProcessState = [], HostIP = [], PodIPs = [],
     ConfigSyncStatus = syncStatus0, PersistentVolumeClaim = []\<rparr>"

definition unit0 :: Unit where
  "unit0 = \<lparr>u_meta = meta0, u_Spec = unitSpec0, u_Status = unitStatus0\<rparr>"

definition unitSetStatus0 :: UnitSetStatus where
  "unitSetStatus0 = \<lparr>us_Conditions = [], ObservedGeneration = 0, s_Units = 0, ReadyUnits = 0,
     PvcSyncStatus = syncStatus0, ImageSyncStatus = syncStatus0, ResourceSyncStatus = syncStatus0,
     InUpdate = [], s_ExternalService = [], s_UnitService = None\<rparr>"

definition unitSetSpec0 :: UnitSetSpec where
  "unitSetSpec0 = \<lparr>Type = [], Edition = [], Version = [], Units = 0, Resources = resources0,
     ResizePolicy = None, Env = [], ExternalService = [], UnitService = [],
     UpdateStrategy = \<lparr>us_Type = [], Partition = 0, MaxUnavailable = 0\<rparr>, NodeAffinityPreset = [],
     PodAntiAffinityPreset = [], Storage = [], EmptyDir = [], ExtraVolume = [],
     CertificateProfile = \<lparr>Organizations = [], RootSecret = []\<rparr>,
     PodMonitor = \<lparr>Enable = False, Endpoints = []\<rparr>\<rparr>"

definition unitSet0 :: UnitSet where
  "unitSet0 = \<lparr>us_meta = meta0, us_Spec = unitSetSpec0, us_Status = unitSetStatus0\<rparr>"

lemmas zero_defs =
  meta0_def resources0_def container0_def volume0_def volumeMount0_def affinity0_def
  nodeAffinity0_def podSpec0_def podStatus0_def unitPodTemplate0_def pvcSpec0_def unitSpec0_def
  syncStatus0_def unitStatus0_def unit0_def unitSetStatus0_def unitSetSpec0_def unitSet0_def

text \<open>Sample objects for concrete runs.\<close>

definition sampleUnitSet :: "string \<Rightarrow> int \<Rightarrow> UnitSet" where
  "sampleUnitSet n k = unitSet0\<lparr>us_meta := meta0\<lparr>Name := n, Namespace := ''ns''\<rparr>,
     us_Spec := unitSetSpec0\<lparr>Type := ''mysql'', Version := ''8.0'', Units := k\<rparr>\<rparr>"

definition sampleUnit :: "UnitSet \<Rightarrow> int \<Rightarrow> Unit" where
  "sampleUnit u i = unit0\<lparr>u_meta := meta0\<lparr>Name := unitNameAt u i, Namespace := Namespace (us_meta u),
     Labels := mput UnitsetName (us_Name u) (mput UnitSn (Itoa i) None)\<rparr>\<rparr>"

lemma sample_simps:
  "Units (us_Spec (sampleUnitSet n k)) = k" "Name (us_meta (sampleUnitSet n k)) = n"
  "Namespace (us_meta (sampleUnitSet n k)) = ''ns''"
  by (simp_all add: sampleUnitSet_def zero_defs)

section \<open>Third-party functions\<close>

text \<open>
  The pure functions of the Kubernetes libraries and of \<open>encoding/json\<close> the controllers call.
  \<open>MustParse\<close> is \<open>None\<close> where it panics; \<open>Cpu\<close>, \<open>Memory\<close> and \<open>StorageQ\<close> are
  the accessors of a resource list; \<open>qcmp\<close> is \<open>Quantity.Cmp\<close>; \<open>semEqTemplate\<close> and
  its siblings are \<open>equality.Semantic.DeepEqual\<close> at the types it is used at.
\<close>

record ext =
  MustParse :: "string \<Rightarrow> quantity option"
  qcmp :: "quantity \<Rightarrow> quantity \<Rightarrow> int"
  qMilliValue :: "quantity \<Rightarrow> int"
  qValue :: "quantity \<Rightarrow> int"
  Cpu :: "resourceList \<Rightarrow> quantity"
  Memory :: "resourceList \<Rightarrow> quantity"
  StorageQ :: "resourceList \<Rightarrow> quantity"
  semEqTemplate :: "podTemplateSpec \<Rightarrow> podTemplateSpec \<Rightarrow> bool"
  semEqResize :: "resizePolicy goslice \<Rightarrow> resizePolicy goslice \<Rightarrow> bool"
  semEqUnitStatus :: "UnitStatus \<Rightarrow> UnitStatus \<Rightarrow> bool"
  semEqStrMap :: "string gomap \<Rightarrow> string gomap \<Rightarrow> bool"
  semEqMonitor :: "podMonitorSpec \<Rightarrow> podMonitorSpec \<Rightarrow> bool"
  ParseDuration :: "string \<Rightarrow> int"
  jsonUnmarshalMap :: "string \<Rightarrow> (string, string) fmap"
  jsonMarshalMap :: "(string, string) fmap \<Rightarrow> string"
  jsonMarshalStrs :: "string list \<Rightarrow> string"
  newControllerRef :: "meta \<Rightarrow> string \<Rightarrow> ownerRef"
  ContainsFinalizer :: "meta \<Rightarrow> string \<Rightarrow> bool"
  AddFinalizer :: "meta \<Rightarrow> string \<Rightarrow> meta"
  RemoveFinalizer :: "meta \<Rightarrow> string \<Rightarrow> meta"

text \<open>What the code relies on of these functions.\<close>

locale ext_laws =
  fixes X :: ext
  assumes qcmp_refl: "qcmp X q q = 0"
    and semEqTemplate_refl: "semEqTemplate X t t"
    and semEqResize_refl: "semEqResize X p p"
    and semEqStrMap_refl: "semEqStrMap X sm sm"
    and semEqUnitStatus_refl: "semEqUnitStatus X st st"
    and semEqMonitor_refl: "semEqMonitor X pm pm"
    and StorageQ: "mfind rl ''storage'' = Some q \<Longrightarrow> StorageQ X rl = q"
    and StorageQ_body: "mbody rl = mbody rl' \<Longrightarrow> StorageQ X rl = StorageQ X rl'"
    and ContainsFinalizer: "ContainsFinalizer X m f \<longleftrightarrow> f \<in> set (Finalizers m)"
    and AddFinalizer: "AddFinalizer X m f =
      (if f \<in> set (Finalizers m) then m else m\<lparr>Finalizers := Finalizers m @ [f]\<rparr>)"
    and RemoveFinalizer: "RemoveFinalizer X m f = m\<lparr>Finalizers := filter (\<lambda>g. g \<noteq> f) (Finalizers m)\<rparr>"
begin

lemma Finalizers_Remove [simp]: "set (Finalizers (RemoveFinalizer X m f)) = set (Finalizers m) - {f}"
  by (auto simp: RemoveFinalizer)

lemma Finalizers_Add [simp]: "set (Finalizers (AddFinalizer X m f)) = insert f (set (Finalizers m))"
  by (auto simp: AddFinalizer)

end

text \<open>The map read from the encoding of a map with plain (ASCII) keys and values is that map.\<close>

definition asciiMap :: "(string, string) fmap \<Rightarrow> bool" where
  "asciiMap m \<longleftrightarrow> fBall (fmdom m) (\<lambda>k. list_all (\<lambda>c. of_char c < (128 :: nat)) k) \<and>
     fBall (fmran m) (\<lambda>v. list_all (\<lambda>c. of_char c < (128 :: nat)) v)"

locale ext_json = ext_laws +
  assumes json_roundtrip: "asciiMap m \<Longrightarrow> jsonUnmarshalMap X (jsonMarshalMap X m) = m"

text \<open>
  An encoding for the instance: a string is its characters, each after a mark, and a full stop; a
  map is the list of its keys and values.
\<close>

fun markStr :: "string \<Rightarrow> string" where
  "markStr [] = ''.''"
| "markStr (c # cs) = CHR ''x'' # c # markStr cs"

fun unmarkStr :: "string \<Rightarrow> string \<times> string" where
  "unmarkStr (x # c # r) =
     (if x = CHR ''x'' then (case unmarkStr r of (s, r') \<Rightarrow> (c # s, r')) else ([], c # r))"
| "unmarkStr [_] = ([], [])"
| "unmarkStr [] = ([], [])"

lemma unmark_mark [simp]: "unmarkStr (markStr s @ r) = (s, r)"
  by (induction s) (simp, cases r, simp_all)

definition markPairs :: "(string \<times> string) list \<Rightarrow> string" where
  "markPairs ps = concat (map (\<lambda>(k, v). markStr k @ markStr v) ps)"

text \<open>Each pair takes at least two characters, so the length of the text bounds the number of pairs.\<close>

primrec unmarkPairs :: "nat \<Rightarrow> string \<Rightarrow> (string \<times> string) list" where
  "unmarkPairs 0 s = []"
| "unmarkPairs (Suc n) s =
     (if s = [] then []
      else case unmarkStr s of (k, r) \<Rightarrow> case unmarkStr r of (v, r') \<Rightarrow> (k, v) # unmarkPairs n r')"

lemma unmark_pairs: "length ps \<le> n \<Longrightarrow> unmarkPairs n (markPairs ps) = ps"
proof (induction ps arbitrary: n)
  case Nil
  then show ?case by (cases n) (simp_all add: markPairs_def)
next
  case (Cons p ps)
  then obtain m where "n = Suc m" and m: "length ps \<le> m" by (cases n) auto
  moreover obtain k v where "p = (k, v)" by fastforce
  moreover have "markStr k @ markStr v @ markPairs ps \<noteq> []" by (cases k) simp_all
  ultimately show ?case using Cons.IH [OF m] by (simp add: markPairs_def)
qed

lemma markPairs_length: "length ps \<le> length (markPairs ps)"
proof (induction ps)
  case (Cons p ps)
  have "Suc 0 \<le> length (markStr s)" for s by (cases s) simp_all
  from add_mono [OF this [of "fst p"] Cons.IH] show ?case by (auto simp: markPairs_def split: prod.splits)
qed (simp add: markPairs_def)

definition mapPairs :: "(string, string) fmap \<Rightarrow> (string \<times> string) list" where
  "mapPairs m = map (\<lambda>k. (k, the (fmlookup m k))) (sorted_list_of_fset (fmdom m))"

lemma map_of_mapPairs: "fmap_of_list (mapPairs m) = m"
  by (rule fmap_ext) (auto simp: mapPairs_def fmlookup_of_list map_of_map_restrict restrict_map_def fmlookup_dom_iff)

text \<open>
  An instance: quantities are decimal numbers without a unit, and encodings keep what the laws
  ask for.
\<close>

definition qnum :: "quantity \<Rightarrow> int" where
  "qnum q = (case q of Quantity s \<Rightarrow> (case Atoi s of None \<Rightarrow> 0 | Some n \<Rightarrow> n))"

definition qget :: "string \<Rightarrow> resourceList \<Rightarrow> quantity" where
  "qget k m = (case mfind m k of None \<Rightarrow> Quantity ''0'' | Some q \<Rightarrow> q)"

definition plainExt :: ext where
  "plainExt = \<lparr>
     MustParse = (\<lambda>s. case Atoi s of None \<Rightarrow> None | Some n \<Rightarrow> Some (Quantity (Itoa n))),
     qcmp = (\<lambda>a b. if qnum a < qnum b then - 1 else if qnum b < qnum a then 1 else 0),
     qMilliValue = (\<lambda>q. 1000 * qnum q), qValue = qnum,
     Cpu = qget ''cpu'', Memory = qget ''memory'', StorageQ = qget ''storage'',
     semEqTemplate = (=), semEqResize = (\<lambda>a b. elems a = elems b), semEqUnitStatus = (=),
     semEqStrMap = (\<lambda>a b. mbody a = mbody b), semEqMonitor = (=),
     ParseDuration = (\<lambda>s. case Atoi s of None \<Rightarrow> 0 | Some n \<Rightarrow> n),
     jsonUnmarshalMap = (\<lambda>s. fmap_of_list (unmarkPairs (length s) s)),
     jsonMarshalMap = (\<lambda>m. markPairs (mapPairs m)),
     jsonMarshalStrs = (\<lambda>xs. ''['' @ Join xs '','' @ '']''),
     newControllerRef = (\<lambda>m k. OwnerRef k (Name m) (UID m)),
     ContainsFinalizer = (\<lambda>m f. f \<in> set (Finalizers m)),
     AddFinalizer = (\<lambda>m f. if f \<in> set (Finalizers m) then m else m\<lparr>Finalizers := Finalizers m @ [f]\<rparr>),
     RemoveFinalizer = (\<lambda>m f. m\<lparr>Finalizers := filter (\<lambda>g. g \<noteq> f) (Finalizers m)\<rparr>)\<rparr>"

interpretation plain: ext_laws plainExt
  by unfold_locales (simp_all add: plainExt_def qget_def mfind_def)

interpretation plain: ext_json plainExt
  by unfold_locales (simp add: plainExt_def unmark_pairs markPairs_length map_of_mapPairs)

section \<open>Package variables (\<open>pkg/vars\<close>)\<close>

record vars =
  ManagerNamespace :: string
  UnitAgentName :: string
  UnitAgentHostType :: string
  InPlacePodVerticalScalingEnabled :: bool

definition sampleVars :: vars where
  "sampleVars = \<lparr>ManagerNamespace = ''upm-system'', UnitAgentName = ''unit-agent'', UnitAgentHostType = ''domain'',
     InPlacePodVerticalScalingEnabled = False\<rparr>"

end
