(* ===== verification/KubeClient.thy ===== *)
theory KubeClient
  imports ApiTypes "HOL-Library.AList"
begin

text \<open>
  The client of the Kubernetes API (\<open>sigs.k8s.io/controller-runtime/pkg/client\<close>) is not part
  of the repository: it is the parameter \<open>K\<close>, a record of operations on an abstract state of
  the world. What the controllers rely on is the locale \<open>kube_api\<close>: its laws describe the
  effect of each call on \<open>view s\<close>, the objects the API server holds. An error other than
  NotFound, AlreadyExists and Conflict says nothing about whether the write took place.
  The typed calls of the controllers (\<open>r.Get(ctx, key, &unit)\<close>) are defined on top of \<open>K\<close>,
  and \<open>memKube\<close> is an executable API server for which the laws are proved.
\<close>

declare split_paired_All [simp del] split_paired_Ex [simp del]

section \<open>Objects\<close>

text \<open>The objects around the units, which the controllers create, compare and read.\<close>

datatype aux =
    ASecret secret
  | AServiceAccount meta
  | ARole role
  | ARoleBinding roleBinding
  | AIssuer issuer
  | ACertificate certificate
  | APodMonitor podMonitor
  | ACrd meta
  | ANamespace meta
  | AProject Project
  | AGrpcCall GrpcCall

datatype obj =
    OUnit Unit
  | OUnitSet UnitSet
  | OPod pod
  | OPodTemplate podTemplate
  | OConfigMap configMap
  | OPVC pvc
  | OPV pv
  | ONode node
  | OService service
  | OAux aux

datatype kind = KUnit | KUnitSet | KPod | KPodTemplate | KConfigMap | KPVC | KPV | KNode | KService
  | KSecret | KServiceAccount | KRole | KRoleBinding | KIssuer | KCertificate | KPodMonitor | KCrd
  | KNamespace | KProject | KGrpcCall

type_synonym okey = "kind \<times> string \<times> string"

primrec auxKind :: "aux \<Rightarrow> kind" where
  "auxKind (ASecret _) = KSecret"
| "auxKind (AServiceAccount _) = KServiceAccount"
| "auxKind (ARole _) = KRole"
| "auxKind (ARoleBinding _) = KRoleBinding"
| "auxKind (AIssuer _) = KIssuer"
| "auxKind (ACertificate _) = KCertificate"
| "auxKind (APodMonitor _) = KPodMonitor"
| "auxKind (ACrd _) = KCrd"
| "auxKind (ANamespace _) = KNamespace"
| "auxKind (AProject _) = KProject"
| "auxKind (AGrpcCall _) = KGrpcCall"

primrec auxMeta :: "aux \<Rightarrow> meta" where
  "auxMeta (ASecret x) = sec_meta x"
| "auxMeta (AServiceAccount x) = x"
| "auxMeta (ARole x) = role_meta x"
| "auxMeta (ARoleBinding x) = rb_meta x"
| "auxMeta (AIssuer x) = iss_meta x"
| "auxMeta (ACertificate x) = cert_meta x"
| "auxMeta (APodMonitor x) = pm_meta x"
| "auxMeta (ACrd x) = x"
| "auxMeta (ANamespace x) = x"
| "auxMeta (AProject x) = proj_meta x"
| "auxMeta (AGrpcCall x) = gc_meta x"

primrec withAuxMeta :: "(meta \<Rightarrow> meta) \<Rightarrow> aux \<Rightarrow> aux" where
  "withAuxMeta f (ASecret x) = ASecret (sec_meta_update f x)"
| "withAuxMeta f (AServiceAccount x) = AServiceAccount (f x)"
| "withAuxMeta f (ARole x) = ARole (role_meta_update f x)"
| "withAuxMeta f (ARoleBinding x) = ARoleBinding (rb_meta_update f x)"
| "withAuxMeta f (AIssuer x) = AIssuer (iss_meta_update f x)"
| "withAuxMeta f (ACertificate x) = ACertificate (cert_meta_update f x)"
| "withAuxMeta f (APodMonitor x) = APodMonitor (pm_meta_update f x)"
| "withAuxMeta f (ACrd x) = ACrd (f x)"
| "withAuxMeta f (ANamespace x) = ANamespace (f x)"
| "withAuxMeta f (AProject x) = AProject (proj_meta_update f x)"
| "withAuxMeta f (AGrpcCall x) = AGrpcCall (gc_meta_update f x)"

lemma auxMeta_with [simp]: "auxMeta (withAuxMeta f a) = f (auxMeta a)"
  by (cases a) simp_all

lemma auxKind_with [simp]: "auxKind (withAuxMeta f a) = auxKind a"
  by (cases a) simp_all

lemma withAuxMeta_cong: "f (auxMeta a) = g (auxMeta a) \<Longrightarrow> withAuxMeta f a = withAuxMeta g a"
  by (cases a) simp_all

lemma auxKind_other [simp]:
  "auxKind a \<noteq> KUnit" "auxKind a \<noteq> KUnitSet" "auxKind a \<noteq> KPod" "auxKind a \<noteq> KPodTemplate"
  "auxKind a \<noteq> KConfigMap" "auxKind a \<noteq> KPVC" "auxKind a \<noteq> KPV" "auxKind a \<noteq> KNode" "auxKind a \<noteq> KService"
  by (cases a; simp)+

primrec kindOf :: "obj \<Rightarrow> kind" where
  "kindOf (OUnit _) = KUnit"
| "kindOf (OUnitSet _) = KUnitSet"
| "kindOf (OPod _) = KPod"
| "kindOf (OPodTemplate _) = KPodTemplate"
| "kindOf (OConfigMap _) = KConfigMap"
| "kindOf (OPVC _) = KPVC"
| "kindOf (OPV _) = KPV"
| "kindOf (ONode _) = KNode"
| "kindOf (OService _) = KService"
| "kindOf (OAux a) = auxKind a"

primrec objMeta :: "obj \<Rightarrow> meta" where
  "objMeta (OUnit u) = u_meta u"
| "objMeta (OUnitSet u) = us_meta u"
| "objMeta (OPod p) = p_meta p"
| "objMeta (OPodTemplate p) = pt_meta p"
| "objMeta (OConfigMap c) = cm_meta c"
| "objMeta (OPVC c) = pvc_meta c"
| "objMeta (OPV v) = pv_meta v"
| "objMeta (ONode n) = n_meta n"
| "objMeta (OService v) = svc_meta v"
| "objMeta (OAux a) = auxMeta a"

primrec withMeta :: "(meta \<Rightarrow> meta) \<Rightarrow> obj \<Rightarrow> obj" where
  "withMeta f (OUnit u) = OUnit (u_meta_update f u)"
| "withMeta f (OUnitSet u) = OUnitSet (us_meta_update f u)"
| "withMeta f (OPod p) = OPod (p_meta_update f p)"
| "withMeta f (OPodTemplate p) = OPodTemplate (pt_meta_update f p)"
| "withMeta f (OConfigMap c) = OConfigMap (cm_meta_update f c)"
| "withMeta f (OPVC c) = OPVC (pvc_meta_update f c)"
| "withMeta f (OPV v) = OPV (pv_meta_update f v)"
| "withMeta f (ONode n) = ONode (n_meta_update f n)"
| "withMeta f (OService v) = OService (svc_meta_update f v)"
| "withMeta f (OAux a) = OAux (withAuxMeta f a)"

definition keyOf :: "obj \<Rightarrow> okey" where
  "keyOf obj = (kindOf obj, Namespace (objMeta obj), Name (objMeta obj))"

abbreviation unitKey :: "string \<Rightarrow> string \<Rightarrow> okey" where "unitKey ns n \<equiv> (KUnit, ns, n)"
abbreviation unitSetKey :: "string \<Rightarrow> string \<Rightarrow> okey" where "unitSetKey ns n \<equiv> (KUnitSet, ns, n)"
abbreviation podKey :: "string \<Rightarrow> string \<Rightarrow> okey" where "podKey ns n \<equiv> (KPod, ns, n)"

lemma objMeta_withMeta [simp]: "objMeta (withMeta f ob) = f (objMeta ob)"
  by (cases ob) simp_all

lemma withMeta_cong: "f (objMeta ob) = g (objMeta ob) \<Longrightarrow> withMeta f ob = withMeta g ob"
proof (cases ob)
  case (OAux a)
  then show "f (objMeta ob) = g (objMeta ob) \<Longrightarrow> ?thesis" using withAuxMeta_cong [of f a g] by simp
qed simp_all

lemma kindOf_withMeta [simp]: "kindOf (withMeta f ob) = kindOf ob"
  by (cases ob) simp_all

lemma keyOf_simps [simp]:
  "keyOf (OUnit u) = unitKey (Namespace (u_meta u)) (Name (u_meta u))"
  "keyOf (OUnitSet us) = unitSetKey (Namespace (us_meta us)) (Name (us_meta us))"
  "keyOf (OPod p) = podKey (Namespace (p_meta p)) (Name (p_meta p))"
  by (simp_all add: keyOf_def)

text \<open>The selector of \<open>client.MatchingLabels\<close>.\<close>

definition matchLabels :: "(string \<times> string) list \<Rightarrow> obj \<Rightarrow> bool" where
  "matchLabels sel obj = list_all (\<lambda>(k, v). mfind (Labels (objMeta obj)) k = Some v) sel"

section \<open>The client\<close>

text \<open>
  \<open>kDelete\<close> takes whether the grace period is set to zero. \<open>kPatch old new\<close> sends the
  merge patch that leads from the first object to the second, and \<open>kPatchData old new\<close> says whether
  that patch is non-empty (or cannot be computed). \<open>kResize k i r\<close> is the JSON patch of the pod's
  resize subresource that replaces the resources of the container with index \<open>i\<close>. \<open>kOrder n\<close> is the order in which
  \<open>n\<close> goroutines run, or a map of \<open>n\<close> entries is iterated. \<open>kPolls i t\<close> is how often a
  poll with interval \<open>i\<close> and timeout \<open>t\<close> (milliseconds) evaluates its condition, and
  \<open>kPollsLater\<close> the same for a poll that waits for an interval first.
\<close>

record 's kube =
  kGet :: "okey \<Rightarrow> 's \<Rightarrow> (api_error + obj) \<times> 's"
  kList :: "kind \<Rightarrow> string \<Rightarrow> (string \<times> string) list \<Rightarrow> 's \<Rightarrow> (api_error + obj list) \<times> 's"
  kCreate :: "obj \<Rightarrow> 's \<Rightarrow> (api_error + obj) \<times> 's"
  kUpdate :: "obj \<Rightarrow> 's \<Rightarrow> (api_error + obj) \<times> 's"
  kStatusUpdate :: "obj \<Rightarrow> 's \<Rightarrow> (api_error + obj) \<times> 's"
  kDelete :: "bool \<Rightarrow> okey \<Rightarrow> 's \<Rightarrow> (api_error + unit) \<times> 's"
  kPatch :: "obj \<Rightarrow> obj \<Rightarrow> 's \<Rightarrow> (api_error + obj) \<times> 's"
  kPatchData :: "obj \<Rightarrow> obj \<Rightarrow> error + bool"
  kResize :: "okey \<Rightarrow> nat \<Rightarrow> resourceRequirements \<Rightarrow> 's \<Rightarrow> (api_error + unit) \<times> 's"
  kOrder :: "nat \<Rightarrow> 's \<Rightarrow> nat list \<times> 's"
  kCtxDone :: "'s \<Rightarrow> bool"
  kNow :: "'s \<Rightarrow> nat"
  kPolls :: "nat \<Rightarrow> nat \<Rightarrow> nat"
  kPollsLater :: "nat \<Rightarrow> nat \<Rightarrow> nat"

definition liftApi :: "('s \<Rightarrow> (api_error + 'a) \<times> 's) \<Rightarrow> ('s, 'a) act" where
  "liftApi m s = (case m s of (Inl e, s') \<Rightarrow> (Inl (Api e), s') | (Inr x, s') \<Rightarrow> (Inr x, s'))"

text \<open>
  The typed calls. An answer of another kind than the one asked for is the client's decoding
  error.
\<close>

definition asUnit :: "obj \<Rightarrow> Unit option" where
  "asUnit ob = (case ob of OUnit x \<Rightarrow> Some x | _ \<Rightarrow> None)"

definition asUnitSet :: "obj \<Rightarrow> UnitSet option" where
  "asUnitSet ob = (case ob of OUnitSet x \<Rightarrow> Some x | _ \<Rightarrow> None)"

definition asPod :: "obj \<Rightarrow> pod option" where
  "asPod ob = (case ob of OPod x \<Rightarrow> Some x | _ \<Rightarrow> None)"

definition asPodTemplate :: "obj \<Rightarrow> podTemplate option" where
  "asPodTemplate ob = (case ob of OPodTemplate x \<Rightarrow> Some x | _ \<Rightarrow> None)"

definition asConfigMap :: "obj \<Rightarrow> configMap option" where
  "asConfigMap ob = (case ob of OConfigMap x \<Rightarrow> Some x | _ \<Rightarrow> None)"

definition asPVC :: "obj \<Rightarrow> pvc option" where
  "asPVC ob = (case ob of OPVC x \<Rightarrow> Some x | _ \<Rightarrow> None)"

definition asPV :: "obj \<Rightarrow> pv option" where
  "asPV ob = (case ob of OPV x \<Rightarrow> Some x | _ \<Rightarrow> None)"

definition asNode :: "obj \<Rightarrow> node option" where
  "asNode ob = (case ob of ONode x \<Rightarrow> Some x | _ \<Rightarrow> None)"

definition asService :: "obj \<Rightarrow> service option" where
  "asService ob = (case ob of OService x \<Rightarrow> Some x | _ \<Rightarrow> None)"

lemma as_iffs [simp]:
  "asUnit obUnit = Some xUnit \<longleftrightarrow> obUnit = OUnit xUnit"
  "asUnitSet obUnitSet = Some xUnitSet \<longleftrightarrow> obUnitSet = OUnitSet xUnitSet"
  "asPod obPod = Some xPod \<longleftrightarrow> obPod = OPod xPod"
  "asPodTemplate obPodTemplateObj = Some xPodTemplateObj \<longleftrightarrow> obPodTemplateObj = OPodTemplate xPodTemplateObj"
  "asConfigMap obConfigMap = Some xConfigMap \<longleftrightarrow> obConfigMap = OConfigMap xConfigMap"
  "asPVC obPVC = Some xPVC \<longleftrightarrow> obPVC = OPVC xPVC"
  "asPV obPV = Some xPV \<longleftrightarrow> obPV = OPV xPV"
  "asNode obNode = Some xNode \<longleftrightarrow> obNode = ONode xNode"
  "asService obService = Some xService \<longleftrightarrow> obService = OService xService"
  by (auto simp: asUnit_def asUnitSet_def asPod_def asPodTemplate_def asConfigMap_def asPVC_def asPV_def asNode_def asService_def split: obj.splits)

definition getAs :: "(obj \<Rightarrow> 'a option) \<Rightarrow> 's kube \<Rightarrow> okey \<Rightarrow> ('s, 'a) act" where
  "getAs dec K k = bindA (liftApi (kGet K k))
     (\<lambda>ob. case dec ob of Some x \<Rightarrow> ret x | None \<Rightarrow> fail (Msg ''unexpected kind''))"

definition getUnit :: "'s kube \<Rightarrow> string \<Rightarrow> string \<Rightarrow> ('s, Unit) act" where
  "getUnit K ns n = getAs asUnit K (KUnit, ns, n)"

definition getUnitSet :: "'s kube \<Rightarrow> string \<Rightarrow> string \<Rightarrow> ('s, UnitSet) act" where
  "getUnitSet K ns n = getAs asUnitSet K (KUnitSet, ns, n)"

definition getPod :: "'s kube \<Rightarrow> string \<Rightarrow> string \<Rightarrow> ('s, pod) act" where
  "getPod K ns n = getAs asPod K (KPod, ns, n)"

definition getPodTemplateObj :: "'s kube \<Rightarrow> string \<Rightarrow> string \<Rightarrow> ('s, podTemplate) act" where
  "getPodTemplateObj K ns n = getAs asPodTemplate K (KPodTemplate, ns, n)"

definition getConfigMap :: "'s kube \<Rightarrow> string \<Rightarrow> string \<Rightarrow> ('s, configMap) act" where
  "getConfigMap K ns n = getAs asConfigMap K (KConfigMap, ns, n)"

definition getPVC :: "'s kube \<Rightarrow> string \<Rightarrow> string \<Rightarrow> ('s, pvc) act" where
  "getPVC K ns n = getAs asPVC K (KPVC, ns, n)"

definition getPV :: "'s kube \<Rightarrow> string \<Rightarrow> ('s, pv) act" where
  "getPV K n = getAs asPV K (KPV, [], n)"

definition getNode :: "'s kube \<Rightarrow> string \<Rightarrow> ('s, node) act" where
  "getNode K n = getAs asNode K (KNode, [], n)"

definition getService :: "'s kube \<Rightarrow> string \<Rightarrow> string \<Rightarrow> ('s, service) act" where
  "getService K ns n = getAs asService K (KService, ns, n)"

definition createObj :: "'s kube \<Rightarrow> obj \<Rightarrow> ('s, obj) act" where
  "createObj K ob = liftApi (kCreate K ob)"

definition updateObj :: "'s kube \<Rightarrow> obj \<Rightarrow> ('s, obj) act" where
  "updateObj K ob = liftApi (kUpdate K ob)"

definition statusUpdate :: "'s kube \<Rightarrow> obj \<Rightarrow> ('s, obj) act" where
  "statusUpdate K ob = liftApi (kStatusUpdate K ob)"

definition deleteObj :: "'s kube \<Rightarrow> okey \<Rightarrow> ('s, unit) act" where
  "deleteObj K k = liftApi (kDelete K False k)"

definition forceDeleteObj :: "'s kube \<Rightarrow> okey \<Rightarrow> ('s, unit) act" where
  "forceDeleteObj K k = liftApi (kDelete K True k)"

definition patchObj :: "'s kube \<Rightarrow> obj \<Rightarrow> obj \<Rightarrow> ('s, obj) act" where
  "patchObj K old new = liftApi (kPatch K old new)"

definition resizeObj :: "'s kube \<Rightarrow> okey \<Rightarrow> nat \<Rightarrow> resourceRequirements \<Rightarrow> ('s, unit) act" where
  "resizeObj K k i r = liftApi (kResize K k i r)"

definition unitsOf :: "obj list \<Rightarrow> Unit list" where
  "unitsOf os = List.map_filter asUnit os"

definition listUnits :: "'s kube \<Rightarrow> string \<Rightarrow> (string \<times> string) list \<Rightarrow> ('s, Unit list) act" where
  "listUnits K ns sel = bindA (liftApi (kList K KUnit ns sel)) (\<lambda>os. ret (unitsOf os))"

definition servicesOf :: "obj list \<Rightarrow> service list" where
  "servicesOf os = List.map_filter asService os"

definition listServices :: "'s kube \<Rightarrow> string \<Rightarrow> (string \<times> string) list \<Rightarrow> ('s, service list) act" where
  "listServices K ns sel = bindA (liftApi (kList K KService ns sel)) (\<lambda>os. ret (servicesOf os))"

definition pvsOf :: "obj list \<Rightarrow> pv list" where
  "pvsOf os = List.map_filter asPV os"

definition listPVs :: "'s kube \<Rightarrow> ('s, pv list) act" where
  "listPVs K = bindA (liftApi (kList K KPV [] [])) (\<lambda>os. ret (pvsOf os))"

text \<open>The elements in the order of the schedule.\<close>

definition shuffled :: "'s kube \<Rightarrow> 'x list \<Rightarrow> ('s, 'x list) act" where
  "shuffled K xs s = (case kOrder K (length xs) s of (is, s') \<Rightarrow> (Inr (map ((!) xs) is), s'))"

text \<open>\<open>go\<close> statements joined by a wait group, their errors aggregated.\<close>

definition goAll :: "'s kube \<Rightarrow> 'x list \<Rightarrow> ('x \<Rightarrow> ('s, unit) act) \<Rightarrow> ('s, unit) act" where
  "goAll K xs f = bindA (shuffled K xs) (\<lambda>ys. forkJoin ys f)"

text \<open>
  An \<open>errgroup\<close>: every body runs, the first error is the result. The bodies after the first
  error run with a cancelled context, so their calls may fail, which \<open>K\<close> is free to do.
\<close>

definition goGroup :: "'s kube \<Rightarrow> 'x list \<Rightarrow> ('x \<Rightarrow> ('s, unit) act) \<Rightarrow> ('s, unit) act" where
  "goGroup K xs f = bindA (shuffled K xs) (\<lambda>ys. forkFirst ys f)"

text \<open>The same with variables shared by the goroutines.\<close>

definition goAllL :: "'s kube \<Rightarrow> 'x list \<Rightarrow> ('x \<Rightarrow> ('l \<times> 's, unit) act) \<Rightarrow> ('l \<times> 's, unit) act" where
  "goAllL K xs f = bindA (liftW (shuffled K xs)) (\<lambda>ys. forkJoin ys f)"

definition goGroupL :: "'s kube \<Rightarrow> 'x list \<Rightarrow> ('x \<Rightarrow> ('l \<times> 's, unit) act) \<Rightarrow> ('l \<times> 's, unit) act" where
  "goGroupL K xs f = bindA (liftW (shuffled K xs)) (\<lambda>ys. forkFirst ys f)"

definition now :: "'s kube \<Rightarrow> ('s, nat) act" where
  "now K = asks (kNow K)"

lemmas client_defs =
  getUnit_def getUnitSet_def getPod_def getPodTemplateObj_def getConfigMap_def getPVC_def getPV_def
  getNode_def getService_def createObj_def updateObj_def statusUpdate_def deleteObj_def
  forceDeleteObj_def patchObj_def listUnits_def listServices_def listPVs_def

lemma asUnit_OUnit [simp]: "asUnit (OUnit u) = Some u"
  by (simp add: asUnit_def)

lemma set_unitsOf: "u \<in> set (unitsOf os) \<longleftrightarrow> OUnit u \<in> set os"
  by (induction os) (auto simp: unitsOf_def List.map_filter_simps split: option.split)

lemma set_pvsOf: "x \<in> set (pvsOf os) \<longleftrightarrow> OPV x \<in> set os"
  by (induction os) (auto simp: pvsOf_def List.map_filter_simps asPV_def split: option.split obj.split)

section \<open>The contract of the API server\<close>

text \<open>
  What the server keeps of the metadata a client sends: nil and empty maps are the same on the
  wire, and \<open>resourceVersion\<close>, \<open>generation\<close>, \<open>uid\<close> and \<open>deletionTimestamp\<close> are
  the server's own.
\<close>

definition metaEq :: "meta \<Rightarrow> meta \<Rightarrow> bool" where
  "metaEq m m' \<longleftrightarrow>
     Name m' = Name m \<and> Namespace m' = Namespace m \<and> mbody (Labels m') = mbody (Labels m) \<and>
     mbody (Annotations m') = mbody (Annotations m) \<and> Finalizers m' = Finalizers m"

definition unitStatusEq :: "UnitStatus \<Rightarrow> UnitStatus \<Rightarrow> bool" where
  "unitStatusEq a b \<longleftrightarrow>
     u_ObservedGeneration b = u_ObservedGeneration a \<and> Phase b = Phase a \<and> NodeReady b = NodeReady a \<and>
     u_NodeName b = u_NodeName a \<and> Task b = Task a \<and> ProcessState b = ProcessState a \<and>
     HostIP b = HostIP a \<and> PodIPs b = PodIPs a \<and>
     ss_Status (ConfigSyncStatus b) = ss_Status (ConfigSyncStatus a)"

definition unitSetStatusEq :: "UnitSetStatus \<Rightarrow> UnitSetStatus \<Rightarrow> bool" where
  "unitSetStatusEq a b \<longleftrightarrow>
     ObservedGeneration b = ObservedGeneration a \<and> s_Units b = s_Units a \<and> ReadyUnits b = ReadyUnits a \<and>
     ss_Status (PvcSyncStatus b) = ss_Status (PvcSyncStatus a) \<and>
     ss_Status (ImageSyncStatus b) = ss_Status (ImageSyncStatus a) \<and>
     ss_Status (ResourceSyncStatus b) = ss_Status (ResourceSyncStatus a) \<and>
     InUpdate b = InUpdate a \<and> s_ExternalService b = s_ExternalService a \<and>
     mbody (s_UnitService b) = mbody (s_UnitService a)"

text \<open>Points in time are truncated on the wire.\<close>

definition grpcStatusEq :: "GrpcCallStatus \<Rightarrow> GrpcCallStatus \<Rightarrow> bool" where
  "grpcStatusEq a b \<longleftrightarrow> Result b = Result a \<and> Message b = Message a \<and>
     (StartTime b = None) = (StartTime a = None) \<and> (CompletionTime b = None) = (CompletionTime a = None)"

definition sameButVersion :: "meta \<Rightarrow> meta \<Rightarrow> bool" where
  "sameButVersion m m' \<longleftrightarrow> m'\<lparr>ResourceVersion := []\<rparr> = m\<lparr>ResourceVersion := []\<rparr>"

text \<open>
  A created service has the ports that were sent, in their order; a node port that was asked for is
  the one assigned.
\<close>

definition portStored :: "servicePort \<Rightarrow> servicePort \<Rightarrow> bool" where
  "portStored p p' \<longleftrightarrow> sp_Name p' = sp_Name p \<and> sp_Port p' = sp_Port p \<and>
     (sp_NodePort p \<noteq> 0 \<longrightarrow> sp_NodePort p' = sp_NodePort p)"

definition serviceStored :: "service \<Rightarrow> service \<Rightarrow> bool" where
  "serviceStored c c' \<longleftrightarrow> metaEq (svc_meta c) (svc_meta c') \<and> svc_Type c' = svc_Type c \<and>
     mbody (svc_Selector c') = mbody (svc_Selector c) \<and> list_all2 portStored (svc_Ports c) (svc_Ports c')"

definition auxStored :: "aux \<Rightarrow> aux \<Rightarrow> bool" where
  "auxStored c c' \<longleftrightarrow> auxKind c' = auxKind c \<and> metaEq (auxMeta c) (auxMeta c') \<and>
     (\<forall>x x'. c = ASecret x \<and> c' = ASecret x' \<longrightarrow> mbody (sec_Data x') = mbody (sec_Data x)) \<and>
     (\<forall>x x'. c = APodMonitor x \<and> c' = APodMonitor x' \<longrightarrow> pm_Spec x' = pm_Spec x) \<and>
     (\<forall>x x'. c = AProject x \<and> c' = AProject x' \<longrightarrow> proj_CA x' = proj_CA x)"

text \<open>
  The object stored by an update, from the old object and the one sent. \<open>wire\<close> is the
  encoding and decoding of a unit's spec. The webhook of the UnitSet leaves objects in deletion
  alone and may add finalizers otherwise.
\<close>

definition updStored :: "(UnitSpec \<Rightarrow> UnitSpec) \<Rightarrow> obj \<Rightarrow> obj \<Rightarrow> obj \<Rightarrow> bool" where
  "updStored wire old ob ob' \<longleftrightarrow>
     (\<forall>a u u'. old = OUnit a \<and> ob = OUnit u \<and> ob' = OUnit u' \<longrightarrow>
        metaEq (u_meta u) (u_meta u') \<and> u_Status u' = u_Status a \<and> u_Spec u' = wire (u_Spec u)) \<and>
     (\<forall>a u u'. old = OUnitSet a \<and> ob = OUnitSet u \<and> ob' = OUnitSet u' \<longrightarrow>
        us_Status u' = us_Status a \<and>
        (DeletionTimestamp (us_meta a) \<noteq> None \<longrightarrow>
           metaEq (us_meta u) (us_meta u') \<and> Units (us_Spec u') = Units (us_Spec u))) \<and>
     (\<forall>a c c'. old = OPVC a \<and> ob = OPVC c \<and> ob' = OPVC c' \<longrightarrow>
        mbody (pvc_Requests (pvc_Spec c')) = mbody (pvc_Requests (pvc_Spec c))) \<and>
     (\<forall>a c c'. old = OConfigMap a \<and> ob = OConfigMap c \<and> ob' = OConfigMap c' \<longrightarrow>
        metaEq (cm_meta c) (cm_meta c') \<and> mbody (cm_Data c') = mbody (cm_Data c)) \<and>
     (\<forall>a c c'. old = OAux a \<and> ob = OAux c \<and> ob' = OAux c' \<longrightarrow> auxStored c c')"

definition statusStored :: "obj \<Rightarrow> obj \<Rightarrow> obj \<Rightarrow> bool" where
  "statusStored old ob ob' \<longleftrightarrow>
     (\<forall>a u u'. old = OUnit a \<and> ob = OUnit u \<and> ob' = OUnit u' \<longrightarrow>
        u_Spec u' = u_Spec a \<and> sameButVersion (u_meta a) (u_meta u') \<and>
        unitStatusEq (u_Status u) (u_Status u')) \<and>
     (\<forall>a u u'. old = OUnitSet a \<and> ob = OUnitSet u \<and> ob' = OUnitSet u' \<longrightarrow>
        us_Spec u' = us_Spec a \<and> sameButVersion (us_meta a) (us_meta u') \<and>
        unitSetStatusEq (us_Status u) (us_Status u')) \<and>
     (\<forall>a g g'. old = OAux (AGrpcCall a) \<and> ob = OAux (AGrpcCall g) \<and> ob' = OAux (AGrpcCall g') \<longrightarrow>
        gc_Spec g' = gc_Spec a \<and> sameButVersion (gc_meta a) (gc_meta g') \<and> grpcStatusEq (gc_Status g) (gc_Status g'))"

definition createStored :: "(UnitSpec \<Rightarrow> UnitSpec) \<Rightarrow> obj \<Rightarrow> obj \<Rightarrow> bool" where
  "createStored wire ob ob' \<longleftrightarrow>
     (\<forall>u u'. ob = OUnit u \<and> ob' = OUnit u' \<longrightarrow>
        metaEq (u_meta u) (u_meta u') \<and> u_Spec u' = wire (u_Spec u)) \<and>
     (\<forall>c c'. ob = OConfigMap c \<and> ob' = OConfigMap c' \<longrightarrow>
        metaEq (cm_meta c) (cm_meta c') \<and> mbody (cm_Data c') = mbody (cm_Data c)) \<and>
     (\<forall>c c'. ob = OService c \<and> ob' = OService c' \<longrightarrow> serviceStored c c') \<and>
     (\<forall>c c'. ob = OAux c \<and> ob' = OAux c' \<longrightarrow> auxStored c c')"

text \<open>
  A merge patch from \<open>old\<close> to \<open>new\<close> changes the entries in which the two differ and leaves the
  others of the stored object alone; the status is a subresource and is not patched.
\<close>

definition entriesPatched :: "string gomap \<Rightarrow> string gomap \<Rightarrow> string gomap \<Rightarrow> string gomap \<Rightarrow> bool" where
  "entriesPatched old new cur m \<longleftrightarrow>
     (\<forall>k. mfind m k = (if mfind old k = mfind new k then mfind cur k else mfind new k))"

definition patchStored :: "obj \<Rightarrow> obj \<Rightarrow> obj \<Rightarrow> obj \<Rightarrow> bool" where
  "patchStored old new cur ob' \<longleftrightarrow>
     (\<forall>a b c d. old = OUnitSet a \<and> new = OUnitSet b \<and> cur = OUnitSet c \<and> ob' = OUnitSet d \<longrightarrow>
        entriesPatched (Annotations (us_meta a)) (Annotations (us_meta b)) (Annotations (us_meta c)) (Annotations (us_meta d)) \<and>
        us_Status d = us_Status c \<and> (us_Spec a = us_Spec b \<longrightarrow> us_Spec d = us_Spec c))"

lemmas stored_defs = updStored_def statusStored_def createStored_def patchStored_def

lemma updStored_simps [simp]:
  "updStored wire (OUnit a) (OUnit u) (OUnit u') \<longleftrightarrow>
     metaEq (u_meta u) (u_meta u') \<and> u_Status u' = u_Status a \<and> u_Spec u' = wire (u_Spec u)"
  "updStored wire (OUnitSet b) (OUnitSet v) (OUnitSet v') \<longleftrightarrow>
     us_Status v' = us_Status b \<and>
     (DeletionTimestamp (us_meta b) \<noteq> None \<longrightarrow>
        metaEq (us_meta v) (us_meta v') \<and> Units (us_Spec v') = Units (us_Spec v))"
  "updStored wire (OPVC d) (OPVC c) (OPVC c') \<longleftrightarrow>
     mbody (pvc_Requests (pvc_Spec c')) = mbody (pvc_Requests (pvc_Spec c))"
  "updStored wire (OConfigMap e) (OConfigMap m) (OConfigMap m') \<longleftrightarrow>
     metaEq (cm_meta m) (cm_meta m') \<and> mbody (cm_Data m') = mbody (cm_Data m)"
  "updStored wire (OAux x) (OAux y) (OAux z) \<longleftrightarrow> auxStored y z"
  by (simp_all add: updStored_def)

lemma statusStored_simps [simp]:
  "statusStored (OUnit a) (OUnit u) (OUnit u') \<longleftrightarrow>
     u_Spec u' = u_Spec a \<and> sameButVersion (u_meta a) (u_meta u') \<and> unitStatusEq (u_Status u) (u_Status u')"
  "statusStored (OUnitSet b) (OUnitSet v) (OUnitSet v') \<longleftrightarrow>
     us_Spec v' = us_Spec b \<and> sameButVersion (us_meta b) (us_meta v') \<and>
     unitSetStatusEq (us_Status v) (us_Status v')"
  "statusStored (OAux (AGrpcCall c)) (OAux (AGrpcCall g)) (OAux (AGrpcCall g')) \<longleftrightarrow>
     gc_Spec g' = gc_Spec c \<and> sameButVersion (gc_meta c) (gc_meta g') \<and> grpcStatusEq (gc_Status g) (gc_Status g')"
  by (simp_all add: statusStored_def)

lemma createStored_simps [simp]:
  "createStored wire (OUnit u) (OUnit u') \<longleftrightarrow> metaEq (u_meta u) (u_meta u') \<and> u_Spec u' = wire (u_Spec u)"
  "createStored wire (OConfigMap c) (OConfigMap c') \<longleftrightarrow>
     metaEq (cm_meta c) (cm_meta c') \<and> mbody (cm_Data c') = mbody (cm_Data c)"
  "createStored wire (OService v) (OService v') \<longleftrightarrow> serviceStored v v'"
  "createStored wire (OAux y) (OAux z) \<longleftrightarrow> auxStored y z"
  by (simp_all add: createStored_def)

type_synonym objview = "okey \<Rightarrow> obj option"

definition versionOk :: "meta \<Rightarrow> meta \<Rightarrow> bool" where
  "versionOk sent old \<longleftrightarrow> ResourceVersion sent = [] \<or> ResourceVersion sent = ResourceVersion old"

definition createEff :: "(UnitSpec \<Rightarrow> UnitSpec) \<Rightarrow> obj \<Rightarrow> obj \<Rightarrow> objview \<Rightarrow> objview \<Rightarrow> bool" where
  "createEff wire ob ob' v v' \<longleftrightarrow>
     v (keyOf ob) = None \<and> keyOf ob' = keyOf ob \<and> createStored wire ob ob' \<and>
     DeletionTimestamp (objMeta ob') = None \<and> v' = v(keyOf ob \<mapsto> ob')"

definition updateEff :: "(UnitSpec \<Rightarrow> UnitSpec) \<Rightarrow> obj \<Rightarrow> obj \<Rightarrow> objview \<Rightarrow> objview \<Rightarrow> bool" where
  "updateEff wire ob ob' v v' \<longleftrightarrow>
     (\<exists>old. v (keyOf ob) = Some old \<and> versionOk (objMeta ob) (objMeta old) \<and>
        keyOf ob' = keyOf ob \<and> updStored wire old ob ob' \<and>
        DeletionTimestamp (objMeta ob') = DeletionTimestamp (objMeta old) \<and>
        v' = (if DeletionTimestamp (objMeta old) \<noteq> None \<and> Finalizers (objMeta ob') = []
              then v(keyOf ob := None) else v(keyOf ob \<mapsto> ob')))"

definition statusEff :: "obj \<Rightarrow> obj \<Rightarrow> objview \<Rightarrow> objview \<Rightarrow> bool" where
  "statusEff ob ob' v v' \<longleftrightarrow>
     (\<exists>old. v (keyOf ob) = Some old \<and> versionOk (objMeta ob) (objMeta old) \<and>
        keyOf ob' = keyOf ob \<and> statusStored old ob ob' \<and> v' = v(keyOf ob \<mapsto> ob'))"

definition deleteEff :: "okey \<Rightarrow> objview \<Rightarrow> objview \<Rightarrow> bool" where
  "deleteEff k v v' \<longleftrightarrow>
     (\<exists>old. v k = Some old \<and>
        (Finalizers (objMeta old) = [] \<and> v' = v(k := None) \<or>
         (\<exists>t r g. v' = v(k \<mapsto> withMeta (\<lambda>m. m\<lparr>DeletionTimestamp := Some t, ResourceVersion := r,
                                             Generation := g\<rparr>) old))))"

definition patchEff :: "obj \<Rightarrow> obj \<Rightarrow> obj \<Rightarrow> objview \<Rightarrow> objview \<Rightarrow> bool" where
  "patchEff ob new ob' v v' \<longleftrightarrow>
     (\<exists>cur. v (keyOf ob) = Some cur \<and> keyOf ob' = keyOf ob \<and> patchStored ob new cur ob' \<and>
        DeletionTimestamp (objMeta ob') = DeletionTimestamp (objMeta cur) \<and> v' = v(keyOf ob \<mapsto> ob'))"

definition withResources :: "nat \<Rightarrow> resourceRequirements \<Rightarrow> pod \<Rightarrow> pod" where
  "withResources i r p = p\<lparr>p_Spec := (p_Spec p)\<lparr>Containers := (Containers (p_Spec p))[i :=
     (Containers (p_Spec p) ! i)\<lparr>c_Resources := (c_Resources (Containers (p_Spec p) ! i))\<lparr>
       Requests := Requests r, Limits := Limits r\<rparr>\<rparr>]\<rparr>\<rparr>"

definition resizeEff :: "okey \<Rightarrow> nat \<Rightarrow> resourceRequirements \<Rightarrow> objview \<Rightarrow> objview \<Rightarrow> bool" where
  "resizeEff k i r v v' \<longleftrightarrow>
     (\<exists>p w. v k = Some (OPod p) \<and> i < length (Containers (p_Spec p)) \<and>
        v' = v(k \<mapsto> OPod ((withResources i r p)\<lparr>p_meta := (p_meta p)\<lparr>ResourceVersion := w\<rparr>\<rparr>)))"

text \<open>A write with an effect: none on a definite error, possibly one on an indefinite error.\<close>

definition writeLaw ::
  "('s \<Rightarrow> objview) \<Rightarrow> ('s \<Rightarrow> (api_error + 'a) \<times> 's) \<Rightarrow> ('a \<Rightarrow> objview \<Rightarrow> objview \<Rightarrow> bool) \<Rightarrow> bool" where
  "writeLaw view m eff \<longleftrightarrow>
     (\<forall>s x s'. m s = (Inr x, s') \<longrightarrow> eff x (view s) (view s')) \<and>
     (\<forall>s e s'. m s = (Inl e, s') \<longrightarrow>
        view s' = view s \<or> ((\<exists>msg. e = ApiOther msg) \<and> (\<exists>x. eff x (view s) (view s'))))"

locale kube_api =
  fixes K :: "'s kube" and view :: "'s \<Rightarrow> okey \<Rightarrow> obj option" and wire :: "UnitSpec \<Rightarrow> UnitSpec"
  assumes view_key: "view s k = Some ob \<Longrightarrow> keyOf ob = k"
    and get_view: "kGet K k s = (r, s') \<Longrightarrow> view s' = view s"
    and get_found: "kGet K k s = (Inr ob, s') \<Longrightarrow> view s k = Some ob"
    and get_absent: "kGet K k s = (Inl NotFound, s') \<Longrightarrow> view s k = None"
    and list_view: "kList K kd ns sel s = (ls, s') \<Longrightarrow> view s' = view s"
    and list_found: "kList K kd ns sel s = (Inr os, s') \<Longrightarrow>
      ob \<in> set os \<longleftrightarrow> (view s (keyOf ob) = Some ob \<and> kindOf ob = kd \<and>
        (ns = [] \<or> Namespace (objMeta ob) = ns) \<and> matchLabels sel ob)"
    and list_distinct: "kList K kd ns sel s = (Inr os, s') \<Longrightarrow> distinct (map keyOf os)"
    and list_absent: "kList K kd ns sel s \<noteq> (Inl NotFound, s')"
    and create_law: "writeLaw view (kCreate K ob) (createEff wire ob)"
    and create_exists: "kCreate K ob s = (Inl AlreadyExists, s') \<Longrightarrow> view s (keyOf ob) \<noteq> None"
    and update_law: "writeLaw view (kUpdate K ob) (updateEff wire ob)"
    and status_law: "writeLaw view (kStatusUpdate K ob) (statusEff ob)"
    and delete_law: "writeLaw view (kDelete K force k) (\<lambda>_. deleteEff k)"
    and delete_absent: "kDelete K force k s = (Inl NotFound, s') \<Longrightarrow> view s k = None"
    and patch_law: "writeLaw view (kPatch K ob ob') (patchEff ob ob')"
    and resize_law: "writeLaw view (kResize K k i rr) (\<lambda>_. resizeEff k i rr)"
    and patch_data: "kPatchData K ob ob = Inr False"
    and order_perm: "kOrder K n s = (is, s') \<Longrightarrow> mset is = mset [0..<n]"
    and order_view: "kOrder K n s = (is, s') \<Longrightarrow> view s' = view s"

text \<open>Nothing outside a set of keys has changed.\<close>

definition frame :: "('s \<Rightarrow> objview) \<Rightarrow> okey set \<Rightarrow> objview \<Rightarrow> 's \<Rightarrow> bool" where
  "frame view A v s \<longleftrightarrow> (\<forall>k. k \<notin> A \<longrightarrow> view s k = v k)"

lemma frame_refl [simp]: "frame view A (view s) s"
  by (simp add: frame_def)

lemma frame_mono: "frame view A v s \<Longrightarrow> A \<subseteq> B \<Longrightarrow> frame view B v s"
  by (auto simp: frame_def)

lemma frameD: "frame view A v s \<Longrightarrow> k \<notin> A \<Longrightarrow> view s k = v k"
  unfolding frame_def by blast

lemma frame_apply:
  assumes "\<And>v. keeps (frame view A v) m" and "k \<notin> A"
  shows "view (snd (m s)) k = view s k"
  by (rule frameD [OF keepsD [OF assms(1) frame_refl] assms(2)])

lemma keeps_liftApi:
  assumes "\<And>s r s'. I s \<Longrightarrow> m s = (r, s') \<Longrightarrow> I s'"
  shows "keeps I (liftApi m)"
  by (rule keepsI) (auto simp: liftApi_def split: prod.split sum.split intro: assms)

lemma writeLaw_eff:
  assumes "writeLaw view m eff" and "m s = (r, s')"
  shows "view s' = view s \<or> (\<exists>x. eff x (view s) (view s'))"
  using assms unfolding writeLaw_def by (cases r) blast+

lemma keeps_write:
  assumes "writeLaw view m eff" and "\<And>x v v'. eff x v v' \<Longrightarrow> \<forall>k. k \<notin> A \<longrightarrow> v' k = v k"
  shows "keeps (frame view A v0) (liftApi m)"
proof (rule keeps_liftApi)
  fix s r s' assume "frame view A v0 s" and "m s = (r, s')"
  then have "\<forall>k. k \<notin> A \<longrightarrow> view s k = v0 k" and "\<forall>k. k \<notin> A \<longrightarrow> view s' k = view s k"
    using writeLaw_eff [OF assms(1)] assms(2) unfolding frame_def by metis+
  then show "frame view A v0 s'" unfolding frame_def by metis
qed

lemma liftApi_eq [simp]:
  "liftApi m s = (Inr x, s') \<longleftrightarrow> m s = (Inr x, s')"
  "liftApi m s = (Inl e, s') \<longleftrightarrow> (\<exists>a. e = Api a \<and> m s = (Inl a, s'))"
  by (auto simp: liftApi_def split: prod.splits sum.splits)

section \<open>Consequences of the contract\<close>

lemma eff_frames:
  "createEff wire ob ob' v v' \<Longrightarrow> k \<noteq> keyOf ob \<Longrightarrow> v' k = v k"
  "updateEff wire ob ob' v v' \<Longrightarrow> k \<noteq> keyOf ob \<Longrightarrow> v' k = v k"
  "statusEff ob ob' v v' \<Longrightarrow> k \<noteq> keyOf ob \<Longrightarrow> v' k = v k"
  "deleteEff k0 v v' \<Longrightarrow> k \<noteq> k0 \<Longrightarrow> v' k = v k"
  "patchEff ob new ob' v v' \<Longrightarrow> k \<noteq> keyOf ob \<Longrightarrow> v' k = v k"
  "resizeEff k0 i rr v v' \<Longrightarrow> k \<noteq> k0 \<Longrightarrow> v' k = v k"
  unfolding createEff_def updateEff_def statusEff_def deleteEff_def patchEff_def resizeEff_def
  by (auto split: if_splits)

context kube_api
begin

lemma view_unit: "view s (unitKey ns n) = Some ob \<Longrightarrow> \<exists>u. ob = OUnit u"
  by (frule view_key) (cases ob; simp add: keyOf_def)

lemma view_unitset: "view s (unitSetKey ns n) = Some ob \<Longrightarrow> \<exists>u. ob = OUnitSet u"
  by (frule view_key) (cases ob; simp add: keyOf_def)

lemma view_pod: "view s (podKey ns n) = Some ob \<Longrightarrow> \<exists>p. ob = OPod p"
  by (frule view_key) (cases ob; simp add: keyOf_def)

text \<open>Reads change nothing the server holds, whatever their outcome.\<close>

lemma keeps_get [triple_rules]: "keeps (\<lambda>s. P (view s)) (liftApi (kGet K k))"
  by (rule keeps_liftApi) (simp add: get_view)

lemma keeps_list [triple_rules]: "keeps (\<lambda>s. P (view s)) (liftApi (kList K kd ns sel))"
  by (rule keeps_liftApi) (simp add: list_view)

lemma keeps_shuffled [triple_rules]: "keeps (\<lambda>s. P (view s)) (shuffled K xs)"
  by (rule keepsI) (auto simp: shuffled_def order_view split: prod.split)

lemma keeps_getAs: "keeps (\<lambda>s. P (view s)) (getAs dec K k)"
  unfolding getAs_def
proof (rule keeps_bindA, rule keeps_get)
  show "keeps (\<lambda>s. P (view s)) (case dec ob of None \<Rightarrow> fail (Msg ''unexpected kind'') | Some x \<Rightarrow> ret x)" for ob
    by (cases "dec ob") (simp_all add: keeps_fail keeps_ret)
qed

lemma keeps_lists [triple_rules]:
  "keeps (\<lambda>s. P (view s)) (listUnits K ns sel)" "keeps (\<lambda>s. P (view s)) (listServices K ns sel)"
  "keeps (\<lambda>s. P (view s)) (listPVs K)"
  unfolding listUnits_def listServices_def listPVs_def
  by (rule keeps_bindA keeps_list keeps_ret)+

lemma keeps_reads [triple_rules]:
  "keeps (\<lambda>s. P (view s)) (getUnit K ns n)" "keeps (\<lambda>s. P (view s)) (getUnitSet K ns n)"
  "keeps (\<lambda>s. P (view s)) (getPod K ns n)" "keeps (\<lambda>s. P (view s)) (getPodTemplateObj K ns n)"
  "keeps (\<lambda>s. P (view s)) (getConfigMap K ns n)" "keeps (\<lambda>s. P (view s)) (getPVC K ns n)"
  "keeps (\<lambda>s. P (view s)) (getPV K n)" "keeps (\<lambda>s. P (view s)) (getNode K n)"
  "keeps (\<lambda>s. P (view s)) (getService K ns n)"
  unfolding client_defs by (rule keeps_getAs)+

lemma keeps_frame_reads [triple_rules]:
  "keeps (frame view A v) (getUnit K ns n)" "keeps (frame view A v) (getUnitSet K ns n)"
  "keeps (frame view A v) (getPod K ns n)" "keeps (frame view A v) (getPodTemplateObj K ns n)"
  "keeps (frame view A v) (getConfigMap K ns n)" "keeps (frame view A v) (getPVC K ns n)"
  "keeps (frame view A v) (getPV K n)" "keeps (frame view A v) (getNode K n)"
  "keeps (frame view A v) (getService K ns n)"
  "keeps (frame view A v) (listUnits K ns sel)" "keeps (frame view A v) (listServices K ns sel)"
  "keeps (frame view A v) (listPVs K)" "keeps (frame view A v) (shuffled K xs)"
  unfolding frame_def by (rule keeps_reads keeps_lists keeps_shuffled)+

text \<open>A write touches one object.\<close>

lemma keeps_frame_writes [triple_rules]:
  "keyOf ob \<in> A \<Longrightarrow> keeps (frame view A v) (createObj K ob)"
  "keyOf ob \<in> A \<Longrightarrow> keeps (frame view A v) (updateObj K ob)"
  "keyOf ob \<in> A \<Longrightarrow> keeps (frame view A v) (statusUpdate K ob)"
  "k \<in> A \<Longrightarrow> keeps (frame view A v) (deleteObj K k)"
  "k \<in> A \<Longrightarrow> keeps (frame view A v) (forceDeleteObj K k)"
  "keyOf ob \<in> A \<Longrightarrow> keeps (frame view A v) (patchObj K ob ob')"
  "k \<in> A \<Longrightarrow> keeps (frame view A v) (resizeObj K k i rr)"
  unfolding createObj_def updateObj_def statusUpdate_def deleteObj_def forceDeleteObj_def patchObj_def resizeObj_def
  subgoal by (rule keeps_write [OF create_law]) (metis eff_frames(1))
  subgoal by (rule keeps_write [OF update_law]) (metis eff_frames(2))
  subgoal by (rule keeps_write [OF status_law]) (metis eff_frames(3))
  subgoal by (rule keeps_write [OF delete_law]) (metis eff_frames(4))
  subgoal by (rule keeps_write [OF delete_law]) (metis eff_frames(4))
  subgoal by (rule keeps_write [OF patch_law]) (metis eff_frames(5))
  subgoal by (rule keeps_write [OF resize_law]) (metis eff_frames(6))
  done

lemma shuffled_perm: "shuffled K xs s = (Inr ys, s') \<Longrightarrow> mset ys = mset xs"
proof -
  assume "shuffled K xs s = (Inr ys, s')"
  then obtain "is" where o: "kOrder K (length xs) s = (is, s')" and ys: "ys = map ((!) xs) is"
    by (auto simp: shuffled_def split: prod.splits)
  have "mset ys = image_mset ((!) xs) (mset [0..<length xs])"
    using order_perm [OF o] by (simp add: ys)
  also have "\<dots> = mset (map ((!) xs) [0..<length xs])" by (simp only: mset_map)
  finally show ?thesis by (simp only: map_nth)
qed

lemma shuffled_subset: "shuffled K xs s = (Inr ys, s') \<Longrightarrow> set ys = set xs"
  using shuffled_perm mset_eq_setD by blast

text \<open>
  A fan-out keeps what each of its bodies keeps, for the elements of the list: the schedule only
  permutes them.
\<close>

lemma keeps_shuffled_then:
  assumes "\<And>ys. set ys = set xs \<Longrightarrow> keeps (frame view A v) (g ys)"
  shows "keeps (frame view A v) (bindA (shuffled K xs) g)"
proof (rule triple_bindA)
  show "triple (frame view A v) (shuffled K xs) (\<lambda>ys s. set ys = set xs \<and> frame view A v s)
      (\<lambda>_. frame view A v)"
    by (rule tripleI) (auto dest: shuffled_subset keepsD' [OF keeps_frame_reads(13)])
  show "triple (\<lambda>s. set ys = set xs \<and> frame view A v s) (g ys) (\<lambda>_. frame view A v) (\<lambda>_. frame view A v)" for ys
    using assms [of ys] by (auto simp: triple_def)
qed

lemma keeps_shuffled_thenL:
  assumes "\<And>ys. set ys = set xs \<Longrightarrow> keeps (\<lambda>p. frame view A v (snd p)) (g ys)"
  shows "keeps (\<lambda>p. frame view A v (snd p)) (bindA (liftW (shuffled K xs)) g)"
proof (rule triple_bindA)
  show "triple (\<lambda>p. frame view A v (snd p)) (liftW (shuffled K xs))
      (\<lambda>ys p. set ys = set xs \<and> frame view A v (snd p)) (\<lambda>_ p. frame view A v (snd p))"
    by (rule tripleI)
      (auto simp: liftW_def split: prod.splits dest: shuffled_subset keepsD' [OF keeps_frame_reads(13)])
  show "triple (\<lambda>p. set ys = set xs \<and> frame view A v (snd p)) (g ys)
      (\<lambda>_ p. frame view A v (snd p)) (\<lambda>_ p. frame view A v (snd p))" for ys
    using assms [of ys] by (auto simp: triple_def)
qed

lemma keeps_goAll [triple_rules]:
  "(\<And>x. x \<in> set xs \<Longrightarrow> keeps (frame view A v) (f x)) \<Longrightarrow> keeps (frame view A v) (goAll K xs f)"
  unfolding goAll_def by (rule keeps_shuffled_then) (auto intro: keeps_forkJoin)

lemma keeps_goGroup [triple_rules]:
  "(\<And>x. x \<in> set xs \<Longrightarrow> keeps (frame view A v) (f x)) \<Longrightarrow> keeps (frame view A v) (goGroup K xs f)"
  unfolding goGroup_def by (rule keeps_shuffled_then) (auto intro: keeps_forkFirst)

lemma keeps_goAllL [triple_rules]:
  "(\<And>x. x \<in> set xs \<Longrightarrow> keeps (\<lambda>p. frame view A v (snd p)) (f x)) \<Longrightarrow>
   keeps (\<lambda>p. frame view A v (snd p)) (goAllL K xs f)"
  unfolding goAllL_def by (rule keeps_shuffled_thenL) (auto intro: keeps_forkJoin)

lemma keeps_goGroupL [triple_rules]:
  "(\<And>x. x \<in> set xs \<Longrightarrow> keeps (\<lambda>p. frame view A v (snd p)) (f x)) \<Longrightarrow>
   keeps (\<lambda>p. frame view A v (snd p)) (goGroupL K xs f)"
  unfolding goGroupL_def by (rule keeps_shuffled_thenL) (auto intro: keeps_forkFirst)

text \<open>The answers of the reads.\<close>

lemma getAs_Inr:
  assumes "getAs dec K k s = (Inr x, s')"
  shows "\<exists>ob. view s k = Some ob \<and> dec ob = Some x" and "view s' = view s"
proof -
  from assms obtain ob u where g: "kGet K k s = (Inr ob, u)"
    and d: "(case dec ob of Some x \<Rightarrow> ret x | None \<Rightarrow> fail (Msg ''unexpected kind'')) u = (Inr x, s')"
    unfolding getAs_def bindA_eq_Inr_iff by auto
  from d have "dec ob = Some x" and "s' = u" by (cases "dec ob"; simp)+
  with g show "\<exists>ob. view s k = Some ob \<and> dec ob = Some x" and "view s' = view s"
    by (auto dest: get_found get_view)
qed

lemma getAs_absent:
  "triple (\<lambda>s. view s = v) (getAs dec K k) (\<lambda>_ s. view s = v) (\<lambda>e s. view s = v \<and> (IsNotFound e \<longrightarrow> v k = None))"
proof (rule tripleI)
  fix s x s' assume "view s = v" and "getAs dec K k s = (Inr x, s')"
  then show "view s' = v" using getAs_Inr(2) by metis
next
  fix s e s' assume s: "view s = v" and g: "getAs dec K k s = (Inl e, s')"
  have "view s' = v" by (rule keepsD' [OF keeps_getAs [of "\<lambda>w. w = v"] s g])
  moreover have "v k = None" if "IsNotFound e"
    using that g s get_absent [of k s s']
    by (auto simp: getAs_def bindA_def liftApi_def IsNotFound_def split: prod.splits sum.splits option.splits)
  ultimately show "view s' = v \<and> (IsNotFound e \<longrightarrow> v k = None)" by blast
qed

lemma getAs_cases:
  assumes "getAs dec K k s = (r, s')"
  shows "view s' = view s" and "r = Inl e \<Longrightarrow> IsNotFound e \<Longrightarrow> view s k = None"
proof -
  show "view s' = view s" by (rule keepsD' [OF keeps_getAs [of "\<lambda>w. w = view s"] refl assms])
  show "view s k = None" if "r = Inl e" "IsNotFound e"
    using tripleD_Inl [OF getAs_absent refl assms [unfolded that(1)]] that(2) by blast
qed

lemma getUnit_Inr:
  assumes "getUnit K ns n s = (Inr x, s')"
  shows "view s (unitKey ns n) = Some (OUnit x)" and "view s' = view s"
  using getAs_Inr [OF assms [unfolded getUnit_def]] by simp_all

lemma getUnitSet_Inr:
  assumes "getUnitSet K ns n s = (Inr x, s')"
  shows "view s (unitSetKey ns n) = Some (OUnitSet x)" and "view s' = view s"
  using getAs_Inr [OF assms [unfolded getUnitSet_def]] by simp_all

lemma getPod_Inr:
  assumes "getPod K ns n s = (Inr x, s')"
  shows "view s (podKey ns n) = Some (OPod x)" and "view s' = view s"
  using getAs_Inr [OF assms [unfolded getPod_def]] by simp_all

lemma listUnits_Inr:
  assumes "listUnits K ns sel s = (Inr us, s')"
  shows "u \<in> set us \<longleftrightarrow> view s (keyOf (OUnit u)) = Some (OUnit u) \<and>
      (ns = [] \<or> Namespace (u_meta u) = ns) \<and> matchLabels sel (OUnit u)"
    and "view s' = view s"
proof -
  from assms obtain os where l: "kList K KUnit ns sel s = (Inr os, s')" and us: "us = unitsOf os"
    by (auto simp: listUnits_def bindA_eq_Inr_iff)
  show "view s' = view s" using list_view [OF l] .
  show "u \<in> set us \<longleftrightarrow> view s (keyOf (OUnit u)) = Some (OUnit u) \<and>
      (ns = [] \<or> Namespace (u_meta u) = ns) \<and> matchLabels sel (OUnit u)"
    using list_found [OF l, of "OUnit u"] by (simp add: us set_unitsOf)
qed

lemma listPVs_Inr:
  assumes "listPVs K s = (Inr pvs, s')"
  shows "x \<in> set pvs \<longleftrightarrow> view s (keyOf (OPV x)) = Some (OPV x)" and "view s' = view s"
proof -
  from assms obtain os where l: "kList K KPV [] [] s = (Inr os, s')" and pvs: "pvs = pvsOf os"
    by (auto simp: listPVs_def bindA_eq_Inr_iff)
  show "view s' = view s" using list_view [OF l] .
  show "x \<in> set pvs \<longleftrightarrow> view s (keyOf (OPV x)) = Some (OPV x)"
    using list_found [OF l, of "OPV x"] by (simp add: pvs set_pvsOf matchLabels_def)
qed

text \<open>Continuing with an object that was read: its name and namespace are those asked for.\<close>

lemma view_names:
  "view s (kd, ns, n) = Some ob \<Longrightarrow> kindOf ob = kd \<and> Namespace (objMeta ob) = ns \<and> Name (objMeta ob) = n"
  by (drule view_key) (auto simp: keyOf_def)

lemma getUnit_names:
  "triple (frame view A v) (getUnit K ns n)
     (\<lambda>u s. (Namespace (u_meta u) = ns \<and> Name (u_meta u) = n) \<and> frame view A v s) (\<lambda>_. frame view A v)"
proof (rule tripleI)
  fix s x s' assume "frame view A v s" and g: "getUnit K ns n s = (Inr x, s')"
  with keepsD' [OF keeps_frame_reads(1)] view_names [OF getUnit_Inr(1) [OF g]]
  show "(Namespace (u_meta x) = ns \<and> Name (u_meta x) = n) \<and> frame view A v s'" by auto
qed (rule keepsD' [OF keeps_frame_reads(1)])

lemmas keeps_getUnit_then = keeps_bind_if [OF getUnit_names]
  keeps_bind_if [OF triple_mapErr [OF getUnit_names]]

lemma getUnitSet_names:
  "triple (frame view A v) (getUnitSet K ns n)
     (\<lambda>u s. (Namespace (us_meta u) = ns \<and> Name (us_meta u) = n) \<and> frame view A v s) (\<lambda>_. frame view A v)"
proof (rule tripleI)
  fix s x s' assume "frame view A v s" and g: "getUnitSet K ns n s = (Inr x, s')"
  with keepsD' [OF keeps_frame_reads(2)] view_names [OF getUnitSet_Inr(1) [OF g]]
  show "(Namespace (us_meta x) = ns \<and> Name (us_meta x) = n) \<and> frame view A v s'" by auto
qed (rule keepsD' [OF keeps_frame_reads(2)])

lemmas keeps_getUnitSet_then = keeps_bind_if [OF getUnitSet_names]
  keeps_bind_if [OF triple_mapErr [OF getUnitSet_names]]

lemma getPod_names:
  "triple (frame view A v) (getPod K ns n)
     (\<lambda>u s. (Namespace (p_meta u) = ns \<and> Name (p_meta u) = n) \<and> frame view A v s) (\<lambda>_. frame view A v)"
proof (rule tripleI)
  fix s x s' assume "frame view A v s" and g: "getPod K ns n s = (Inr x, s')"
  with keepsD' [OF keeps_frame_reads(3)] view_names [OF getPod_Inr(1) [OF g]]
  show "(Namespace (p_meta x) = ns \<and> Name (p_meta x) = n) \<and> frame view A v s'" by auto
qed (rule keepsD' [OF keeps_frame_reads(3)])

lemmas keeps_getPod_then = keeps_bind_if [OF getPod_names]
  keeps_bind_if [OF triple_mapErr [OF getPod_names]]

lemma listUnits_distinct:
  assumes "listUnits K ns sel s = (Inr us, s')"
  shows "distinct (map (\<lambda>u. keyOf (OUnit u)) us)"
proof -
  from assms obtain os where l: "kList K KUnit ns sel s = (Inr os, s')" and us: "us = unitsOf os"
    by (auto simp: listUnits_def bindA_eq_Inr_iff)
  have "distinct (map keyOf xs) \<Longrightarrow> distinct (map (\<lambda>u. keyOf (OUnit u)) (unitsOf xs))" for xs
  proof (induction xs)
    case (Cons x xs)
    then show ?case
      by (cases x) (auto simp: unitsOf_def List.map_filter_simps asUnit_def set_unitsOf [unfolded unitsOf_def] image_iff,
          metis keyOf_simps(1))
  qed (simp add: unitsOf_def List.map_filter_simps)
  with list_distinct [OF l] us show ?thesis by simp
qed

lemma write_Inr:
  assumes "writeLaw view m eff" and "m s = (Inr x, s')"
  shows "eff x (view s) (view s')"
  using assms unfolding writeLaw_def by blast

end

text \<open>
  An API server that answers: in the states satisfying \<open>ok\<close> no call fails without a reason,
  the context is not cancelled, and serving a call leads to such a state again.
\<close>

locale kube_live = kube_api +
  fixes ok :: "'a \<Rightarrow> bool"
  assumes get_live: "ok s \<Longrightarrow> view s k = Some ob \<Longrightarrow> \<exists>s'. kGet K k s = (Inr ob, s') \<and> ok s'"
    and get_live_absent: "ok s \<Longrightarrow> view s k = None \<Longrightarrow> \<exists>s'. kGet K k s = (Inl NotFound, s') \<and> ok s'"
    and list_live: "ok s \<Longrightarrow> \<exists>os s'. kList K kd ns sel s = (Inr os, s') \<and> ok s'"
    and create_live: "ok s \<Longrightarrow> view s (keyOf ob) = None \<Longrightarrow>
      \<exists>ob' s'. kCreate K ob s = (Inr ob', s') \<and> ok s'"
    and update_live: "ok s \<Longrightarrow> view s (keyOf ob) = Some old \<Longrightarrow> versionOk (objMeta ob) (objMeta old) \<Longrightarrow>
      \<exists>ob' s'. kUpdate K ob s = (Inr ob', s') \<and> ok s'"
    and status_live: "ok s \<Longrightarrow> view s (keyOf ob) = Some old \<Longrightarrow> versionOk (objMeta ob) (objMeta old) \<Longrightarrow>
      \<exists>ob' s'. kStatusUpdate K ob s = (Inr ob', s') \<and> ok s'"
    and delete_live: "ok s \<Longrightarrow> view s k = Some ob \<Longrightarrow> \<exists>s'. kDelete K force k s = (Inr (), s') \<and> ok s'"
    and order_live: "ok s \<Longrightarrow> ok (snd (kOrder K n s))"
    and not_done: "ok s \<Longrightarrow> \<not> kCtxDone K s"
begin

lemma getAs_live:
  assumes "ok s" and "view s k = Some ob" and "dec ob = Some x"
  shows "\<exists>s'. getAs dec K k s = (Inr x, s') \<and> ok s' \<and> view s' = view s"
  using get_live [OF assms(1,2)] assms(3) by (auto simp: getAs_def bindA_eq_Inr_iff dest: get_view)

lemma create_total:
  assumes "ok s" and "view s (keyOf ob) = None"
  shows "\<exists>ob' s'. createObj K ob s = (Inr ob', s') \<and> ok s' \<and> createEff wire ob ob' (view s) (view s')"
  using create_live [OF assms] write_Inr [OF create_law] by (auto simp: createObj_def)

lemma update_total:
  assumes "ok s" and "view s (keyOf ob) = Some old" and "versionOk (objMeta ob) (objMeta old)"
  shows "\<exists>ob' s'. updateObj K ob s = (Inr ob', s') \<and> ok s' \<and> updateEff wire ob ob' (view s) (view s')"
  using update_live [OF assms] write_Inr [OF update_law] by (auto simp: updateObj_def)

lemma status_total:
  assumes "ok s" and "view s (keyOf ob) = Some old" and "versionOk (objMeta ob) (objMeta old)"
  shows "\<exists>ob' s'. statusUpdate K ob s = (Inr ob', s') \<and> ok s' \<and> statusEff ob ob' (view s) (view s')"
  using status_live [OF assms] write_Inr [OF status_law] by (auto simp: statusUpdate_def)

lemma delete_total:
  assumes "ok s" and "view s k = Some ob"
  shows "\<exists>s'. deleteObj K k s = (Inr (), s') \<and> ok s' \<and> deleteEff k (view s) (view s')"
proof -
  obtain s' where d: "kDelete K False k s = (Inr (), s')" "ok s'"
    using delete_live [OF assms, of False] by blast
  from write_Inr [OF delete_law d(1)] d show ?thesis by (auto simp: deleteObj_def)
qed

lemma shuffled_total:
  assumes "ok s"
  shows "\<exists>ys s'. shuffled K xs s = (Inr ys, s') \<and> ok s' \<and> view s' = view s \<and> mset ys = mset xs"
proof -
  obtain "is" s' where o: "kOrder K (length xs) s = (is, s')" by fastforce
  then have "shuffled K xs s = (Inr (map ((!) xs) is), s')" by (simp add: shuffled_def)
  with o order_live [OF assms, of "length xs"] order_view [OF o] shuffled_perm show ?thesis by fastforce
qed

lemma getUnit_live_absent:
  assumes "ok s" and "view s (unitKey ns n) = None"
  shows "\<exists>s'. getUnit K ns n s = (Inl (Api NotFound), s') \<and> ok s' \<and> view s' = view s"
  using get_live_absent [OF assms] by (auto simp: getUnit_def getAs_def bindA_def liftApi_def dest: get_view)

lemma getUnit_live:
  "ok s \<Longrightarrow> view s (unitKey ns n) = Some (OUnit x) \<Longrightarrow>
   \<exists>s'. getUnit K ns n s = (Inr x, s') \<and> ok s' \<and> view s' = view s"
  unfolding getUnit_def by (rule getAs_live) simp_all

lemma getUnitSet_live:
  "ok s \<Longrightarrow> view s (unitSetKey ns n) = Some (OUnitSet x) \<Longrightarrow>
   \<exists>s'. getUnitSet K ns n s = (Inr x, s') \<and> ok s' \<and> view s' = view s"
  unfolding getUnitSet_def by (rule getAs_live) simp_all

end

end
