(* ===== verification/MemKube.thy ===== *)
theory MemKube
  imports KubeClient
begin

text \<open>
  An executable API server: the objects in a list, a counter for resource versions, and a list of
  planned transport faults (each call consumes one entry). It satisfies the contract
  \<open>kube_api\<close>, and \<open>kube_live\<close> in its states without planned faults, so the hypotheses
  of the development's theorems can be met; the witnesses run the controllers against it.
  Deleting an object without finalizers removes it at once. Goroutines run in their order of
  creation, and every poll is evaluated three times.
\<close>

record mem =
  m_store :: "obj list"
  m_rv :: nat
  m_faults :: "string option list"

definition memView :: "mem \<Rightarrow> okey \<Rightarrow> obj option" where
  "memView s k = List.find (\<lambda>ob. keyOf ob = k) (m_store s)"

fun replaceOrAdd :: "obj \<Rightarrow> obj list \<Rightarrow> obj list" where
  "replaceOrAdd ob [] = [ob]"
| "replaceOrAdd ob (x # xs) = (if keyOf x = keyOf ob then ob # xs else x # replaceOrAdd ob xs)"

definition put :: "obj \<Rightarrow> mem \<Rightarrow> mem" where
  "put ob s = s\<lparr>m_store := replaceOrAdd ob (m_store s), m_rv := Suc (m_rv s)\<rparr>"

definition remove :: "okey \<Rightarrow> mem \<Rightarrow> mem" where
  "remove k s = s\<lparr>m_store := filter (\<lambda>ob. keyOf ob \<noteq> k) (m_store s), m_rv := Suc (m_rv s)\<rparr>"

fun firsts :: "obj list \<Rightarrow> obj list" where
  "firsts [] = []"
| "firsts (x # xs) = x # filter (\<lambda>y. keyOf y \<noteq> keyOf x) (firsts xs)"

definition withFaults :: "(mem \<Rightarrow> (api_error + 'a) \<times> mem) \<Rightarrow> mem \<Rightarrow> (api_error + 'a) \<times> mem" where
  "withFaults m s =
     (case m_faults s of
        [] \<Rightarrow> m s
      | None # fs \<Rightarrow> m (s\<lparr>m_faults := fs\<rparr>)
      | Some msg # fs \<Rightarrow> (Inl (ApiOther msg), s\<lparr>m_faults := fs\<rparr>))"

definition memGet :: "okey \<Rightarrow> mem \<Rightarrow> (api_error + obj) \<times> mem" where
  "memGet k s = ((case memView s k of None \<Rightarrow> Inl NotFound | Some ob \<Rightarrow> Inr ob), s)"

definition memList :: "kind \<Rightarrow> string \<Rightarrow> (string \<times> string) list \<Rightarrow> mem \<Rightarrow> (api_error + obj list) \<times> mem" where
  "memList kd ns sel s =
     (Inr (filter (\<lambda>ob. kindOf ob = kd \<and> (ns = [] \<or> Namespace (objMeta ob) = ns) \<and> matchLabels sel ob)
             (firsts (m_store s))), s)"

definition fresh :: "mem \<Rightarrow> string" where
  "fresh s = Itoa (int (m_rv s))"

definition memCreate :: "obj \<Rightarrow> mem \<Rightarrow> (api_error + obj) \<times> mem" where
  "memCreate ob s =
     (case memView s (keyOf ob) of
        Some _ \<Rightarrow> (Inl AlreadyExists, s)
      | None \<Rightarrow> let ob' = withMeta (\<lambda>m. m\<lparr>ResourceVersion := fresh s, DeletionTimestamp := None\<rparr>) ob
                in (Inr ob', put ob' s))"

fun auxCopyStatus :: "aux \<Rightarrow> aux \<Rightarrow> aux" where
  "auxCopyStatus (AGrpcCall old) (AGrpcCall g) = AGrpcCall (g\<lparr>gc_Status := gc_Status old\<rparr>)"
| "auxCopyStatus old a = a"

fun copyStatus :: "obj \<Rightarrow> obj \<Rightarrow> obj" where
  "copyStatus (OUnit old) (OUnit u) = OUnit (u\<lparr>u_Status := u_Status old\<rparr>)"
| "copyStatus (OUnitSet old) (OUnitSet u) = OUnitSet (u\<lparr>us_Status := us_Status old\<rparr>)"
| "copyStatus (OAux old) (OAux a) = OAux (auxCopyStatus old a)"
| "copyStatus old ob = ob"

definition memUpdate :: "obj \<Rightarrow> mem \<Rightarrow> (api_error + obj) \<times> mem" where
  "memUpdate ob s =
     (case memView s (keyOf ob) of
        None \<Rightarrow> (Inl NotFound, s)
      | Some old \<Rightarrow>
          if \<not> versionOk (objMeta ob) (objMeta old) then (Inl Conflict, s)
          else let ob' = withMeta (\<lambda>m. m\<lparr>ResourceVersion := fresh s,
                                        DeletionTimestamp := DeletionTimestamp (objMeta old)\<rparr>)
                          (copyStatus old ob)
               in (Inr ob', if DeletionTimestamp (objMeta old) \<noteq> None \<and> Finalizers (objMeta ob') = []
                            then remove (keyOf ob) s else put ob' s))"

definition memStatusUpdate :: "obj \<Rightarrow> mem \<Rightarrow> (api_error + obj) \<times> mem" where
  "memStatusUpdate ob s =
     (case memView s (keyOf ob) of
        None \<Rightarrow> (Inl NotFound, s)
      | Some old \<Rightarrow>
          if \<not> versionOk (objMeta ob) (objMeta old) then (Inl Conflict, s)
          else let ob' = withMeta (\<lambda>m. m\<lparr>ResourceVersion := fresh s\<rparr>) (copyStatus ob old)
               in (Inr ob', put ob' s))"

definition memDelete :: "bool \<Rightarrow> okey \<Rightarrow> mem \<Rightarrow> (api_error + unit) \<times> mem" where
  "memDelete force k s =
     (case memView s k of
        None \<Rightarrow> (Inl NotFound, s)
      | Some old \<Rightarrow>
          if Finalizers (objMeta old) = [] then (Inr (), remove k s)
          else (Inr (), put (withMeta (\<lambda>m. m\<lparr>DeletionTimestamp := Some (m_rv s), ResourceVersion := fresh s,
                                            Generation := Generation (objMeta old) + 1\<rparr>) old) s))"

definition patchEntries :: "string gomap \<Rightarrow> string gomap \<Rightarrow> string gomap \<Rightarrow> string gomap" where
  "patchEntries old new cur =
     (let changed = (\<lambda>k. mfind old k \<noteq> mfind new k)
      in Some (fmadd (fmfilter (\<lambda>k. \<not> changed k) (mbody cur)) (fmfilter changed (mbody new))))"

text \<open>The patched UnitSet keeps its status, and its spec unless the patch changes it.\<close>

definition patchSet :: "UnitSet \<Rightarrow> UnitSet \<Rightarrow> UnitSet \<Rightarrow> UnitSet" where
  "patchSet old new cur = new\<lparr>us_Status := us_Status cur,
     us_Spec := (if us_Spec old = us_Spec new then us_Spec cur else us_Spec new),
     us_meta := (us_meta new)\<lparr>Annotations :=
       patchEntries (Annotations (us_meta old)) (Annotations (us_meta new)) (Annotations (us_meta cur))\<rparr>\<rparr>"

definition patched :: "obj \<Rightarrow> obj \<Rightarrow> obj \<Rightarrow> obj" where
  "patched old new cur =
     (case (asUnitSet old, asUnitSet new, asUnitSet cur) of
        (Some a, Some b, Some c) \<Rightarrow> OUnitSet (patchSet a b c)
      | _ \<Rightarrow> new)"

definition memPatch :: "obj \<Rightarrow> obj \<Rightarrow> mem \<Rightarrow> (api_error + obj) \<times> mem" where
  "memPatch ob new s =
     (case memView s (keyOf ob) of
        None \<Rightarrow> (Inl NotFound, s)
      | Some old \<Rightarrow>
          if keyOf new \<noteq> keyOf ob then (Inl (ApiOther ''invalid''), s)
          else let ob' = withMeta (\<lambda>m. m\<lparr>ResourceVersion := fresh s, DeletionTimestamp := DeletionTimestamp (objMeta old)\<rparr>)
                           (patched ob new old)
               in (Inr ob', put ob' s))"

definition memResize :: "okey \<Rightarrow> nat \<Rightarrow> resourceRequirements \<Rightarrow> mem \<Rightarrow> (api_error + unit) \<times> mem" where
  "memResize k i r s =
     (case memView s k of
        Some (OPod p) \<Rightarrow>
          if i < length (Containers (p_Spec p))
          then (Inr (), put (OPod ((withResources i r p)\<lparr>p_meta := (p_meta p)\<lparr>ResourceVersion := fresh s\<rparr>\<rparr>)) s)
          else (Inl (ApiOther ''invalid''), s)
      | _ \<Rightarrow> (Inl NotFound, s))"

definition memKube :: "mem kube" where
  "memKube = \<lparr>
     kGet = (\<lambda>k. withFaults (memGet k)),
     kList = (\<lambda>kd ns sel. withFaults (memList kd ns sel)),
     kCreate = (\<lambda>ob. withFaults (memCreate ob)),
     kUpdate = (\<lambda>ob. withFaults (memUpdate ob)),
     kStatusUpdate = (\<lambda>ob. withFaults (memStatusUpdate ob)),
     kDelete = (\<lambda>f k. withFaults (memDelete f k)),
     kPatch = (\<lambda>ob new. withFaults (memPatch ob new)),
     kPatchData = (\<lambda>ob new. Inr (ob \<noteq> new)),
     kResize = (\<lambda>k i r. withFaults (memResize k i r)),
     kOrder = (\<lambda>n s. ([0..<n], s)),
     kCtxDone = (\<lambda>_. False), kNow = m_rv, kPolls = (\<lambda>_ _. 3),
     kPollsLater = (\<lambda>_ _. 2)\<rparr>"

definition memOk :: "mem \<Rightarrow> bool" where
  "memOk s \<longleftrightarrow> m_faults s = []"

section \<open>The contract holds\<close>

lemma find_replaceOrAdd:
  "List.find (\<lambda>x. keyOf x = k) (replaceOrAdd ob xs) =
     (if keyOf ob = k then Some ob else List.find (\<lambda>x. keyOf x = k) xs)"
  by (induction xs) auto

lemma find_filter_key:
  "List.find (\<lambda>x. keyOf x = k) (filter (\<lambda>x. keyOf x \<noteq> k') xs) =
     (if k = k' then None else List.find (\<lambda>x. keyOf x = k) xs)"
  by (induction xs) auto

lemma memView_put: "memView (put ob s) = (memView s)(keyOf ob \<mapsto> ob)"
  by (rule ext) (simp add: memView_def put_def find_replaceOrAdd)

lemma memView_remove: "memView (remove k s) = (memView s)(k := None)"
  by (rule ext) (simp add: memView_def remove_def find_filter_key)

lemma memView_faults [simp]: "memView (s\<lparr>m_faults := fs\<rparr>) = memView s"
  by (rule ext) (simp add: memView_def)

lemma set_firsts: "ob \<in> set (firsts xs) \<longleftrightarrow> List.find (\<lambda>x. keyOf x = keyOf ob) xs = Some ob"
  by (induction xs) auto

lemma distinct_firsts: "distinct (map keyOf (firsts xs))"
  by (induction xs) (auto simp: distinct_map_filter)

lemma memView_key: "memView s k = Some ob \<Longrightarrow> keyOf ob = k"
  by (auto simp: memView_def find_Some_iff)

lemma auxCopyStatus_simps [simp]:
  "auxKind (auxCopyStatus a b) = auxKind b" "auxMeta (auxCopyStatus a b) = auxMeta b"
  by (cases "(a, b)" rule: auxCopyStatus.cases; simp)+

lemma kindOf_copyStatus [simp]: "kindOf (copyStatus a b) = kindOf b"
  by (cases "(a, b)" rule: copyStatus.cases) simp_all

lemma objMeta_copyStatus [simp]: "objMeta (copyStatus a b) = objMeta b"
  by (cases "(a, b)" rule: copyStatus.cases) simp_all

lemma keyOf_withMeta:
  "Name (f (objMeta ob)) = Name (objMeta ob) \<Longrightarrow> Namespace (f (objMeta ob)) = Namespace (objMeta ob)
   \<Longrightarrow> keyOf (withMeta f ob) = keyOf ob"
  by (simp add: keyOf_def)

lemma keyOf_copyStatus [simp]: "keyOf (copyStatus a b) = keyOf b"
  by (simp add: keyOf_def)

lemma writeLaw_withFaults:
  assumes "\<And>s x s'. m s = (Inr x, s') \<Longrightarrow> eff x (memView s) (memView s')"
    and "\<And>s e s'. m s = (Inl e, s') \<Longrightarrow> memView s' = memView s"
  shows "writeLaw memView (withFaults m) eff"
  unfolding writeLaw_def withFaults_def
proof (intro conjI allI impI, goal_cases)
  case (1 s x s')
  then show ?case
    using assms(1) [of s x s'] assms(1) [of "s\<lparr>m_faults := tl (m_faults s)\<rparr>" x s']
    by (auto split: list.splits option.splits)
next
  case (2 s e s')
  then show ?case
    using assms(2) [of s e s'] assms(2) [of "s\<lparr>m_faults := tl (m_faults s)\<rparr>" e s']
    by (auto split: list.splits option.splits)
qed

lemma auxStored_with:
  "metaEq (auxMeta x) (f (auxMeta x)) \<Longrightarrow> auxStored x (withAuxMeta f x)"
  by (cases x) (auto simp: auxStored_def)

lemma auxCopyStatus_eq:
  "auxCopyStatus a b = b \<or> (\<exists>g g'. b = AGrpcCall g \<and> auxCopyStatus a b = AGrpcCall g')"
  by (cases "(a, b)" rule: auxCopyStatus.cases) simp_all

lemma auxStored_copy:
  assumes "auxStored (auxCopyStatus a b) c"
  shows "auxStored b c"
  using auxCopyStatus_eq [of a b]
proof (elim disjE exE conjE)
  fix g g' assume g: "b = AGrpcCall g" "auxCopyStatus a b = AGrpcCall g'"
  then have "gc_meta g' = gc_meta g" using auxCopyStatus_simps(2) [of a b] by simp
  with assms show ?thesis unfolding g by (simp add: auxStored_def)
qed (use assms in simp)

lemma createStored_mem:
  "createStored id ob (withMeta (\<lambda>m. m\<lparr>ResourceVersion := r, DeletionTimestamp := None\<rparr>) ob)"
  by (cases ob)
    (auto simp: createStored_def metaEq_def serviceStored_def portStored_def list_all2_same intro!: auxStored_with)

lemma updStored_mem:
  "updStored id old ob (withMeta (\<lambda>m. m\<lparr>ResourceVersion := r, DeletionTimestamp := d\<rparr>) (copyStatus old ob))"
  unfolding updStored_def
  by (auto simp: metaEq_def intro!: auxStored_copy [OF auxStored_with])

lemma statusStored_mem:
  "keyOf old = keyOf ob \<Longrightarrow>
   statusStored old ob (withMeta (\<lambda>m. m\<lparr>ResourceVersion := r\<rparr>) (copyStatus ob old))"
  by (cases "(ob, old)" rule: copyStatus.cases)
    (auto simp: statusStored_def sameButVersion_def unitStatusEq_def unitSetStatusEq_def grpcStatusEq_def keyOf_def)

lemma patchEntries_patched: "entriesPatched old new cur (patchEntries old new cur)"
  by (auto simp: entriesPatched_def patchEntries_def mfind_def Let_def)

lemma patchStored_mem:
  "patchStored old new cur (withMeta (\<lambda>m. m\<lparr>ResourceVersion := r, DeletionTimestamp := d\<rparr>) (patched old new cur))"
  by (auto simp: patchStored_def patched_def patchSet_def asUnitSet_def patchEntries_patched)

lemma keyOf_patched [simp]: "keyOf (patched old new cur) = keyOf new"
  by (auto simp: patched_def patchSet_def asUnitSet_def keyOf_def split: option.splits obj.splits)

lemma memUpdate_eff:
  assumes "memUpdate ob s = (Inr x, s')"
  shows "updateEff id ob x (memView s) (memView s')"
proof -
  from assms obtain old where old: "memView s (keyOf ob) = Some old" "versionOk (objMeta ob) (objMeta old)"
    by (auto simp: memUpdate_def split: option.splits if_splits)
  with assms show ?thesis
    unfolding updateEff_def
    by (intro exI [of _ old])
      (auto simp: memUpdate_def Let_def memView_put memView_remove keyOf_withMeta
        intro!: updStored_mem dest: memView_key split: if_splits)
qed

lemma memStatusUpdate_eff:
  assumes "memStatusUpdate ob s = (Inr x, s')"
  shows "statusEff ob x (memView s) (memView s')"
proof -
  from assms obtain old where old: "memView s (keyOf ob) = Some old" "versionOk (objMeta ob) (objMeta old)"
    by (auto simp: memStatusUpdate_def split: option.splits if_splits)
  with memView_key [OF old(1)] assms show ?thesis
    unfolding statusEff_def
    by (intro exI [of _ old])
      (auto simp: memStatusUpdate_def Let_def memView_put keyOf_withMeta intro!: statusStored_mem)
qed

lemma memDelete_eff:
  assumes "memDelete f k s = (Inr x, s')"
  shows "deleteEff k (memView s) (memView s')"
proof -
  from assms obtain old where old: "memView s k = Some old"
    by (auto simp: memDelete_def split: option.splits)
  with memView_key [OF old(1)] assms show ?thesis
    unfolding deleteEff_def
    by (intro exI [of _ old])
      (auto simp: memDelete_def memView_put memView_remove keyOf_withMeta intro!: exI split: if_splits)
qed

lemma memResize_eff:
  assumes "memResize k i rr s = (Inr x, s')"
  shows "resizeEff k i rr (memView s) (memView s')"
proof -
  from assms obtain p where p: "memView s k = Some (OPod p)" "i < length (Containers (p_Spec p))"
    and s': "s' = put (OPod ((withResources i rr p)\<lparr>p_meta := (p_meta p)\<lparr>ResourceVersion := fresh s\<rparr>\<rparr>)) s"
    by (auto simp: memResize_def split: option.splits obj.splits if_splits)
  have "keyOf (OPod p) = k" using p(1) by (rule memView_key)
  with p show ?thesis unfolding resizeEff_def s' memView_put by (auto simp: withResources_def)
qed

lemma mem_laws:
  "writeLaw memView (withFaults (memCreate ob)) (createEff id ob)"
  "writeLaw memView (withFaults (memUpdate ob)) (updateEff id ob)"
  "writeLaw memView (withFaults (memStatusUpdate ob)) (statusEff ob)"
  "writeLaw memView (withFaults (memDelete force k)) (\<lambda>_. deleteEff k)"
  "writeLaw memView (withFaults (memPatch ob ob2)) (patchEff ob ob2)"
  "writeLaw memView (withFaults (memResize k i rr)) (\<lambda>_. resizeEff k i rr)"
  subgoal
    by (rule writeLaw_withFaults)
      (auto simp: memCreate_def createEff_def Let_def memView_put keyOf_withMeta createStored_mem
        split: option.splits)
  subgoal
    by (rule writeLaw_withFaults, erule memUpdate_eff)
      (auto simp: memUpdate_def Let_def split: option.splits if_splits)
  subgoal
    by (rule writeLaw_withFaults, erule memStatusUpdate_eff)
      (auto simp: memStatusUpdate_def Let_def split: option.splits if_splits)
  subgoal
    by (rule writeLaw_withFaults, erule memDelete_eff)
      (auto simp: memDelete_def split: option.splits if_splits)
  subgoal
    by (rule writeLaw_withFaults)
      (auto simp: memPatch_def patchEff_def Let_def memView_put keyOf_withMeta patchStored_mem
        split: option.splits if_splits)
  subgoal
    by (rule writeLaw_withFaults, erule memResize_eff)
      (auto simp: memResize_def split: option.splits if_splits obj.splits)
  done

lemma withFaults_cases:
  assumes "withFaults m s = (r, s')"
  obtains (served) t where "m_store t = m_store s" "m t = (r, s')"
  | (fault) msg where "r = Inl (ApiOther msg)" "m_store s' = m_store s"
proof (cases "m_faults s")
  case Nil
  with assms served show ?thesis by (simp add: withFaults_def)
next
  case (Cons f fs)
  with assms served [of "s\<lparr>m_faults := fs\<rparr>"] fault show ?thesis
    by (cases f) (auto simp: withFaults_def)
qed

lemma memView_store: "m_store s = m_store t \<Longrightarrow> memView s = memView t"
  by (rule ext) (simp add: memView_def)

lemma withFaults_served:
  assumes "withFaults m s = (r, s')" and "\<And>msg. r \<noteq> Inl (ApiOther msg)"
  obtains t where "m_store t = m_store s" "m t = (r, s')" "memView t = memView s"
  using assms by (cases rule: withFaults_cases) (auto dest: memView_store)

lemma memGet_laws:
  assumes "withFaults (memGet k) s = (r, s')"
  shows "memView s' = memView s" and "r = Inr ob \<Longrightarrow> memView s k = Some ob"
    and "r = Inl NotFound \<Longrightarrow> memView s k = None"
  using assms
  by (cases rule: withFaults_cases; auto simp: memGet_def dest: memView_store split: option.splits)+

lemma memList_laws:
  assumes "withFaults (memList kd ns sel) s = (r, s')"
  shows "memView s' = memView s"
    and "r = Inr os \<Longrightarrow> ob \<in> set os \<longleftrightarrow> (memView s (keyOf ob) = Some ob \<and> kindOf ob = kd \<and>
        (ns = [] \<or> Namespace (objMeta ob) = ns) \<and> matchLabels sel ob)"
    and "r = Inr os \<Longrightarrow> distinct (map keyOf os)"
    and "r \<noteq> Inl NotFound"
  using assms
  by (cases rule: withFaults_cases;
      auto simp: memList_def set_firsts memView_def distinct_firsts distinct_map_filter dest: memView_store)+

interpretation mem: kube_api memKube memView id
proof (unfold_locales, goal_cases)
  case 1 then show ?case by (rule memView_key)
next
  case 2 then show ?case by (simp add: memKube_def memGet_laws)
next
  case 3 then show ?case by (simp add: memKube_def memGet_laws)
next
  case 4 then show ?case by (simp add: memKube_def memGet_laws)
next
  case 5 then show ?case by (simp add: memKube_def memList_laws)
next
  case 6 then show ?case by (simp add: memKube_def memList_laws)
next
  case 7 then show ?case by (simp add: memKube_def memList_laws)
next
  case (8 kd ns sel s s')
  show ?case using memList_laws(4) [of kd ns sel s "Inl NotFound" s'] by (auto simp: memKube_def)
next
  case 9 then show ?case by (simp add: memKube_def mem_laws)
next
  case (10 ob s s')
  then have "withFaults (memCreate ob) s = (Inl AlreadyExists, s')" by (simp add: memKube_def)
  then show ?case
    by (rule withFaults_served) (auto simp: memCreate_def Let_def split: option.splits)
next
  case 11 then show ?case by (simp add: memKube_def mem_laws)
next
  case 12 then show ?case by (simp add: memKube_def mem_laws)
next
  case 13 then show ?case by (simp add: memKube_def mem_laws)
next
  case (14 force k s s')
  then have "withFaults (memDelete force k) s = (Inl NotFound, s')" by (simp add: memKube_def)
  then show ?case
    by (rule withFaults_served) (auto simp: memDelete_def split: option.splits if_splits)
next
  case 15 then show ?case by (simp add: memKube_def mem_laws)
next
  case 16 then show ?case by (simp add: memKube_def mem_laws)
next
  case 17 then show ?case by (simp add: memKube_def)
next
  case 18 then show ?case by (auto simp: memKube_def)
next
  case 19 then show ?case by (auto simp: memKube_def)
qed

interpretation mem: kube_live memKube memView id memOk
  by unfold_locales
    (auto simp: memKube_def memOk_def withFaults_def memGet_def memList_def memCreate_def memUpdate_def
      memStatusUpdate_def memDelete_def put_def remove_def Let_def)

end
