(* ===== verification/Ensure.thy ===== *)
theory Ensure
  imports MemKube
begin

text \<open>
  Creating an object that is not there yet: the pattern of the controllers for everything that stands
  around the units (services, configuration, certificates, accounts). The code reads the object and
  creates it if the answer is NotFound; some callers tolerate that another client was faster.
\<close>

section \<open>Typed reads\<close>

definition asSecret :: "obj \<Rightarrow> secret option" where
  "asSecret ob = (case ob of OAux (ASecret x) \<Rightarrow> Some x | _ \<Rightarrow> None)"

definition asPodMonitor :: "obj \<Rightarrow> podMonitor option" where
  "asPodMonitor ob = (case ob of OAux (APodMonitor x) \<Rightarrow> Some x | _ \<Rightarrow> None)"

definition asProject :: "obj \<Rightarrow> Project option" where
  "asProject ob = (case ob of OAux (AProject x) \<Rightarrow> Some x | _ \<Rightarrow> None)"

definition asGrpcCall :: "obj \<Rightarrow> GrpcCall option" where
  "asGrpcCall ob = (case ob of OAux (AGrpcCall x) \<Rightarrow> Some x | _ \<Rightarrow> None)"

definition asAux :: "obj \<Rightarrow> aux option" where
  "asAux ob = (case ob of OAux x \<Rightarrow> Some x | _ \<Rightarrow> None)"

lemma as_aux_iffs [simp]:
  "asSecret ob = Some s \<longleftrightarrow> ob = OAux (ASecret s)"
  "asPodMonitor ob = Some m \<longleftrightarrow> ob = OAux (APodMonitor m)"
  "asProject ob = Some p \<longleftrightarrow> ob = OAux (AProject p)"
  "asGrpcCall ob = Some g \<longleftrightarrow> ob = OAux (AGrpcCall g)"
  "asAux ob = Some a \<longleftrightarrow> ob = OAux a"
  by (auto simp: asSecret_def asPodMonitor_def asProject_def asGrpcCall_def asAux_def split: obj.splits aux.splits)

definition getSecret :: "'s kube \<Rightarrow> string \<Rightarrow> string \<Rightarrow> ('s, secret) act" where
  "getSecret K ns n = getAs asSecret K (KSecret, ns, n)"

definition getProject :: "'s kube \<Rightarrow> string \<Rightarrow> ('s, Project) act" where
  "getProject K n = getAs asProject K (KProject, [], n)"

definition getPodMonitor :: "'s kube \<Rightarrow> string \<Rightarrow> string \<Rightarrow> ('s, podMonitor) act" where
  "getPodMonitor K ns n = getAs asPodMonitor K (KPodMonitor, ns, n)"

definition getGrpcCall :: "'s kube \<Rightarrow> string \<Rightarrow> string \<Rightarrow> ('s, GrpcCall) act" where
  "getGrpcCall K ns n = getAs asGrpcCall K (KGrpcCall, ns, n)"

text \<open>The objects that are only tested for existence.\<close>

definition getAux :: "'s kube \<Rightarrow> kind \<Rightarrow> string \<Rightarrow> string \<Rightarrow> ('s, aux) act" where
  "getAux K kd ns n = getAs asAux K (kd, ns, n)"

lemma auxKind_iffs:
  "auxKind a = KSecret \<longleftrightarrow> (\<exists>x. a = ASecret x)" "auxKind a = KPodMonitor \<longleftrightarrow> (\<exists>x. a = APodMonitor x)"
  "auxKind a = KProject \<longleftrightarrow> (\<exists>x. a = AProject x)" "auxKind a = KGrpcCall \<longleftrightarrow> (\<exists>x. a = AGrpcCall x)"
  by (cases a; simp)+

lemma kindOf_iffs:
  "kindOf ob = KSecret \<longleftrightarrow> (\<exists>x. ob = OAux (ASecret x))" "kindOf ob = KPodMonitor \<longleftrightarrow> (\<exists>x. ob = OAux (APodMonitor x))"
  "kindOf ob = KProject \<longleftrightarrow> (\<exists>x. ob = OAux (AProject x))" "kindOf ob = KGrpcCall \<longleftrightarrow> (\<exists>x. ob = OAux (AGrpcCall x))"
  "kindOf ob = KConfigMap \<longleftrightarrow> (\<exists>x. ob = OConfigMap x)" "kindOf ob = KService \<longleftrightarrow> (\<exists>x. ob = OService x)"
  by (cases ob; simp add: auxKind_iffs)+

section \<open>Creating what is missing\<close>

definition createStrict :: "'s kube \<Rightarrow> obj \<Rightarrow> (error \<Rightarrow> error) \<Rightarrow> ('s, unit) act" where
  "createStrict K ob wrap = thenA (mapErr wrap (createObj K ob)) (ret ())"

definition createTolerant :: "'s kube \<Rightarrow> obj \<Rightarrow> (error \<Rightarrow> error) \<Rightarrow> ('s, unit) act" where
  "createTolerant K ob wrap =
     tryA (createObj K ob) (\<lambda>r. case r of
        Inr _ \<Rightarrow> ret ()
      | Inl e \<Rightarrow> if IsAlreadyExists e then ret () else fail (wrap e))"

definition ensure :: "('s, 'a) act \<Rightarrow> ('s, unit) act \<Rightarrow> (error \<Rightarrow> error) \<Rightarrow> ('s, unit) act" where
  "ensure get create wrap =
     tryA get (\<lambda>r. case r of
        Inr _ \<Rightarrow> ret ()
      | Inl e \<Rightarrow> if IsNotFound e then create else fail (wrap e))"

context kube_api
begin

lemma keeps_aux_reads [triple_rules]:
  "keeps (\<lambda>s. P (view s)) (getSecret K ns n)" "keeps (\<lambda>s. P (view s)) (getProject K n)"
  "keeps (\<lambda>s. P (view s)) (getPodMonitor K ns n)" "keeps (\<lambda>s. P (view s)) (getGrpcCall K ns n)"
  "keeps (\<lambda>s. P (view s)) (getAux K kd ns n)"
  unfolding getSecret_def getProject_def getPodMonitor_def getGrpcCall_def getAux_def by (rule keeps_getAs)+

lemma keeps_frame_aux_reads [triple_rules]:
  "keeps (frame view A v) (getSecret K ns n)" "keeps (frame view A v) (getProject K n)"
  "keeps (frame view A v) (getPodMonitor K ns n)" "keeps (frame view A v) (getGrpcCall K ns n)"
  "keeps (frame view A v) (getAux K kd ns n)"
  unfolding frame_def by (rule keeps_aux_reads)+

lemma getSecret_Inr:
  assumes "getSecret K ns n s = (Inr x, s')"
  shows "view s (KSecret, ns, n) = Some (OAux (ASecret x))" and "view s' = view s"
  using getAs_Inr [OF assms [unfolded getSecret_def]] by simp_all

lemma getSecret_cases:
  assumes "getSecret K ns n s = (r, s')"
  shows "view s' = view s" and "r = Inl e \<Longrightarrow> IsNotFound e \<Longrightarrow> view s (KSecret, ns, n) = None"
  using getAs_cases [OF assms [unfolded getSecret_def]] by blast+

lemma getProject_Inr:
  assumes "getProject K n s = (Inr x, s')"
  shows "view s (KProject, [], n) = Some (OAux (AProject x))" and "view s' = view s"
  using getAs_Inr [OF assms [unfolded getProject_def]] by simp_all

lemma getGrpcCall_Inr:
  assumes "getGrpcCall K ns n s = (Inr x, s')"
  shows "view s (KGrpcCall, ns, n) = Some (OAux (AGrpcCall x))" and "view s' = view s"
  using getAs_Inr [OF assms [unfolded getGrpcCall_def]] by simp_all

lemma getAux_Inr:
  assumes "getAux K kd ns n s = (Inr x, s')"
  shows "view s (kd, ns, n) = Some (OAux x)" and "view s' = view s"
  using getAs_Inr [OF assms [unfolded getAux_def]] by simp_all

lemma getConfigMap_Inr:
  assumes "getConfigMap K ns n s = (Inr x, s')"
  shows "view s (KConfigMap, ns, n) = Some (OConfigMap x)" and "view s' = view s"
  using getAs_Inr [OF assms [unfolded getConfigMap_def]] by simp_all

lemma getConfigMap_cases:
  assumes "getConfigMap K ns n s = (r, s')"
  shows "view s' = view s" and "r = Inl e \<Longrightarrow> IsNotFound e \<Longrightarrow> view s (KConfigMap, ns, n) = None"
  using getAs_cases [OF assms [unfolded getConfigMap_def]] by blast+

lemma updateConfig_stored:
  assumes "updateObj K (OConfigMap c) s = (Inr ob, s')" and "view s (keyOf (OConfigMap c)) = Some (OConfigMap old)"
    and "DeletionTimestamp (cm_meta old) = None"
  shows "\<exists>c'. view s' (keyOf (OConfigMap c)) = Some (OConfigMap c') \<and> metaEq (cm_meta c) (cm_meta c') \<and>
    mbody (cm_Data c') = mbody (cm_Data c)"
proof -
  have "updateEff wire (OConfigMap c) ob (view s) (view s')"
    using assms(1) by (intro write_Inr [OF update_law]) (simp add: updateObj_def)
  with assms(2,3) have e: "keyOf ob = keyOf (OConfigMap c)" "updStored wire (OConfigMap old) (OConfigMap c) ob"
    "view s' (keyOf (OConfigMap c)) = Some ob" by (auto simp: updateEff_def)
  then obtain c' where "ob = OConfigMap c'" by (auto simp: keyOf_def kindOf_iffs)
  with e show ?thesis by simp
qed

lemma keeps_createStrict [triple_rules]: "keyOf ob \<in> A \<Longrightarrow> keeps (frame view A v) (createStrict K ob wrap)"
  unfolding createStrict_def by (intro keeps_thenA keeps_mapErr keeps_frame_writes keeps_ret)

lemma keeps_createTolerant [triple_rules]: "keyOf ob \<in> A \<Longrightarrow> keeps (frame view A v) (createTolerant K ob wrap)"
  unfolding createTolerant_def
  by (intro keeps_tryA keeps_frame_writes keeps_case_sum keeps_if keeps_ret keeps_fail)

lemma keeps_ensure:
  "keeps I get \<Longrightarrow> keeps I create \<Longrightarrow> keeps I (ensure get create wrap)"
  unfolding ensure_def by (intro keeps_tryA keeps_case_sum keeps_if keeps_ret keeps_fail)

text \<open>A creation that reports success has left an object under the key.\<close>

lemma createStrict_exists:
  assumes "createStrict K ob wrap s = (Inr (), s')"
  shows "\<exists>ob'. createEff wire ob ob' (view s) (view s')"
proof -
  from assms obtain x where "kCreate K ob s = (Inr x, s')"
    by (auto simp: createStrict_def createObj_def thenA_eq_Inr_iff)
  from write_Inr [OF create_law this] show ?thesis ..
qed

lemma createTolerant_exists:
  assumes "createTolerant K ob wrap s = (Inr (), s')"
  shows "(\<exists>ob'. createEff wire ob ob' (view s) (view s')) \<or> view s (keyOf ob) \<noteq> None \<and> view s' = view s"
proof -
  obtain r t where r: "createObj K ob s = (r, t)" by fastforce
  show ?thesis
  proof (cases r)
    case (Inr ob')
    with r assms have "kCreate K ob s = (Inr ob', s')"
      by (auto simp: createTolerant_def) (simp add: createObj_def)
    from write_Inr [OF create_law this] show ?thesis by blast
  next
    case (Inl e)
    with r assms have "IsAlreadyExists e" and t: "s' = t"
      by (auto simp: createTolerant_def split: if_splits)
    with r Inl have c: "kCreate K ob s = (Inl AlreadyExists, s')"
      by (auto simp: createObj_def act_simps)
    have "view s' = view s" using create_law c unfolding writeLaw_def by blast
    with create_exists [OF c] show ?thesis by simp
  qed
qed

lemma created_key: "createEff wire ob ob' v v' \<Longrightarrow> v' (keyOf ob) = Some ob'"
  by (simp add: createEff_def)

lemma ensure_exists:
  assumes get: "\<And>s x s'. get s = (Inr x, s') \<Longrightarrow> view s (keyOf ob) \<noteq> None \<and> view s' = view s"
    and create: "create = createTolerant K ob wrap \<or> create = createStrict K ob wrap"
    and run: "ensure get create wrap' s = (Inr (), s')"
  shows "view s' (keyOf ob) \<noteq> None"
proof -
  obtain r t where r: "get s = (r, t)" by fastforce
  show ?thesis
  proof (cases r)
    case (Inr x)
    with r run get [of s x t] show ?thesis by (simp add: ensure_def)
  next
    case (Inl e)
    with r run have "create t = (Inr (), s')" by (auto simp: ensure_def split: if_splits)
    with create createTolerant_exists createStrict_exists created_key show ?thesis by fastforce
  qed
qed

end

end
