(* ===== verification/UnitSetConfig.thy ===== *)
theory UnitSetConfig
  imports Ensure
begin

text \<open>
  The config maps of a UnitSet (\<open>src/pkg/controller/unitset/unitset_configmap.go\<close> and
  \<open>src/pkg/utils/config\<close>): a template for the set and a value map per unit, copied from the manager's
  namespace and brought to the version of the spec. A value map that was customised keeps its own
  settings on top of the new template.
\<close>

section \<open>Configurations\<close>

text \<open>
  \<open>viper\<close> and the YAML encoder are third-party code: reading a text, the leaf keys, reading and setting
  a key, and the text of all settings.
\<close>

record ('c, 'v) viper =
  vRead :: "string \<Rightarrow> error + 'c"
  vKeys :: "'c \<Rightarrow> string list"
  vGet :: "'c \<Rightarrow> string \<Rightarrow> 'v"
  vSet :: "string \<Rightarrow> 'v \<Rightarrow> 'c \<Rightarrow> 'c"
  vMarshal :: "'c \<Rightarrow> error + string"

definition NewViper :: "('c, 'v) viper \<Rightarrow> string \<Rightarrow> error + 'c" where
  "NewViper Y originConfig = (case vRead Y originConfig of Inl e \<Rightarrow> Inl (Fmt ''viper read origin config ERROR'' e) | Inr c \<Rightarrow> Inr c)"

definition Viper2String :: "('c, 'v) viper \<Rightarrow> 'c \<Rightarrow> error + string" where
  "Viper2String Y c = (case vMarshal Y c of Inl e \<Rightarrow> Inl (Fmt ''unable to marshal config to YAML'' e) | Inr s \<Rightarrow> Inr s)"

text \<open>
  Keys are paths with the delimiter dot and are compared without regard to case; setting a key may
  change its ancestors and descendants.
\<close>

definition lowerKey :: "string \<Rightarrow> string" where
  "lowerKey = map (\<lambda>c. if 65 \<le> (of_char c :: nat) \<and> (of_char c :: nat) \<le> 90 then char_of ((of_char c :: nat) + 32) else c)"

definition ancestorKey :: "string \<Rightarrow> string \<Rightarrow> bool" where
  "ancestorKey k k' \<longleftrightarrow> take (Suc (length k)) k' = k @ ''.''"

definition relatedKeys :: "string \<Rightarrow> string \<Rightarrow> bool" where
  "relatedKeys k k' \<longleftrightarrow> lowerKey k = lowerKey k' \<or> ancestorKey (lowerKey k) (lowerKey k') \<or> ancestorKey (lowerKey k') (lowerKey k)"

locale viper_laws =
  fixes Y :: "('c, 'v) viper"
  assumes get_set: "vGet Y (vSet Y k x c) k = x"
    and get_set_other: "\<not> relatedKeys k k' \<Longrightarrow> vGet Y (vSet Y k x c) k' = vGet Y c k'"
    and leaf_keys: "vRead Y s = Inr c \<Longrightarrow> k \<in> set (vKeys Y c) \<Longrightarrow> k' \<in> set (vKeys Y c) \<Longrightarrow> k \<noteq> k' \<Longrightarrow> \<not> relatedKeys k k'"

definition overlay :: "('c, 'v) viper \<Rightarrow> 'c \<Rightarrow> 'c \<Rightarrow> 'c" where
  "overlay Y original template = foldl (\<lambda>c k. vSet Y k (vGet Y original k) c) template (vKeys Y original)"

section \<open>Operations\<close>

text \<open>The three texts: the new template, the old template (empty if it is not found), the current value.\<close>

definition mergedValue :: "('c, 'v) viper \<Rightarrow> string \<Rightarrow> string \<Rightarrow> string \<Rightarrow> error + string" where
  "mergedValue Y newTemplate oldTemplate original =
     (if oldTemplate \<noteq> [] \<and> oldTemplate = original then Inr newTemplate
      else case NewViper Y original of
        Inl e \<Rightarrow> Inl (Fmt ''[reconcileConfigTemplateValue] [UPDATE] get new viper failed'' e)
      | Inr o' \<Rightarrow>
          (case NewViper Y newTemplate of
             Inl e \<Rightarrow> Inl (Fmt ''[reconcileConfigTemplateValue] [UPDATE] get new viper failed'' e)
           | Inr t \<Rightarrow>
               (case Viper2String Y (overlay Y o' t) of
                  Inl e \<Rightarrow> Inl (Fmt ''[reconcileConfigTemplateValue] [UPDATE] configer to string failed'' e)
                | Inr s \<Rightarrow> Inr s)))"

definition oldTemplateValueName :: "UnitSet \<Rightarrow> string \<Rightarrow> string" where
  "oldTemplateValueName unitset oldVersion =
     (if Edition (us_Spec unitset) = [] then Type (us_Spec unitset) @ ''-'' @ oldVersion @ ''-config-value''
      else Type (us_Spec unitset) @ ''-'' @ Edition (us_Spec unitset) @ ''-'' @ oldVersion @ ''-config-value'')"

definition newConfig :: "ext \<Rightarrow> string \<Rightarrow> UnitSet \<Rightarrow> string \<Rightarrow> configMap \<Rightarrow> configMap" where
  "newConfig X ns unitset name template =
     \<lparr>cm_meta = meta0\<lparr>Name := name, Namespace := ns, Labels := Labels (us_meta unitset),
        Annotations := mput AnnotationMainContainerVersion (Version (us_Spec unitset)) (Some fmempty),
        OwnerReferences := [newControllerRef X (us_meta unitset) ''UnitSet'']\<rparr>,
      cm_Data = cm_Data template\<rparr>"

text \<open>Read the config map, or create it as a copy of the template in the manager's namespace.\<close>

definition configFor ::
  "'s kube \<Rightarrow> ext \<Rightarrow> vars \<Rightarrow> string \<Rightarrow> UnitSet \<Rightarrow> string \<Rightarrow> string \<Rightarrow> (error \<Rightarrow> error) \<Rightarrow> ('s, configMap) act" where
  "configFor K X V ns unitset name templateName wrap =
     tryA (getConfigMap K ns name) (\<lambda>r. case r of
        Inr cm \<Rightarrow> ret cm
      | Inl e \<Rightarrow>
          if \<not> IsNotFound e then fail (Fmt ''[CREATE] get config cm error'' e)
          else bindA (mapErr wrap (getConfigMap K (ManagerNamespace V) templateName)) (\<lambda>template.
            let cm = newConfig X ns unitset name template in
            tryA (createObj K (OConfigMap cm)) (\<lambda>c. case c of
               Inl e \<Rightarrow> if IsAlreadyExists e then ret cm else fail (Fmt ''[CREATE] create config cm error'' e)
             | Inr ob \<Rightarrow> ret (case asConfigMap ob of Some cm' \<Rightarrow> cm' | None \<Rightarrow> cm))))"

definition configVersion :: "configMap \<Rightarrow> string" where
  "configVersion cm = mstr (Annotations (cm_meta cm)) AnnotationMainContainerVersion"

definition atVersion :: "UnitSet \<Rightarrow> configMap \<Rightarrow> configMap" where
  "atVersion unitset cm = cm\<lparr>cm_meta := (cm_meta cm)\<lparr>Annotations :=
     mput AnnotationMainContainerVersion (Version (us_Spec unitset)) (Annotations (cm_meta cm))\<rparr>\<rparr>"

text \<open>A failed read of the old template counts as an empty text.\<close>

definition oldTemplateContent :: "'s kube \<Rightarrow> vars \<Rightarrow> UnitSet \<Rightarrow> string \<Rightarrow> ('s, string) act" where
  "oldTemplateContent K V unitset oldVersion =
     tryA (getConfigMap K (ManagerNamespace V) (oldTemplateValueName unitset oldVersion)) (\<lambda>r.
       ret (case r of Inl _ \<Rightarrow> [] | Inr old \<Rightarrow> mstr (cm_Data old) (Type (us_Spec unitset))))"

definition updateConfigValue ::
  "'s kube \<Rightarrow> ('c, 'v) viper \<Rightarrow> vars \<Rightarrow> UnitSet \<Rightarrow> configMap \<Rightarrow> ('s, unit) act" where
  "updateConfigValue K Y V unitset cm =
     bindA (mapErr (Fmt ''[reconcileConfigTemplateValue] [UPDATE] get template config value cm error'')
              (getConfigMap K (ManagerNamespace V) (TemplateConfigValueName unitset))) (\<lambda>template.
       case mfind (cm_Data template) (Type (us_Spec unitset)) of
         None \<Rightarrow> ret ()
       | Some content \<Rightarrow>
           bindA (case mfind (cm_Data cm) (Type (us_Spec unitset)) of
                    None \<Rightarrow> ret content
                  | Some original \<Rightarrow>
                      bindA (oldTemplateContent K V unitset (configVersion cm)) (\<lambda>old. liftE (mergedValue Y content old original)))
             (\<lambda>value.
               thenA (mapErr (Fmt ''[reconcileConfigTemplateValue] [UPDATE] update config value cm error'')
                        (updateObj K (OConfigMap (atVersion unitset (cm\<lparr>cm_Data := mput (Type (us_Spec unitset)) value (cm_Data cm)\<rparr>)))))
                 (ret ())))"

definition reconcileConfigTemplateValue ::
  "'s kube \<Rightarrow> ('c, 'v) viper \<Rightarrow> ext \<Rightarrow> vars \<Rightarrow> string \<Rightarrow> UnitSet \<Rightarrow> string \<Rightarrow> ('s, unit) act" where
  "reconcileConfigTemplateValue K Y X V ns unitset unitName =
     (if unitName = [] then ret ()
      else bindA (configFor K X V ns unitset (ConfigValueName unitset unitName) (TemplateConfigValueName unitset)
                   (Fmt ''[reconcileConfigTemplateValue] [CREATE] get template config value cm error'')) (\<lambda>cm.
        whenA (configVersion cm \<noteq> Version (us_Spec unitset)) (updateConfigValue K Y V unitset cm)))"

definition reconcileConfigTemplate :: "'s kube \<Rightarrow> ext \<Rightarrow> vars \<Rightarrow> string \<Rightarrow> UnitSet \<Rightarrow> ('s, unit) act" where
  "reconcileConfigTemplate K X V ns unitset =
     bindA (configFor K X V ns unitset (ConfigTemplateName unitset) (TemplateConfigTemplateName unitset) id) (\<lambda>cm.
       whenA (configVersion cm \<noteq> Version (us_Spec unitset))
         (bindA (mapErr (Fmt ''[reconcileConfigmap] [UPDATE] get template config template cm error'')
                  (getConfigMap K (ManagerNamespace V) (TemplateConfigTemplateName unitset))) (\<lambda>template.
            thenA (mapErr (Fmt ''[reconcileConfigmap] [UPDATE] update config template cm error'')
                     (updateObj K (OConfigMap (atVersion unitset (cm\<lparr>cm_Data := cm_Data template\<rparr>))))) (ret ()))))"

definition reconcileConfigmap ::
  "'s kube \<Rightarrow> ('c, 'v) viper \<Rightarrow> ext \<Rightarrow> vars \<Rightarrow> string \<Rightarrow> UnitSet \<Rightarrow> ('s, unit) act" where
  "reconcileConfigmap K Y X V ns unitset =
     thenA (reconcileConfigTemplate K X V ns unitset)
       (goAll K (unitNames unitset) (\<lambda>unitName.
          if unitName = [] then ret () else reconcileConfigTemplateValue K Y X V ns unitset unitName))"

section \<open>The overlay\<close>

context viper_laws
begin

lemma fold_other:
  "(\<forall>k' \<in> set ks. \<not> relatedKeys k' k) \<Longrightarrow> vGet Y (foldl (\<lambda>c k. vSet Y k (g k) c) c ks) k = vGet Y c k"
  by (induction ks arbitrary: c) (simp_all add: get_set_other)

lemma fold_in:
  "k \<in> set ks \<Longrightarrow> (\<And>k'. k' \<in> set ks \<Longrightarrow> k' \<noteq> k \<Longrightarrow> \<not> relatedKeys k' k) \<Longrightarrow>
   vGet Y (foldl (\<lambda>c k. vSet Y k (g k) c) c ks) k = g k"
proof (induction ks rule: rev_induct)
  case (snoc x xs)
  show ?case
  proof (cases "k = x")
    case False
    with snoc.prems have "\<not> relatedKeys x k" by auto
    with False snoc show ?thesis by (simp add: get_set_other)
  qed (simp add: get_set)
qed simp

lemma overlay_get:
  assumes "vRead Y s = Inr orig"
  shows "k \<in> set (vKeys Y orig) \<Longrightarrow> vGet Y (overlay Y orig t) k = vGet Y orig k"
    and "(\<forall>k' \<in> set (vKeys Y orig). \<not> relatedKeys k' k) \<Longrightarrow> vGet Y (overlay Y orig t) k = vGet Y t k"
proof -
  show "vGet Y (overlay Y orig t) k = vGet Y orig k" if "k \<in> set (vKeys Y orig)"
    unfolding overlay_def by (rule fold_in [OF that]) (use leaf_keys [OF assms] that in blast)
  show "vGet Y (overlay Y orig t) k = vGet Y t k" if "\<forall>k' \<in> set (vKeys Y orig). \<not> relatedKeys k' k"
    unfolding overlay_def by (rule fold_other [OF that])
qed

text \<open>What a merged text stands for: the settings of the user, and elsewhere those of the template.\<close>

lemma mergedValue_cases:
  assumes "mergedValue Y new old original = Inr value" and "\<not> (old \<noteq> [] \<and> old = original)"
  shows "\<exists>u t c. vRead Y original = Inr u \<and> vRead Y new = Inr t \<and> vMarshal Y c = Inr value \<and>
    (\<forall>k \<in> set (vKeys Y u). vGet Y c k = vGet Y u k) \<and>
    (\<forall>k. (\<forall>k' \<in> set (vKeys Y u). \<not> relatedKeys k' k) \<longrightarrow> vGet Y c k = vGet Y t k)"
proof -
  from assms obtain u t where "vRead Y original = Inr u" "vRead Y new = Inr t" "vMarshal Y (overlay Y u t) = Inr value"
    by (auto simp: mergedValue_def NewViper_def Viper2String_def split: if_splits sum.splits)
  with overlay_get show ?thesis by blast
qed

end

section \<open>Upgrading a value map\<close>

lemma liftE_Inr: "liftE r s = (Inr x, s') \<longleftrightarrow> r = Inr x \<and> s' = s"
  by (cases r) (auto simp: liftE_def)

context kube_api
begin

lemma configFor_found:
  assumes "configFor K X V ns us n tn wrap s = (Inr x, s')" and "view s (KConfigMap, ns, n) = Some (OConfigMap cm)"
  shows "x = cm \<and> view s' = view s"
proof -
  obtain r t where g: "getConfigMap K ns n s = (r, t)" by fastforce
  show ?thesis
  proof (cases r)
    case (Inr y)
    with g getConfigMap_Inr [of ns n s y t] assms show ?thesis by (simp add: configFor_def)
  next
    case (Inl e)
    then have "\<not> IsNotFound e" using getConfigMap_cases(2) [OF g Inl] assms(2) by auto
    with assms(1) g Inl show ?thesis by (simp add: configFor_def)
  qed
qed

lemma oldTemplateContent_Inr:
  assumes "oldTemplateContent K V us ver s = (Inr x, s')"
  shows "view s' = view s" and "x \<noteq> [] \<Longrightarrow> \<exists>old. view s (KConfigMap, ManagerNamespace V, oldTemplateValueName us ver) = Some (OConfigMap old) \<and>
    mfind (cm_Data old) (Type (us_Spec us)) = Some x"
proof -
  obtain r t where g: "getConfigMap K (ManagerNamespace V) (oldTemplateValueName us ver) s = (r, t)" by fastforce
  with assms have t: "s' = t" "x = (case r of Inl _ \<Rightarrow> [] | Inr old \<Rightarrow> mstr (cm_Data old) (Type (us_Spec us)))"
    by (auto simp: oldTemplateContent_def)
  show "view s' = view s" using getConfigMap_cases(1) [OF g] t by simp
  show "\<exists>old. view s (KConfigMap, ManagerNamespace V, oldTemplateValueName us ver) = Some (OConfigMap old) \<and>
    mfind (cm_Data old) (Type (us_Spec us)) = Some x" if "x \<noteq> []"
  proof (cases r)
    case (Inr old)
    with that t(2) have "mfind (cm_Data old) (Type (us_Spec us)) = Some x" by (auto simp: mstr_def split: option.splits)
    with g Inr getConfigMap_Inr(1) show ?thesis by blast
  qed (use that t(2) in simp)
qed

lemma updateConfigValue_stored:
  assumes Y: "viper_laws Y"
    and cm: "view s (keyOf (OConfigMap cm)) = Some (OConfigMap cm)" "DeletionTimestamp (cm_meta cm) = None"
      "mfind (cm_Data cm) (Type (us_Spec us)) = Some original"
    and tm: "view s (KConfigMap, ManagerNamespace V, TemplateConfigValueName us) = Some (OConfigMap template)"
      "mfind (cm_Data template) (Type (us_Spec us)) = Some new"
    and run: "updateConfigValue K Y V us cm s = (Inr (), s')"
  shows "\<exists>cm' value. view s' (keyOf (OConfigMap cm)) = Some (OConfigMap cm') \<and> configVersion cm' = Version (us_Spec us) \<and>
    mfind (cm_Data cm') (Type (us_Spec us)) = Some value \<and>
    (\<forall>k. k \<noteq> Type (us_Spec us) \<longrightarrow> mfind (cm_Data cm') k = mfind (cm_Data cm) k) \<and>
    (value = new \<and> (\<exists>old. view s (KConfigMap, ManagerNamespace V, oldTemplateValueName us (configVersion cm)) = Some (OConfigMap old) \<and>
           mfind (cm_Data old) (Type (us_Spec us)) = Some original) \<or>
     (\<exists>u t c. vRead Y original = Inr u \<and> vRead Y new = Inr t \<and> vMarshal Y c = Inr value \<and>
       (\<forall>k \<in> set (vKeys Y u). vGet Y c k = vGet Y u k) \<and>
       (\<forall>k. (\<forall>k' \<in> set (vKeys Y u). \<not> relatedKeys k' k) \<longrightarrow> vGet Y c k = vGet Y t k)))"
proof -
  from run obtain tp s1 where g: "getConfigMap K (ManagerNamespace V) (TemplateConfigValueName us) s = (Inr tp, s1)"
    by (auto simp: updateConfigValue_def act_eq_iffs)
  have tp: "tp = template" "view s1 = view s" using getConfigMap_Inr [OF g] tm(1) by simp_all
  let ?m = "\<lambda>value. \<exists>u t c. vRead Y original = Inr u \<and> vRead Y new = Inr t \<and> vMarshal Y c = Inr value \<and>
       (\<forall>k \<in> set (vKeys Y u). vGet Y c k = vGet Y u k) \<and>
       (\<forall>k. (\<forall>k' \<in> set (vKeys Y u). \<not> relatedKeys k' k) \<longrightarrow> vGet Y c k = vGet Y t k)"
  let ?c = "\<lambda>value. atVersion us (cm\<lparr>cm_Data := mput (Type (us_Spec us)) value (cm_Data cm)\<rparr>)"
  from run g tp tm(2) cm(3) obtain old s2 v ob where
    oc: "oldTemplateContent K V us (configVersion cm) s1 = (Inr old, s2)" and
    m: "mergedValue Y new old original = Inr v" and
    u: "updateObj K (OConfigMap (?c v)) s2 = (Inr ob, s')"
    by (auto simp: updateConfigValue_def act_eq_iffs liftE_Inr)
  have k: "keyOf (OConfigMap (?c v)) = keyOf (OConfigMap cm)" by (simp add: keyOf_def atVersion_def)
  have v2: "view s2 = view s" using oldTemplateContent_Inr(1) [OF oc] tp by simp
  from updateConfig_stored [OF u] k v2 cm(1,2) obtain cm' where
    c': "view s' (keyOf (OConfigMap cm)) = Some (OConfigMap cm')" "metaEq (cm_meta (?c v)) (cm_meta cm')"
      "mbody (cm_Data cm') = mbody (cm_Data (?c v))" by auto
  have "configVersion cm' = Version (us_Spec us)"
    using c'(2) by (simp add: configVersion_def metaEq_def atVersion_def mstr_def mfind_def)
  moreover have "mfind (cm_Data cm') k = mfind (mput (Type (us_Spec us)) v (cm_Data cm)) k" for k
    using c'(3) by (simp add: mfind_def atVersion_def)
  moreover have merged: "v = new \<and> (\<exists>old. view s (KConfigMap, ManagerNamespace V, oldTemplateValueName us (configVersion cm)) = Some (OConfigMap old) \<and>
           mfind (cm_Data old) (Type (us_Spec us)) = Some original) \<or> ?m v"
  proof (cases "old \<noteq> [] \<and> old = original")
    case True
    with m have "v = new" by (auto simp: mergedValue_def)
    with True oldTemplateContent_Inr(2) [OF oc] tp(2) show ?thesis by auto
  qed (use viper_laws.mergedValue_cases [OF Y m] in blast)
  ultimately show ?thesis
    using c'(1) by (intro exI [of _ cm'] exI [of _ v]) auto
qed

end


text \<open>A configuration format for concrete runs: the text is the only key, with the value \<open>on\<close>.\<close>

definition plainViper :: "((string, string) fmap, string) viper" where
  "plainViper = \<lparr>vRead = (\<lambda>s. Inr (fmupd s ''on'' fmempty)), vKeys = (\<lambda>c. sorted_list_of_fset (fmdom c)),
     vGet = (\<lambda>c k. case fmlookup c k of None \<Rightarrow> [] | Some v \<Rightarrow> v), vSet = fmupd,
     vMarshal = (\<lambda>c. Inr (Join (sorted_list_of_fset (fmdom c)) '';''))\<rparr>"

interpretation plainv: viper_laws plainViper
  by unfold_locales (auto simp: plainViper_def relatedKeys_def split: option.splits)

definition configSet :: UnitSet where
  "configSet = (sampleUnitSet ''db'' 1)\<lparr>us_Spec := (us_Spec (sampleUnitSet ''db'' 1))\<lparr>Version := ''8.1''\<rparr>\<rparr>"

definition valueMap :: "string \<Rightarrow> string \<Rightarrow> string \<Rightarrow> string \<Rightarrow> configMap" where
  "valueMap ns n ver content = \<lparr>cm_meta = meta0\<lparr>Name := n, Namespace := ns, Annotations := mput AnnotationMainContainerVersion ver None\<rparr>,
     cm_Data = mput ''mysql'' content None\<rparr>"

definition configCluster :: mem where
  "configCluster = \<lparr>m_store = [OConfigMap (valueMap ''ns'' ''db-0-config-value'' ''8.0'' ''mine''),
     OConfigMap (valueMap ''upm-system'' ''mysql-8.1-config-value'' ''8.1'' ''default'')], m_rv = 3, m_faults = []\<rparr>"


end
