(* ===== verification/Ordinals.thy ===== *)
theory Ordinals
  imports ApiTypes
begin

text \<open>
  The order in which the units of a set are updated (\<open>src/pkg/controller/unitset/
  unitset_unit_update.go\<close>): \<open>extractUnitOrdinal\<close> reads the number after the last dash of a
  unit name, \<open>sortUnitNamesByOrdinal\<close> puts the highest ordinal first. The comparison is a
  strict total order on strings, so the sorted list is determined by its elements; on the names a
  UnitSet generates it is the reversed list.
\<close>

definition extractUnitOrdinal :: "string \<Rightarrow> int option" where
  "extractUnitOrdinal unitName =
     (case LastIndex (CHR ''-'') unitName of
        None \<Rightarrow> None
      | Some idx \<Rightarrow> if idx = length unitName - 1 then None
                    else Atoi (drop (idx + 1) unitName))"

definition ordinalLess :: "string \<Rightarrow> string \<Rightarrow> bool" where
  "ordinalLess a b =
     (case (extractUnitOrdinal a, extractUnitOrdinal b) of
        (Some i, Some j) \<Rightarrow> if i \<noteq> j then i > j else a > b
      | (Some i, None) \<Rightarrow> True
      | (None, Some j) \<Rightarrow> False
      | (None, None) \<Rightarrow> a > b)"

definition sortUnitNamesByOrdinal :: "string list \<Rightarrow> string list" where
  "sortUnitNamesByOrdinal units = sortStable ordinalLess units"

interpretation ordinal: strict_total_lt ordinalLess
proof
  fix x y z :: string
  show "ordinalLess x y \<Longrightarrow> \<not> ordinalLess y x"
    by (auto simp: ordinalLess_def split: option.splits if_splits)
  show "\<not> ordinalLess y x \<Longrightarrow> \<not> ordinalLess z y \<Longrightarrow> \<not> ordinalLess z x"
    by (auto simp: ordinalLess_def split: option.splits if_splits)
  show "x \<noteq> y \<Longrightarrow> ordinalLess x y \<or> ordinalLess y x"
    by (auto simp: ordinalLess_def split: option.splits)
qed

lemma extractUnitOrdinal_append:
  "CHR ''-'' \<notin> set ds \<Longrightarrow> ds \<noteq> [] \<Longrightarrow> extractUnitOrdinal (base @ CHR ''-'' # ds) = Atoi ds"
  by (simp add: extractUnitOrdinal_def LastIndex_append)

lemma extractUnitOrdinal_name:
  "0 \<le> i \<Longrightarrow> is_int64 i \<Longrightarrow> extractUnitOrdinal (unitNameAt u i) = Some i"
  using extractUnitOrdinal_append [of "Itoa i" "us_Name u"]
  by (simp add: unitNameAt_def Itoa_nat_no_dash Atoi_Itoa)

lemma ordinalLess_names:
  "0 \<le> i \<Longrightarrow> i < j \<Longrightarrow> is_int64 j \<Longrightarrow> ordinalLess (unitNameAt u j) (unitNameAt u i)"
  by (simp add: ordinalLess_def extractUnitOrdinal_name is_int64_def)

lemma sorted_wrt_less_upto: "sorted_wrt (<) [i .. j]"
  by (induction i j rule: upto.induct) (subst upto.simps, auto)

lemma ordered_rev_names:
  assumes "is_int64 (Units (us_Spec u))"
  shows "ordinal.ordered (rev (unitNames u))"
proof -
  have "sorted_wrt (\<lambda>i j. \<not> ordinalLess (unitNameAt u i) (unitNameAt u j)) [0 .. Units (us_Spec u) - 1]"
  proof (rule sorted_wrt_mono_rel [OF _ sorted_wrt_less_upto])
    fix i j assume "i \<in> set [0 .. Units (us_Spec u) - 1]" "j \<in> set [0 .. Units (us_Spec u) - 1]" "i < j"
    with assms have "ordinalLess (unitNameAt u j) (unitNameAt u i)"
      by (intro ordinalLess_names) (auto simp: is_int64_def)
    then show "\<not> ordinalLess (unitNameAt u i) (unitNameAt u j)" by (rule ordinal.lt_asym)
  qed
  then show ?thesis
    by (simp add: ordinal.ordered_def unitNames_eq sorted_wrt_rev sorted_wrt_map)
qed

lemma sort_names:
  "is_int64 (Units (us_Spec u)) \<Longrightarrow> sortUnitNamesByOrdinal (unitNames u) = rev (unitNames u)"
  unfolding sortUnitNamesByOrdinal_def
  by (rule ordinal.sortStable_eq) (auto intro: ordered_rev_names)

lemma sort_idem [simp]:
  "sortUnitNamesByOrdinal (sortUnitNamesByOrdinal xs) = sortUnitNamesByOrdinal xs"
  unfolding sortUnitNamesByOrdinal_def
  by (rule ordinal.sortStable_ordered_id) (rule ordinal.ordered_sortStable)

lemma set_sort [simp]: "set (sortUnitNamesByOrdinal xs) = set xs"
  by (simp add: sortUnitNamesByOrdinal_def)

lemma length_sort [simp]: "length (sortUnitNamesByOrdinal xs) = length xs"
  by (simp add: sortUnitNamesByOrdinal_def)

lemma distinct_sort [simp]: "distinct (sortUnitNamesByOrdinal xs) = distinct xs"
  by (simp add: sortUnitNamesByOrdinal_def)

lemma distinct_unitNames: "is_int64 (Units (us_Spec u)) \<Longrightarrow> distinct (unitNames u)"
  by (auto simp: unitNames_eq distinct_map unitNameAt_inject is_int64_def intro!: inj_onI)

lemma UnitNames_index:
  assumes "is_int64 (Units (us_Spec u))" and "0 \<le> i" and "i < Units (us_Spec u)"
  shows "fmlookup (snd (UnitNames u)) (unitNameAt u i) = Some (Itoa i)"
proof -
  have gen: "fmlookup (fold (\<lambda>i m. fmupd (unitNameAt u i) (Itoa i) m) is m) (unitNameAt u i) =
      (if i \<in> set is then Some (Itoa i) else fmlookup m (unitNameAt u i))"
    if "\<forall>j \<in> set is. is_int64 j" "is_int64 i" for "is" m
    using that by (induction "is" arbitrary: m) (auto simp: unitNameAt_inject)
  show ?thesis
    using assms gen [of "[0 .. Units (us_Spec u) - 1]" fmempty]
    by (auto simp: UnitNames_def Let_def is_int64_def)
qed

text \<open>
  C1 (\<open>sortUnitNamesByOrdinal\<close>): whatever the name of the set, the names it generates are put
  in the order of descending ordinals, that is, reversed, and all of them are distinct.
\<close>

theorem update_order_descending:
  assumes "is_int64 (Units (us_Spec u))"
  shows "sortUnitNamesByOrdinal (unitNames u) = rev (map (unitNameAt u) [0 .. Units (us_Spec u) - 1])
     \<and> distinct (sortUnitNamesByOrdinal (unitNames u))"
  using sort_names [OF assms] distinct_unitNames [OF assms] by (simp add: unitNames_eq [symmetric])

text \<open>Witness of the first property: a set of eleven units, whose name contains dashes.\<close>

theorem update_order_descending_witness:
  "hd (sortUnitNamesByOrdinal (unitNames (sampleUnitSet ''my-db-1'' 11))) = ''my-db-1-10''"
proof -
  have "is_int64 (Units (us_Spec (sampleUnitSet ''my-db-1'' 11)))"
    and "hd (rev (map (unitNameAt (sampleUnitSet ''my-db-1'' 11))
           [0 .. Units (us_Spec (sampleUnitSet ''my-db-1'' 11)) - 1])) = ''my-db-1-10''"
    by code_simp+
  then show ?thesis using update_order_descending by metis
qed

text \<open>
  \<open>sortUnitNamesByOrdinal\<close>: the result depends on the multiset of names only, not on the
  order in which they are given, contains the same names, and sorting again changes nothing.
\<close>

theorem sort_order_independent:
  assumes "mset xs = mset ys"
  shows "sortUnitNamesByOrdinal xs = sortUnitNamesByOrdinal ys
     \<and> mset (sortUnitNamesByOrdinal xs) = mset xs
     \<and> sortUnitNamesByOrdinal (sortUnitNamesByOrdinal xs) = sortUnitNamesByOrdinal xs"
proof -
  have "sortStable ordinalLess xs = sortStable ordinalLess ys"
    by (rule ordinal.sortStable_eq) (simp_all add: ordinal.ordered_sortStable assms)
  then show ?thesis
    using assms sort_idem [of ys] by (simp add: sortUnitNamesByOrdinal_def)
qed

text \<open>Witness of the second property: two orders of three names, one of them without an ordinal.\<close>

theorem sort_order_independent_witness:
  "sortUnitNamesByOrdinal [''db-2'', ''db-x'', ''db-10''] = [''db-10'', ''db-2'', ''db-x'']
   \<and> sortUnitNamesByOrdinal [''db-x'', ''db-10'', ''db-2''] = [''db-10'', ''db-2'', ''db-x'']"
proof -
  have "sortUnitNamesByOrdinal [''db-2'', ''db-x'', ''db-10''] = [''db-10'', ''db-2'', ''db-x'']"
    by code_simp
  moreover have "sortUnitNamesByOrdinal [''db-2'', ''db-x'', ''db-10''] =
      sortUnitNamesByOrdinal [''db-x'', ''db-10'', ''db-2'']"
    using sort_order_independent [of "[''db-2'', ''db-x'', ''db-10'']" "[''db-x'', ''db-10'', ''db-2'']"]
    by simp
  ultimately show ?thesis by simp
qed

end
