(* ===== verification/Webhooks.thy ===== *)
theory Webhooks
  imports ApiTypes
begin

text \<open>
  The admission webhooks of Unit and UnitSet (\<open>src/pkg/webhook/v1alpha2\<close>): the validation of a
  unit's required fields on create and update, and the defaulting of a UnitSet, which adds the two
  finalizers that protect units and config maps.
\<close>

definition validateUnitRequiredFields :: "Unit \<Rightarrow> error + unit" where
  "validateUnitRequiredFields unit =
     (if isBlank (u_ConfigTemplateName (u_Spec unit)) then Inl (Msg ''spec.configTemplateName is required'')
      else if isBlank (u_ConfigValueName (u_Spec unit)) then Inl (Msg ''spec.configValueName is required'')
      else Inr ())"

definition unitValidateCreate :: "Unit \<Rightarrow> error + unit" where
  "unitValidateCreate unit = validateUnitRequiredFields unit"

definition unitValidateUpdate :: "Unit \<Rightarrow> Unit \<Rightarrow> error + unit" where
  "unitValidateUpdate oldUnit newUnit = validateUnitRequiredFields newUnit"

definition unitSetDefault :: "ext \<Rightarrow> UnitSet \<Rightarrow> UnitSet" where
  "unitSetDefault X unitSet =
     (if DeletionTimestamp (us_meta unitSet) \<noteq> None then unitSet
      else unitSet\<lparr>us_meta := AddFinalizer X (AddFinalizer X (us_meta unitSet) FinalizerUnitDelete)
             FinalizerConfigMapDelete\<rparr>)"

lemma finalizers_unitSetDefault:
  assumes "ext_laws X" and "DeletionTimestamp (us_meta u) = None"
  shows "set (Finalizers (us_meta (unitSetDefault X u))) =
    set (Finalizers (us_meta u)) \<union> {FinalizerUnitDelete, FinalizerConfigMapDelete}"
  using assms by (auto simp: unitSetDefault_def ext_laws.Finalizers_Add)

lemma unitSetDefault_idem:
  assumes "ext_laws X"
  shows "unitSetDefault X (unitSetDefault X u) = unitSetDefault X u"
  using assms by (auto simp: unitSetDefault_def ext_laws.AddFinalizer)

lemma unitSetDefault_frame:
  assumes "ext_laws X"
  shows "us_Spec (unitSetDefault X u) = us_Spec u" "us_Status (unitSetDefault X u) = us_Status u"
    "Name (us_meta (unitSetDefault X u)) = Name (us_meta u)"
    "DeletionTimestamp (us_meta (unitSetDefault X u)) = DeletionTimestamp (us_meta u)"
  using assms by (auto simp: unitSetDefault_def ext_laws.AddFinalizer)

end
