(* ===== verification/UnitTemplate.thy ===== *)
theory UnitTemplate
  imports KubeClient Ordinals Webhooks
begin

text \<open>
  How a UnitSet becomes Units (\<open>src/pkg/controller/unitset/unitset_unit.go\<close>, and
  \<open>mergePodTemplate\<close> of \<open>unitset_unit_update.go\<close>): the unit template built from the pod
  template, environment variables by priority, volume mounts, affinity, and the personal part of
  each unit. The order in which Go iterates the map of mounts is an argument.
\<close>

section \<open>Access paths\<close>

abbreviation podSpecOf :: "Unit \<Rightarrow> podSpec" where
  "podSpecOf u \<equiv> t_Spec (Template (u_Spec u))"

definition overPodSpec :: "(podSpec \<Rightarrow> podSpec) \<Rightarrow> Unit \<Rightarrow> Unit" where
  "overPodSpec f = u_Spec_update (Template_update (t_Spec_update f))"

lemma overPodSpec_simps [simp]:
  "podSpecOf (overPodSpec f u) = f (podSpecOf u)" "u_meta (overPodSpec f u) = u_meta u"
  "u_Status (overPodSpec f u) = u_Status u" "u_Name (overPodSpec f u) = u_Name u"
  "VolumeClaimTemplates (u_Spec (overPodSpec f u)) = VolumeClaimTemplates (u_Spec u)"
  "t_Labels (Template (u_Spec (overPodSpec f u))) = t_Labels (Template (u_Spec u))"
  "t_Annotations (Template (u_Spec (overPodSpec f u))) = t_Annotations (Template (u_Spec u))"
  "u_ConfigTemplateName (u_Spec (overPodSpec f u)) = u_ConfigTemplateName (u_Spec u)"
  "u_ConfigValueName (u_Spec (overPodSpec f u)) = u_ConfigValueName (u_Spec u)"
  "Startup (u_Spec (overPodSpec f u)) = Startup (u_Spec u)"
  by (simp_all add: overPodSpec_def u_Name_def)

section \<open>Environment variables\<close>

definition addEnvVar :: "envVar list \<Rightarrow> envVar \<Rightarrow> envVar list" where
  "addEnvVar envs newEnv =
     (if \<exists>env \<in> set envs. e_Name env = e_Name newEnv then envs else envs @ [newEnv])"

definition getFirstEnvs :: "UnitSet \<Rightarrow> envVar list" where
  "getFirstEnvs unitset = Env (us_Spec unitset)"

definition getSecondEnvs :: "envVar list \<Rightarrow> envVar list" where
  "getSecondEnvs mountEnvs = mountEnvs"

definition containerEnvs :: "envVar list \<Rightarrow> envVar list \<Rightarrow> container \<Rightarrow> container" where
  "containerEnvs firstEnvs secondEnvs c =
     (let thirdEnvs = elems (c_Env c);
          needEnvs = foldl addEnvVar (foldl addEnvVar (foldl addEnvVar [] firstEnvs) secondEnvs) thirdEnvs
      in c\<lparr>c_Env := Some needEnvs\<rparr>)"

definition envStep :: "envVar list \<Rightarrow> envVar list \<Rightarrow> podSpec \<Rightarrow> podSpec" where
  "envStep firstEnvs secondEnvs ps =
     ps\<lparr>InitContainers := map (containerEnvs firstEnvs secondEnvs) (InitContainers ps),
        Containers := map (containerEnvs firstEnvs secondEnvs) (Containers ps)\<rparr>"

definition updateContainerEnvs :: "Unit \<Rightarrow> envVar list \<Rightarrow> envVar list \<Rightarrow> Unit" where
  "updateContainerEnvs unit firstEnvs secondEnvs = overPodSpec (envStep firstEnvs secondEnvs) unit"

definition fillEnvs :: "Unit \<Rightarrow> UnitSet \<Rightarrow> envVar list \<Rightarrow> Unit" where
  "fillEnvs unit unitset mountEnvs =
     updateContainerEnvs unit (getFirstEnvs unitset) (getSecondEnvs mountEnvs)"

section \<open>Volumes and mounts\<close>

definition containerAddMounter :: "container \<Rightarrow> volumeMount \<Rightarrow> container" where
  "containerAddMounter c mounter =
     (case c_VolumeMounts c of
        None \<Rightarrow> c\<lparr>c_VolumeMounts := Some [mounter]\<rparr>
      | Some ms \<Rightarrow> if \<exists>existing \<in> set ms. vm_Name existing = vm_Name mounter then c
                   else c\<lparr>c_VolumeMounts := Some (ms @ [mounter])\<rparr>)"

text \<open>The map from names to mounts, as a list with the last mount of each name.\<close>

fun setMount :: "volumeMount list \<Rightarrow> volumeMount \<Rightarrow> volumeMount list" where
  "setMount [] m = [m]"
| "setMount (x # xs) m = (if vm_Name x = vm_Name m then m # xs else x # setMount xs m)"

definition mountsByName :: "volumeMount list \<Rightarrow> volumeMount list" where
  "mountsByName ms = foldl setMount [] ms"

definition volumeStep :: "nat list \<Rightarrow> volumeMount list \<Rightarrow> volume list \<Rightarrow> podSpec \<Rightarrow> podSpec" where
  "volumeStep ord volumeMounts volumes ps =
     (let mounts = map ((!) (mountsByName volumeMounts)) ord;
          addAll = (\<lambda>c. foldl containerAddMounter c mounts)
      in ps\<lparr>Volumes := Volumes ps @ volumes, InitContainers := map addAll (InitContainers ps),
            Containers := map addAll (Containers ps)\<rparr>)"

definition fillVolumeMountsAndVolumes ::
  "nat list \<Rightarrow> Unit \<Rightarrow> volumeMount list \<Rightarrow> volume list \<Rightarrow> Unit" where
  "fillVolumeMountsAndVolumes ord unit volumeMounts volumes =
     overPodSpec (volumeStep ord volumeMounts volumes) unit"

definition volumeKind :: "volume \<Rightarrow> string" where
  "volumeKind vol =
     (if v_Secret vol \<noteq> None then ''Secret'' else if v_ConfigMap vol \<noteq> None then ''ConfigMap'' else ''Other'')"

definition parseSize :: "ext \<Rightarrow> string \<Rightarrow> error + quantity" where
  "parseSize X sz = (case MustParse X sz of None \<Rightarrow> Inl (Panic ''MustParse'') | Some q \<Rightarrow> Inr q)"

definition certificatesOn :: "UnitSet \<Rightarrow> bool" where
  "certificatesOn u \<longleftrightarrow>
     Organizations (CertificateProfile (us_Spec u)) \<noteq> [] \<and> RootSecret (CertificateProfile (us_Spec u)) \<noteq> []"

definition generateVolumeMountsAndEnvs ::
  "ext \<Rightarrow> UnitSet \<Rightarrow> error + volumeMount list \<times> volume list \<times> envVar list \<times> vctemplate list" where
  "generateVolumeMountsAndEnvs X unitset =
     (let sp = us_Spec unitset in
      bindE (mapE (\<lambda>st. bindE (parseSize X (Size st)) (\<lambda>q.
               Inr \<lparr>vct_Name = st_Name st, vct_Labels = None, vct_Annotations = None,
                    vct_Spec = pvcSpec0\<lparr>AccessModes := [''ReadWriteOnce''],
                      pvc_Requests := mput ''storage'' q None,
                      StorageClassName := Some (st_StorageClassName st)\<rparr>\<rparr>)) (Storage sp)) (\<lambda>vcts.
      bindE (mapE (\<lambda>ed. bindE (parseSize X (eds_Size ed)) (\<lambda>q.
               Inr (volume0\<lparr>v_Name := eds_Name ed,
                      v_EmptyDir := Some \<lparr>ed_Medium = [], SizeLimit = Some q\<rparr>\<rparr>))) (EmptyDir sp)) (\<lambda>edvs.
      let storageMounts = map (\<lambda>st. volumeMount0\<lparr>vm_Name := st_Name st, vm_MountPath := st_MountPath st\<rparr>) (Storage sp);
          storageVolumes = map (\<lambda>st. volume0\<lparr>v_Name := st_Name st,
             v_PersistentVolumeClaim := Some \<lparr>ClaimName = [], pvcs_ReadOnly = False\<rparr>\<rparr>) (Storage sp);
          emptyDirMounts = map (\<lambda>ed. volumeMount0\<lparr>vm_Name := eds_Name ed, vm_MountPath := eds_MountPath ed\<rparr>) (EmptyDir sp);
          certMounts = (if certificatesOn unitset
             then [volumeMount0\<lparr>vm_Name := ''certificate'', vm_ReadOnly := True, vm_MountPath := ''/CERT_MOUNT''\<rparr>] else []);
          certVolumes = (if certificatesOn unitset
             then [volume0\<lparr>v_Name := ''certificate'', v_Secret := Some \<lparr>SecretName = [], ss_other = []\<rparr>\<rparr>] else []);
          extraMounts = map (\<lambda>ev. volumeMount0\<lparr>vm_Name := v_Name (ev_Volume ev), vm_MountPath := VolumeMountPath ev\<rparr>) (ExtraVolume sp)
      in Inr (storageMounts @ emptyDirMounts @ certMounts @ extraMounts,
              storageVolumes @ edvs @ certVolumes @ map ev_Volume (ExtraVolume sp), [], vcts))))"

section \<open>Annotations, resources, affinity\<close>

definition storageKey :: "string \<Rightarrow> string" where
  "storageKey n = AnnotationStoragePrefix @ n @ ''.mountPath''"

definition extraVolumeAnnotations :: "extraVolume \<Rightarrow> string gomap \<Rightarrow> string gomap" where
  "extraVolumeAnnotations ev anns =
     (let vol = ev_Volume ev;
          anns1 = (if volumeKind vol = ''Secret''
                   then mput (AnnotationExtraVolumePrefix @ v_Name vol @ ''.secretName'')
                          (case v_Secret vol of Some sec \<Rightarrow> SecretName sec | None \<Rightarrow> []) anns
                   else if volumeKind vol = ''ConfigMap''
                   then mput (AnnotationExtraVolumePrefix @ v_Name vol @ ''.configMapName'')
                          (case v_ConfigMap vol of Some cm \<Rightarrow> cms_Name cm | None \<Rightarrow> []) anns
                   else anns)
      in mput (AnnotationExtraVolumePrefix @ v_Name vol @ ''.volumeMountPath'') (VolumeMountPath ev) anns1)"

definition fillAnnotations :: "ext \<Rightarrow> Unit \<Rightarrow> UnitSet \<Rightarrow> Unit" where
  "fillAnnotations X unit unitset =
     (let sp = us_Spec unitset;
          a0 = minit (Annotations (u_meta unit));
          a1 = fold (\<lambda>st. mput (storageKey (st_Name st)) (st_MountPath st)) (Storage sp) a0;
          a2 = fold (\<lambda>ed. mput (storageKey (eds_Name ed)) (eds_MountPath ed)) (EmptyDir sp) a1;
          a3 = (if certificatesOn unitset
                then mput (AnnotationCertificatePrefix @ ''certORG'')
                       (jsonMarshalStrs X (Organizations (CertificateProfile sp)))
                       (mput (AnnotationCertificatePrefix @ ''certMount'') ''/CERT_MOUNT'' a2)
                else a2);
          a4 = fold extraVolumeAnnotations (ExtraVolume sp) a3
      in unit\<lparr>u_meta := (u_meta unit)\<lparr>Annotations := a4\<rparr>\<rparr>)"

definition orNew :: "'a \<Rightarrow> 'a option \<Rightarrow> 'a" where
  "orNew zero ptr = (case ptr of None \<Rightarrow> zero | Some x \<Rightarrow> x)"

definition nodeAffinityStep :: "UnitSet \<Rightarrow> podSpec \<Rightarrow> podSpec" where
  "nodeAffinityStep unitset ps =
     (let matchExpressions = map (\<lambda>p. \<lparr>req_Key = nap_Key p, req_Operator = ''In'', req_Values = nap_Values p\<rparr>)
            (NodeAffinityPreset (us_Spec unitset))
      in if matchExpressions = [] then ps
         else ps\<lparr>Affinity := Some ((orNew affinity0 (Affinity ps))\<lparr>NodeAffinity :=
                Some (nodeAffinity0\<lparr>na_Required :=
                  Some [\<lparr>nst_MatchExpressions = matchExpressions, nst_other = []\<rparr>]\<rparr>)\<rparr>)\<rparr>)"

definition fillNodeAffinity :: "Unit \<Rightarrow> UnitSet \<Rightarrow> Unit" where
  "fillNodeAffinity unit unitset = overPodSpec (nodeAffinityStep unitset) unit"

definition antiAffinityTerm :: "UnitSet \<Rightarrow> podAffinityTerm" where
  "antiAffinityTerm unitset =
     \<lparr>pat_MatchExpressions = [\<lparr>req_Key = UnitsetName, req_Operator = ''In'', req_Values = [us_Name unitset]\<rparr>],
      pat_TopologyKey = ''kubernetes.io/hostname'', pat_other = []\<rparr>"

definition antiAffinity :: "string \<Rightarrow> UnitSet \<Rightarrow> podSpec \<Rightarrow> podSpec" where
  "antiAffinity whenUnsat unitset ps =
     ps\<lparr>Affinity := Some ((orNew affinity0 (Affinity ps))\<lparr>PodAntiAffinity :=
          Some \<lparr>paa_Required = [antiAffinityTerm unitset], paa_other = []\<rparr>\<rparr>),
        TopologySpreadConstraints := TopologySpreadConstraints ps @
          [\<lparr>MaxSkew = 1, tsc_TopologyKey = ''upm.api/node-group'', WhenUnsatisfiable = whenUnsat,
            tsc_MatchLabels = [(UnitsetName, us_Name unitset)], tsc_other = []\<rparr>]\<rparr>"

definition podAffinityStep :: "UnitSet \<Rightarrow> podSpec \<Rightarrow> podSpec" where
  "podAffinityStep unitset ps =
     (if PodAntiAffinityPreset (us_Spec unitset) = ''soft'' then antiAffinity ''ScheduleAnyway'' unitset ps
      else if PodAntiAffinityPreset (us_Spec unitset) = ''hard'' then antiAffinity ''DoNotSchedule'' unitset ps
      else ps)"

definition fillPodAffinity :: "Unit \<Rightarrow> UnitSet \<Rightarrow> Unit" where
  "fillPodAffinity unit unitset = overPodSpec (podAffinityStep unitset) unit"

definition resFill :: "UnitSet \<Rightarrow> container \<Rightarrow> container" where
  "resFill us c =
     (if c_Name c = Type (us_Spec us) then
        (let c1 = c\<lparr>c_Resources := Resources (us_Spec us)\<rparr>
         in if elems (ResizePolicy (us_Spec us)) \<noteq> [] then c1\<lparr>c_ResizePolicy := ResizePolicy (us_Spec us)\<rparr> else c1)
      else c)"

definition resourceStep :: "UnitSet \<Rightarrow> podSpec \<Rightarrow> podSpec" where
  "resourceStep unitset ps = ps\<lparr>Containers := map (resFill unitset) (Containers ps)\<rparr>"

definition fillResourcesToDefaultContainer :: "Unit \<Rightarrow> UnitSet \<Rightarrow> Unit" where
  "fillResourcesToDefaultContainer unit unitset = overPodSpec (resourceStep unitset) unit"

section \<open>The personal part of a unit\<close>

definition getNodeNameMapFromAnnotations :: "ext \<Rightarrow> UnitSet \<Rightarrow> (string, string) fmap" where
  "getNodeNameMapFromAnnotations X unitset =
     (case mfind (Annotations (us_meta unitset)) AnnotationUnitsetNodeNameMap of
        None \<Rightarrow> fmempty
      | Some data \<Rightarrow> if data = [] then fmempty else jsonUnmarshalMap X data)"

definition requireHost :: "string \<Rightarrow> podSpec \<Rightarrow> podSpec" where
  "requireHost nodeName ps =
     (let term = \<lparr>nst_MatchExpressions =
            [\<lparr>req_Key = ''kubernetes.io/hostname'', req_Operator = ''In'', req_Values = [nodeName]\<rparr>], nst_other = []\<rparr>;
          a = orNew affinity0 (Affinity ps);
          na = orNew nodeAffinity0 (NodeAffinity a);
          terms = (case na_Required na of None \<Rightarrow> [term] | Some ts \<Rightarrow> ts @ [term])
      in ps\<lparr>Affinity := Some (a\<lparr>NodeAffinity := Some (na\<lparr>na_Required := Some terms\<rparr>)\<rparr>)\<rparr>)"

definition nodeNameStep :: "ext \<Rightarrow> UnitSet \<Rightarrow> string \<Rightarrow> podSpec \<Rightarrow> podSpec" where
  "nodeNameStep X unitset unitName ps =
     (case fmlookup (getNodeNameMapFromAnnotations X unitset) unitName of
        None \<Rightarrow> ps
      | Some nodeName \<Rightarrow> if nodeName = NoneSetFlag then ps else requireHost nodeName ps)"

definition fillNodeName :: "ext \<Rightarrow> UnitSet \<Rightarrow> string \<Rightarrow> Unit \<Rightarrow> Unit" where
  "fillNodeName X unitset unitName unit = overPodSpec (nodeNameStep X unitset unitName) unit"

definition fillClaimNames :: "UnitSet \<Rightarrow> Unit \<Rightarrow> Unit" where
  "fillClaimNames unitset unit =
     overPodSpec (\<lambda>ps. ps\<lparr>Volumes := map (\<lambda>v.
       if \<exists>st \<in> set (Storage (us_Spec unitset)). v_Name v = st_Name st
       then v\<lparr>v_PersistentVolumeClaim := Some \<lparr>ClaimName = PersistentVolumeClaimName unit (v_Name v), pvcs_ReadOnly = False\<rparr>\<rparr>
       else v) (Volumes ps)\<rparr>) unit"

definition fillCertificateSecret :: "Unit \<Rightarrow> Unit" where
  "fillCertificateSecret unit =
     overPodSpec (\<lambda>ps. ps\<lparr>Volumes := map (\<lambda>v.
       if v_Name v = ''certificate''
       then v\<lparr>v_Secret := Some \<lparr>SecretName = u_Name unit @ ''-'' @ CertmanagerCertificateSuffix @ ''-'' @
              CertmanagerSecretNameSuffix, ss_other = []\<rparr>\<rparr>
       else v) (Volumes ps)\<rparr>) unit"

definition fillUnitPersonalizedInfo ::
  "ext \<Rightarrow> Unit \<Rightarrow> UnitSet \<Rightarrow> (string, string) fmap \<Rightarrow> string \<Rightarrow> Unit" where
  "fillUnitPersonalizedInfo X unitTemplate unitset unitNamesWithIndex unitName =
     (let unit = overPodSpec (\<lambda>ps. ps\<lparr>Hostname := unitName\<rparr>) unitTemplate;
          m = u_meta unit;
          labels = mput UnitName unitName
             (mput UnitSn (mstr (Some unitNamesWithIndex) unitName)
               (mputAll (Labels (us_meta unitset)) (Labels m)));
          annotations = mputAll (Annotations (us_meta unitset)) (Annotations m);
          unit = unit\<lparr>u_meta := m\<lparr>Labels := labels, Annotations := annotations\<rparr>,
             u_Spec := (u_Spec unit)\<lparr>u_ConfigValueName := ConfigValueName unitset unitName\<rparr>\<rparr>
      in fillCertificateSecret (fillClaimNames unitset (fillNodeName X unitset unitName unit)))"

section \<open>The unit template\<close>

definition withPodTemplate :: "UnitSet \<Rightarrow> string \<Rightarrow> podTemplate \<Rightarrow> Unit \<Rightarrow> Unit" where
  "withPodTemplate unitset ns pt unit =
     unit\<lparr>u_Spec := (u_Spec unit)\<lparr>Template := (Template (u_Spec unit))\<lparr>
       t_Labels := pts_Labels (pt_Template pt), t_Annotations := pts_Annotations (pt_Template pt),
       t_Spec := (pts_Spec (pt_Template pt))\<lparr>Subdomain := HeadlessServiceName unitset,
         EnableServiceLinks := Some True, ServiceAccountName := ns @ ''-serviceaccount''\<rparr>\<rparr>\<rparr>\<rparr>"

definition generateUnitTemplate ::
  "ext \<Rightarrow> nat list \<Rightarrow> string \<Rightarrow> string \<Rightarrow> UnitSet option \<Rightarrow> podTemplate option
    \<Rightarrow> volumeMount list \<Rightarrow> volume list \<Rightarrow> envVar list \<Rightarrow> vctemplate list \<Rightarrow> error + Unit" where
  "generateUnitTemplate X ord reqNamespace unitName unitsetPtr podTemplatePtr volumeMounts volumes envVars pvcs =
     (case unitsetPtr of
        None \<Rightarrow> Inl (Msg ''[generateUnitTemplate] unitset is nil'')
      | Some unitset \<Rightarrow>
     (case podTemplatePtr of
        None \<Rightarrow> Inl (Msg ''[generateUnitTemplate] podTemplate is nil'')
      | Some podTemplate \<Rightarrow>
     (let ref = newControllerRef X (us_meta unitset) ''UnitSet'';
          labels = mput LabelUnitsCount (Itoa (Units (us_Spec unitset)))
             (mput UnitsetName (us_Name unitset) (mputAll (Labels (us_meta unitset)) (Some fmempty)));
          annotations = mput AnnotationMainContainerVersion (Version (us_Spec unitset))
             (mput AnnotationMainContainerName (Type (us_Spec unitset))
               (mputAll (Annotations (us_meta unitset)) (Some fmempty)));
          unit = unit0\<lparr>
             u_meta := meta0\<lparr>Name := unitName, Namespace := reqNamespace, Labels := labels,
               Annotations := annotations, OwnerReferences := [ref],
               Finalizers := [FinalizerPodDelete, FinalizerPvcDelete]\<rparr>,
             u_Spec := unitSpec0\<lparr>Startup := True, u_ConfigTemplateName := ConfigTemplateName unitset,
               FailedPodRecoveryPolicy := Some \<lparr>Enabled = True, ReconcileThreshold = 6\<rparr>,
               VolumeClaimTemplates := pvcs\<rparr>\<rparr>;
          unit = withPodTemplate unitset reqNamespace podTemplate unit;
          unit = fillAnnotations X unit unitset;
          unit = fillVolumeMountsAndVolumes ord unit volumeMounts volumes;
          unit = fillEnvs unit unitset envVars;
          unit = fillResourcesToDefaultContainer unit unitset;
          unit = fillNodeAffinity unit unitset
      in Inr (fillPodAffinity unit unitset))))"

definition mergePodTemplate ::
  "ext \<Rightarrow> nat list \<Rightarrow> string \<Rightarrow> Unit \<Rightarrow> UnitSet \<Rightarrow> podTemplate \<Rightarrow> volumeMount list \<Rightarrow> volume list
    \<Rightarrow> envVar list \<Rightarrow> Unit" where
  "mergePodTemplate X ord reqNamespace kUnit unitset podTemplate volumeMounts volumes envVars =
     (let unit = withPodTemplate unitset reqNamespace podTemplate kUnit;
          unit = overPodSpec (\<lambda>ps. ps\<lparr>Hostname := u_Name unit\<rparr>) unit;
          unit = fillVolumeMountsAndVolumes ord unit volumeMounts volumes;
          unit = fillEnvs unit unitset envVars;
          unit = fillResourcesToDefaultContainer unit unitset;
          unit = fillNodeAffinity unit unitset;
          unit = fillPodAffinity unit unitset
      in fillCertificateSecret (fillClaimNames unitset (fillNodeName X unitset (u_Name unit) unit)))"

definition getPortsFromPodtemplate :: "UnitSet \<Rightarrow> podTemplate \<Rightarrow> containerPort list" where
  "getPortsFromPodtemplate unitset template =
     (case List.find (\<lambda>c. c_Name c = Type (us_Spec unitset)) (Containers (pts_Spec (pt_Template template))) of
        None \<Rightarrow> []
      | Some c \<Rightarrow> elems (c_Ports c))"

section \<open>Environment variables: first occurrence wins\<close>

abbreviation envNames :: "envVar list \<Rightarrow> string list" where
  "envNames es \<equiv> map e_Name es"

definition envFind :: "string \<Rightarrow> envVar list \<Rightarrow> envVar option" where
  "envFind n es = List.find (\<lambda>e. e_Name e = n) es"

lemma envFind_append: "envFind n (xs @ ys) = (case envFind n xs of Some e \<Rightarrow> Some e | None \<Rightarrow> envFind n ys)"
  by (induction xs) (auto simp: envFind_def)

lemma envFind_None: "envFind n es = None \<longleftrightarrow> n \<notin> set (envNames es)"
  by (auto simp: envFind_def find_None_iff)

lemma addEnvVar_alt: "addEnvVar acc x = (if e_Name x \<in> set (envNames acc) then acc else acc @ [x])"
  by (auto simp: addEnvVar_def image_iff) metis

lemma foldl_addEnvVar:
  assumes "distinct (envNames acc)"
  shows "distinct (envNames (foldl addEnvVar acc xs)) \<and>
    envFind n (foldl addEnvVar acc xs) = envFind n (acc @ xs) \<and>
    set (envNames (foldl addEnvVar acc xs)) = set (envNames (acc @ xs))"
  using assms
proof (induction xs arbitrary: acc)
  case (Cons x xs)
  have d: "distinct (envNames (addEnvVar acc x))"
    using Cons.prems by (auto simp: addEnvVar_alt)
  have f: "envFind n (addEnvVar acc x @ xs) = envFind n (acc @ x # xs)"
  proof (cases "e_Name x \<in> set (envNames acc)")
    case True
    then have "envFind (e_Name x) acc \<noteq> None" by (simp add: envFind_None)
    with True show ?thesis
      by (auto simp: addEnvVar_alt envFind_append envFind_def [of n "x # xs"] envFind_def [of n xs]
          split: option.split)
  qed (simp add: addEnvVar_alt)
  have s: "set (envNames (addEnvVar acc x @ xs)) = set (envNames (acc @ x # xs))"
    by (auto simp: addEnvVar_alt)
  show ?case using Cons.IH [OF d] f s by simp
qed simp

lemma foldl_addEnvVar_distinct: "distinct (envNames (acc @ xs)) \<Longrightarrow> foldl addEnvVar acc xs = acc @ xs"
  by (induction xs arbitrary: acc) (auto simp: addEnvVar_alt)

text \<open>The environment of a container after the merge, in terms of the three sources.\<close>

lemma containerEnvs_spec:
  "distinct (envNames (elems (c_Env (containerEnvs f g c))))"
  "envFind n (elems (c_Env (containerEnvs f g c))) = envFind n (f @ g @ elems (c_Env c))"
  using foldl_addEnvVar [of "[]" "f @ g @ elems (c_Env c)"]
  by (simp_all add: containerEnvs_def Let_def)

section \<open>Mounts: independent of the iteration order\<close>

definition mounts :: "container \<Rightarrow> volumeMount list" where
  "mounts c = elems (c_VolumeMounts c)"

abbreviation mountNames :: "volumeMount list \<Rightarrow> string list" where
  "mountNames ms \<equiv> map vm_Name ms"

lemma mounts_containerAddMounter:
  "mounts (containerAddMounter c m) =
     (if vm_Name m \<in> set (mountNames (mounts c)) then mounts c else mounts c @ [m])"
  by (auto simp: mounts_def containerAddMounter_def image_iff split: option.split) metis

lemma fold_mounts_distinct:
  "distinct (mountNames ms) \<Longrightarrow>
   mounts (foldl containerAddMounter c ms) = mounts c @ filter (\<lambda>m. vm_Name m \<notin> set (mountNames (mounts c))) ms"
proof (induction ms arbitrary: c)
  case (Cons m ms)
  have "filter (\<lambda>x. vm_Name x \<notin> insert (vm_Name m) (vm_Name ` set (mounts c))) ms =
      filter (\<lambda>x. vm_Name x \<notin> vm_Name ` set (mounts c)) ms"
    using Cons.prems by (intro filter_cong) (auto, metis imageI)
  with Cons show ?case by (auto simp: mounts_containerAddMounter)
qed simp

lemma mountNames_setMount:
  "vm_Name ` set (setMount ms m) = insert (vm_Name m) (vm_Name ` set ms)"
  "distinct (mountNames ms) \<Longrightarrow> distinct (mountNames (setMount ms m))"
proof -
  show 1: "vm_Name ` set (setMount ms m) = insert (vm_Name m) (vm_Name ` set ms)" for ms
    by (induction ms) auto
  show "distinct (mountNames ms) \<Longrightarrow> distinct (mountNames (setMount ms m))"
    by (induction ms) (use 1 in auto)
qed

lemma mountsByName_spec:
  "distinct (mountNames (mountsByName ms))" "set (mountNames (mountsByName ms)) = set (mountNames ms)"
proof -
  have "distinct (mountNames (foldl setMount acc ms)) \<and>
      set (mountNames (foldl setMount acc ms)) = set (mountNames acc) \<union> set (mountNames ms)"
    if "distinct (mountNames acc)" for acc
    using that by (induction ms arbitrary: acc) (auto simp: mountNames_setMount)
  from this [of "[]"] show "distinct (mountNames (mountsByName ms))"
    and "set (mountNames (mountsByName ms)) = set (mountNames ms)"
    by (simp_all add: mountsByName_def)
qed

lemma mset_permuted: "mset ord = mset [0..<length xs] \<Longrightarrow> mset (map ((!) xs) ord) = mset xs"
  by (metis map_nth mset_map)

lemma mounts_permuted:
  assumes "mset ord = mset [0..<length (mountsByName ms)]"
  shows "mset (mounts (foldl containerAddMounter c (map ((!) (mountsByName ms)) ord))) =
    mset (mounts c) + mset (filter (\<lambda>m. vm_Name m \<notin> set (mountNames (mounts c))) (mountsByName ms))"
proof -
  let ?ps = "map ((!) (mountsByName ms)) ord"
  have p: "mset ?ps = mset (mountsByName ms)" using assms by (rule mset_permuted)
  then have "mset (mountNames ?ps) = mset (mountNames (mountsByName ms))" by (metis mset_map)
  then have "distinct (mountNames ?ps)"
    using mountsByName_spec(1) by (metis distinct_count_atmost_1 set_mset_mset)
  moreover have "mset (filter P ?ps) = mset (filter P (mountsByName ms))" for P
    by (simp only: mset_filter p)
  ultimately show ?thesis by (simp only: fold_mounts_distinct mset_append)
qed

section \<open>The shape of the generated unit\<close>

lemmas fill_defs =
  fillVolumeMountsAndVolumes_def fillEnvs_def updateContainerEnvs_def
  fillResourcesToDefaultContainer_def fillNodeAffinity_def fillPodAffinity_def
  fillNodeName_def fillClaimNames_def fillCertificateSecret_def

lemma meta_fills [simp]:
  "u_meta (fillVolumeMountsAndVolumes ord u ms vs) = u_meta u"
  "u_meta (fillEnvs u us es) = u_meta u" "u_meta (fillResourcesToDefaultContainer u us) = u_meta u"
  "u_meta (fillNodeAffinity u us) = u_meta u" "u_meta (fillPodAffinity u us) = u_meta u"
  "u_meta (fillNodeName X us n u) = u_meta u" "u_meta (fillClaimNames us u) = u_meta u"
  "u_meta (fillCertificateSecret u) = u_meta u" "u_meta (withPodTemplate us ns pt u) = u_meta u"
  by (simp_all add: fill_defs withPodTemplate_def)

definition pinned :: "Unit \<Rightarrow> bool \<times> string \<times> string \<times> vctemplate list \<times> UnitStatus" where
  "pinned u = (Startup (u_Spec u), u_ConfigTemplateName (u_Spec u), u_ConfigValueName (u_Spec u),
     VolumeClaimTemplates (u_Spec u), u_Status u)"

lemma pinned_overPodSpec [simp]: "pinned (overPodSpec f u) = pinned u"
  by (simp add: pinned_def)

lemma pinned_fills [simp]:
  "pinned (fillVolumeMountsAndVolumes ord u ms vs) = pinned u"
  "pinned (fillEnvs u us es) = pinned u" "pinned (fillResourcesToDefaultContainer u us) = pinned u"
  "pinned (fillNodeAffinity u us) = pinned u" "pinned (fillPodAffinity u us) = pinned u"
  "pinned (fillNodeName X us n u) = pinned u" "pinned (fillClaimNames us u) = pinned u"
  "pinned (fillCertificateSecret u) = pinned u" "pinned (withPodTemplate us ns pt u) = pinned u"
  "pinned (fillAnnotations X u us) = pinned u"
  by (simp_all add: fill_defs) (simp_all add: pinned_def withPodTemplate_def fillAnnotations_def Let_def)

text \<open>The pod spec of a unit as a function of the pod template and the UnitSet alone.\<close>

lemma spec_fills:
  "podSpecOf (fillVolumeMountsAndVolumes ord u ms vs) = volumeStep ord ms vs (podSpecOf u)"
  "podSpecOf (fillEnvs u us es) = envStep (Env (us_Spec us)) es (podSpecOf u)"
  "podSpecOf (fillResourcesToDefaultContainer u us) = resourceStep us (podSpecOf u)"
  "podSpecOf (fillNodeAffinity u us) = nodeAffinityStep us (podSpecOf u)"
  "podSpecOf (fillPodAffinity u us) = podAffinityStep us (podSpecOf u)"
  by (simp_all add: fill_defs getFirstEnvs_def getSecondEnvs_def)

lemma containers_affinity [simp]:
  "Containers (nodeAffinityStep us ps) = Containers ps"
  "InitContainers (nodeAffinityStep us ps) = InitContainers ps"
  "Containers (podAffinityStep us ps) = Containers ps"
  "InitContainers (podAffinityStep us ps) = InitContainers ps"
  by (simp_all add: nodeAffinityStep_def podAffinityStep_def antiAffinity_def Let_def)

lemma env_fold_mounts [simp]: "c_Env (foldl containerAddMounter c ms) = c_Env c"
  by (induction ms arbitrary: c) (auto simp: containerAddMounter_def split: option.split)

lemma name_fold_mounts [simp]: "c_Name (foldl containerAddMounter c ms) = c_Name c"
  by (induction ms arbitrary: c) (auto simp: containerAddMounter_def split: option.split)

lemma resFill_simps [simp]:
  "c_Env (resFill us c) = c_Env c" "c_Name (resFill us c) = c_Name c"
  "c_VolumeMounts (resFill us c) = c_VolumeMounts c"
  by (simp_all add: resFill_def Let_def)

lemma containerEnvs_simps [simp]:
  "c_Name (containerEnvs f g c) = c_Name c" "c_VolumeMounts (containerEnvs f g c) = c_VolumeMounts c"
  by (simp_all add: containerEnvs_def Let_def)

definition envOk :: "UnitSet \<Rightarrow> envVar list \<Rightarrow> container \<Rightarrow> container \<Rightarrow> bool" where
  "envOk us es c c' \<longleftrightarrow>
     c_Name c' = c_Name c \<and> distinct (envNames (elems (c_Env c'))) \<and>
     (\<forall>n. envFind n (elems (c_Env c')) = envFind n (Env (us_Spec us) @ es @ elems (c_Env c)))"

lemma list_all2_same_map: "(\<And>x. x \<in> set xs \<Longrightarrow> P x (f x)) \<Longrightarrow> list_all2 P xs (map f xs)"
  by (induction xs) auto

lemma generated_spec:
  assumes "generateUnitTemplate X ord ns name (Some us) (Some pt) ms vs es pvcs = Inr u"
  shows "Containers (podSpecOf u) = map (\<lambda>c. resFill us (containerEnvs (Env (us_Spec us)) es
           (foldl containerAddMounter c (map ((!) (mountsByName ms)) ord)))) (Containers (pts_Spec (pt_Template pt)))"
    and "InitContainers (podSpecOf u) = map (\<lambda>c. containerEnvs (Env (us_Spec us)) es
           (foldl containerAddMounter c (map ((!) (mountsByName ms)) ord))) (InitContainers (pts_Spec (pt_Template pt)))"
  using assms
  by (auto simp: generateUnitTemplate_def Let_def spec_fills fillAnnotations_def withPodTemplate_def
      volumeStep_def envStep_def resourceStep_def)

text \<open>
  C2 (\<open>generateUnitTemplate\<close>, \<open>fillEnvs\<close>, \<open>addEnvVar\<close>): in every container and init
  container of a generated unit each environment variable occurs once, and its value is the one of
  the first source that defines it: the UnitSet, then the volume mounts, then the pod template.
\<close>

theorem generated_env_priority:
  assumes "generateUnitTemplate X ord ns name (Some us) (Some pt) ms vs es pvcs = Inr u"
  shows "list_all2 (envOk us es) (Containers (pts_Spec (pt_Template pt))) (Containers (podSpecOf u)) \<and>
    list_all2 (envOk us es) (InitContainers (pts_Spec (pt_Template pt))) (InitContainers (podSpecOf u))"
proof -
  have 1: "envOk us es c (containerEnvs (Env (us_Spec us)) es (foldl containerAddMounter c xs))" for c xs
    by (simp add: envOk_def containerEnvs_spec)
  then have 2: "envOk us es c (resFill us (containerEnvs (Env (us_Spec us)) es (foldl containerAddMounter c xs)))"
    for c xs by (simp add: envOk_def)
  show ?thesis
    unfolding generated_spec [OF assms] by (intro conjI list_all2_same_map) (simp_all add: 1 2)
qed

text \<open>
  \<open>fillVolumeMountsAndVolumes\<close>: the mounts of a container do not depend on the order in
  which Go iterates the map of mounts, up to their order: the mounts of the pod template stay, in
  front, and each further mount name is added once.
\<close>

theorem mounts_order_independent:
  assumes "mset ord = mset [0..<length (mountsByName ms)]"
  shows "map (\<lambda>c. mset (mounts c)) (Containers (podSpecOf (fillVolumeMountsAndVolumes ord u ms vs))) =
    map (\<lambda>c. mset (mounts c @ filter (\<lambda>m. vm_Name m \<notin> set (mountNames (mounts c))) (mountsByName ms)))
      (Containers (podSpecOf u)) \<and>
    Volumes (podSpecOf (fillVolumeMountsAndVolumes ord u ms vs)) = Volumes (podSpecOf u) @ vs"
  using mounts_permuted [OF assms] by (simp add: spec_fills volumeStep_def Let_def)

text \<open>Witness: the UnitSet overrides one variable of the pod template and adds one.\<close>

definition sampleEnv :: "string \<Rightarrow> string \<Rightarrow> envVar" where
  "sampleEnv n v = \<lparr>e_Name = n, e_Value = v, e_ValueFrom = None\<rparr>"

definition sampleTemplate :: podTemplate where
  "sampleTemplate = \<lparr>pt_meta = meta0, pt_Template = \<lparr>pts_Labels = None, pts_Annotations = None,
     pts_Spec = podSpec0\<lparr>Containers := [container0\<lparr>c_Name := ''mysql'', c_Image := ''mysql:8.0'',
       c_Env := Some [sampleEnv ''A'' ''1'', sampleEnv ''B'' ''2'']\<rparr>]\<rparr>, pts_other = []\<rparr>\<rparr>"

definition sampleEnvSet :: UnitSet where
  "sampleEnvSet = (sampleUnitSet ''db'' 3)\<lparr>us_Spec := (us_Spec (sampleUnitSet ''db'' 3))\<lparr>
     Env := [sampleEnv ''B'' ''9'', sampleEnv ''C'' ''3'']\<rparr>\<rparr>"

theorem generated_env_priority_witness:
  "\<exists>u c. generateUnitTemplate plainExt [] ''ns'' ''db-0'' (Some sampleEnvSet) (Some sampleTemplate) [] [] [] [] = Inr u
     \<and> Containers (podSpecOf u) = [c] \<and> distinct (envNames (elems (c_Env c)))
     \<and> envFind ''B'' (elems (c_Env c)) = Some (sampleEnv ''B'' ''9'')
     \<and> envFind ''A'' (elems (c_Env c)) = Some (sampleEnv ''A'' ''1'')"
proof -
  obtain u where u: "generateUnitTemplate plainExt [] ''ns'' ''db-0'' (Some sampleEnvSet) (Some sampleTemplate) [] [] [] [] = Inr u"
    by (simp add: generateUnitTemplate_def Let_def)
  from generated_env_priority [OF this] obtain c where "Containers (podSpecOf u) = [c]"
    and "envOk sampleEnvSet [] (container0\<lparr>c_Name := ''mysql'', c_Image := ''mysql:8.0'',
       c_Env := Some [sampleEnv ''A'' ''1'', sampleEnv ''B'' ''2'']\<rparr>) c"
    by (auto simp: sampleTemplate_def podSpec0_def list_all2_Cons1)
  with u show ?thesis
    by (auto simp: envOk_def sampleEnvSet_def envFind_def sampleEnv_def)
qed

definition sampleMount :: "string \<Rightarrow> string \<Rightarrow> volumeMount" where
  "sampleMount n p = volumeMount0\<lparr>vm_Name := n, vm_MountPath := p\<rparr>"

theorem mounts_order_independent_witness:
  "map (\<lambda>c. mset (mounts c)) (Containers (podSpecOf (fillVolumeMountsAndVolumes [1, 0]
      (withPodTemplate sampleEnvSet ''ns'' sampleTemplate unit0)
      [sampleMount ''data'' ''/d'', sampleMount ''log'' ''/l'', sampleMount ''data'' ''/x''] []))) =
    [{#sampleMount ''data'' ''/x'', sampleMount ''log'' ''/l''#}]"
proof -
  have ms: "mountsByName [sampleMount ''data'' ''/d'', sampleMount ''log'' ''/l'', sampleMount ''data'' ''/x''] =
      [sampleMount ''data'' ''/x'', sampleMount ''log'' ''/l'']"
    by (simp add: mountsByName_def sampleMount_def)
  show ?thesis
    using mounts_order_independent [of "[1, 0]" "[sampleMount ''data'' ''/d'', sampleMount ''log'' ''/l'', sampleMount ''data'' ''/x'']"
        "withPodTemplate sampleEnvSet ''ns'' sampleTemplate unit0" "[]"]
    unfolding ms by (simp add: upt_rec withPodTemplate_def sampleTemplate_def mounts_def zero_defs add_mset_commute)
qed

section \<open>Creation and update agree\<close>

text \<open>What a unit gets from the UnitSet at creation.\<close>

definition newUnit ::
  "ext \<Rightarrow> UnitSet \<Rightarrow> string \<Rightarrow> Unit \<Rightarrow> Unit" where
  "newUnit X us name t = fillUnitPersonalizedInfo X t us (snd (UnitNames us)) name"

lemma generated_meta:
  assumes "generateUnitTemplate X ord ns name (Some us) (Some pt) ms vs es pvcs = Inr t"
  shows "Name (u_meta t) = name" "Namespace (u_meta t) = ns"
    "Finalizers (u_meta t) = [FinalizerPodDelete, FinalizerPvcDelete]"
    "Labels (u_meta t) = mput LabelUnitsCount (Itoa (Units (us_Spec us)))
       (mput UnitsetName (us_Name us) (mputAll (Labels (us_meta us)) (Some fmempty)))"
    "pinned t = (True, ConfigTemplateName us, [], pvcs, unitStatus0)"
proof -
  obtain base where t: "t = fillPodAffinity (fillNodeAffinity (fillResourcesToDefaultContainer (fillEnvs
      (fillVolumeMountsAndVolumes ord (fillAnnotations X (withPodTemplate us ns pt base) us) ms vs) us es) us) us) us"
    and m: "u_meta base = meta0\<lparr>Name := name, Namespace := ns, Labels := mput LabelUnitsCount
        (Itoa (Units (us_Spec us))) (mput UnitsetName (us_Name us) (mputAll (Labels (us_meta us)) (Some fmempty))),
      Annotations := mput AnnotationMainContainerVersion (Version (us_Spec us))
         (mput AnnotationMainContainerName (Type (us_Spec us)) (mputAll (Annotations (us_meta us)) (Some fmempty))),
      OwnerReferences := [newControllerRef X (us_meta us) ''UnitSet''],
      Finalizers := [FinalizerPodDelete, FinalizerPvcDelete]\<rparr>"
    and p: "pinned base = (True, ConfigTemplateName us, [], pvcs, unitStatus0)"
    using assms unfolding generateUnitTemplate_def Let_def option.case sum.inject
    by (auto simp: pinned_def unit0_def unitSpec0_def)
  show "pinned t = (True, ConfigTemplateName us, [], pvcs, unitStatus0)"
    unfolding t by (simp add: p)
  show "Name (u_meta t) = name" "Namespace (u_meta t) = ns"
    "Finalizers (u_meta t) = [FinalizerPodDelete, FinalizerPvcDelete]"
    "Labels (u_meta t) = mput LabelUnitsCount (Itoa (Units (us_Spec us)))
       (mput UnitsetName (us_Name us) (mputAll (Labels (us_meta us)) (Some fmempty)))"
    unfolding t by (simp_all add: fillAnnotations_def Let_def m)
qed

lemma newUnit_meta:
  "u_meta (newUnit X us name t) = (u_meta t)\<lparr>
     Labels := mput UnitName name (mput UnitSn (mstr (Some (snd (UnitNames us))) name)
       (mputAll (Labels (us_meta us)) (Labels (u_meta t)))),
     Annotations := mputAll (Annotations (us_meta us)) (Annotations (u_meta t))\<rparr>"
  by (simp add: newUnit_def fillUnitPersonalizedInfo_def Let_def)

lemma newUnit_pinned:
  "pinned (newUnit X us name t) =
     (case pinned t of (st, ct, cv, vcts, stat) \<Rightarrow> (st, ct, ConfigValueName us name, vcts, stat))"
  unfolding newUnit_def fillUnitPersonalizedInfo_def Let_def by (simp, simp add: pinned_def)

text \<open>
  C3 (\<open>generateUnitTemplate\<close>, \<open>fillUnitPersonalizedInfo\<close>): the unit created for ordinal
  \<open>i\<close> carries its name, its serial number as a readable label, both finalizers, the label that
  lists it under its set (unless the set's own labels redefine that key), and is accepted by the
  validating webhook.
\<close>

theorem new_unit_identity:
  assumes gen: "generateUnitTemplate X ord ns (unitNameAt us i) (Some us) (Some pt) ms vs es pvcs = Inr t"
    and i: "is_int64 (Units (us_Spec us))" "0 \<le> i" "i < Units (us_Spec us)"
    and u: "u = fillUnitPersonalizedInfo X t us (snd (UnitNames us)) (unitNameAt us i)"
  shows "u_Name u = unitNameAt us i \<and> Namespace (u_meta u) = ns
    \<and> Atoi (mstr (Labels (u_meta u)) UnitSn) = Some i \<and> mstr (Labels (u_meta u)) UnitName = unitNameAt us i
    \<and> Finalizers (u_meta u) = [FinalizerPodDelete, FinalizerPvcDelete]
    \<and> (mfind (Labels (us_meta us)) UnitsetName = None \<longrightarrow> matchLabels [(UnitsetName, us_Name us)] (OUnit u))
    \<and> unitValidateCreate u = Inr ()"
proof -
  have u': "u = newUnit X us (unitNameAt us i) t" by (simp add: u newUnit_def)
  note g = generated_meta [OF gen]
  have sn: "mstr (Some (snd (UnitNames us))) (unitNameAt us i) = Itoa i"
    using UnitNames_index [OF i] by (simp add: mstr_def mfind_def)
  have "u_ConfigTemplateName (u_Spec u) = ConfigTemplateName us"
    and "u_ConfigValueName (u_Spec u) = ConfigValueName us (unitNameAt us i)"
    using newUnit_pinned [of X us "unitNameAt us i" t] g(5) by (auto simp: u' pinned_def)
  then have "unitValidateCreate u = Inr ()"
    using isBlank_no_dash [of "ConfigTemplateName us"] isBlank_no_dash [of "ConfigValueName us (unitNameAt us i)"]
    by (auto simp: unitValidateCreate_def validateUnitRequiredFields_def ConfigTemplateName_def ConfigValueName_def)
  moreover have "is_int64 i" using i by (simp add: is_int64_def)
  ultimately show ?thesis
    by (simp add: u' newUnit_meta g sn u_Name_def Atoi_Itoa matchLabels_def)
qed

definition sampleNewUnit :: "int \<Rightarrow> Unit" where
  "sampleNewUnit i =
     (case generateUnitTemplate plainExt [] ''ns'' (unitNameAt sampleEnvSet i) (Some sampleEnvSet) (Some sampleTemplate) [] [] [] [] of
        Inr t \<Rightarrow> fillUnitPersonalizedInfo plainExt t sampleEnvSet (snd (UnitNames sampleEnvSet)) (unitNameAt sampleEnvSet i)
      | Inl _ \<Rightarrow> unit0)"

theorem new_unit_identity_witness:
  "Atoi (mstr (Labels (u_meta (sampleNewUnit 2))) UnitSn) = Some 2
   \<and> matchLabels [(UnitsetName, ''db'')] (OUnit (sampleNewUnit 2))
   \<and> unitValidateCreate (sampleNewUnit 2) = Inr ()"
proof -
  obtain t where t: "generateUnitTemplate plainExt [] ''ns'' (unitNameAt sampleEnvSet 2) (Some sampleEnvSet) (Some sampleTemplate) [] [] [] [] = Inr t"
    by (simp add: generateUnitTemplate_def Let_def)
  have "is_int64 (Units (us_Spec sampleEnvSet))" "2 < Units (us_Spec sampleEnvSet)"
    "Labels (us_meta sampleEnvSet) = None" "us_Name sampleEnvSet = ''db''"
    by (simp_all add: sampleEnvSet_def sampleUnitSet_def zero_defs is_int64_def us_Name_def)
  with new_unit_identity [OF t, where u = "sampleNewUnit 2"] t show ?thesis
    by (simp add: sampleNewUnit_def)
qed

lemma overPodSpec_comp: "overPodSpec f (overPodSpec g u) = overPodSpec (\<lambda>ps. f (g ps)) u"
  by (simp add: overPodSpec_def comp_def)

lemma hostname_steps:
  "volumeStep ord ms vs (ps\<lparr>Hostname := h\<rparr>) = (volumeStep ord ms vs ps)\<lparr>Hostname := h\<rparr>"
  "envStep f g (ps\<lparr>Hostname := h\<rparr>) = (envStep f g ps)\<lparr>Hostname := h\<rparr>"
  "resourceStep us (ps\<lparr>Hostname := h\<rparr>) = (resourceStep us ps)\<lparr>Hostname := h\<rparr>"
  "nodeAffinityStep us (ps\<lparr>Hostname := h\<rparr>) = (nodeAffinityStep us ps)\<lparr>Hostname := h\<rparr>"
  "podAffinityStep us (ps\<lparr>Hostname := h\<rparr>) = (podAffinityStep us ps)\<lparr>Hostname := h\<rparr>"
  by (simp_all add: volumeStep_def envStep_def nodeAffinityStep_def podAffinityStep_def antiAffinity_def Let_def
      resourceStep_def)

text \<open>Everything of a unit but its pod spec.\<close>

definition shell :: "Unit \<Rightarrow> Unit" where
  "shell u = overPodSpec (\<lambda>_. podSpec0) u"

lemma shell_eqI: "shell u = shell v \<Longrightarrow> podSpecOf u = podSpecOf v \<Longrightarrow> u = v"
  by (cases u; cases v; cases "u_Spec u"; cases "u_Spec v"; cases "Template (u_Spec u)"; cases "Template (u_Spec v)")
    (simp add: shell_def overPodSpec_def)

lemma shell_over [simp]: "shell (overPodSpec f u) = shell u"
  by (simp add: shell_def overPodSpec_comp)

lemma generated_template:
  assumes "generateUnitTemplate X ord ns name (Some us) (Some pt) ms vs es pvcs = Inr t"
  shows "t_Labels (Template (u_Spec t)) = pts_Labels (pt_Template pt)"
    and "t_Annotations (Template (u_Spec t)) = pts_Annotations (pt_Template pt)"
    and "podSpecOf t = podAffinityStep us (nodeAffinityStep us
          (resourceStep us (envStep (Env (us_Spec us)) es
            (volumeStep ord ms vs ((pts_Spec (pt_Template pt))\<lparr>Subdomain := HeadlessServiceName us,
              EnableServiceLinks := Some True, ServiceAccountName := ns @ ''-serviceaccount''\<rparr>)))))"
  using assms
  by (auto simp: generateUnitTemplate_def Let_def fill_defs fillAnnotations_def withPodTemplate_def
      getFirstEnvs_def getSecondEnvs_def)

definition sideSteps :: "ext \<Rightarrow> UnitSet \<Rightarrow> string \<Rightarrow> podSpec \<Rightarrow> podSpec" where
  "sideSteps X us n ps =
     podSpecOf (fillCertificateSecret (fillClaimNames us (fillNodeName X us n
       (overPodSpec (\<lambda>_. ps) (unit0\<lparr>u_meta := meta0\<lparr>Name := n\<rparr>\<rparr>)))))"

lemma sideSteps_eq:
  "u_Name u = n \<Longrightarrow>
   podSpecOf (fillCertificateSecret (fillClaimNames us (fillNodeName X us n u))) = sideSteps X us n (podSpecOf u)"
  by (simp add: sideSteps_def fillCertificateSecret_def fillClaimNames_def fillNodeName_def
      PersistentVolumeClaimName_def u_Name_def)

lemma shell_sides [simp]:
  "shell (fillCertificateSecret (fillClaimNames us (fillNodeName X us n u))) = shell u"
  by (simp add: fillCertificateSecret_def fillClaimNames_def fillNodeName_def)

lemma newUnit_spec:
  assumes "generateUnitTemplate X ord ns name (Some us) (Some pt) ms vs es pvcs = Inr t"
  shows "podSpecOf (newUnit X us name t) = sideSteps X us name ((podSpecOf t)\<lparr>Hostname := name\<rparr>)"
    and "t_Labels (Template (u_Spec (newUnit X us name t))) = pts_Labels (pt_Template pt)"
    and "t_Annotations (Template (u_Spec (newUnit X us name t))) = pts_Annotations (pt_Template pt)"
    and "u_Name (newUnit X us name t) = name"
proof -
  note g = generated_meta [OF assms] generated_template [OF assms]
  show "podSpecOf (newUnit X us name t) = sideSteps X us name ((podSpecOf t)\<lparr>Hostname := name\<rparr>)"
    unfolding newUnit_def fillUnitPersonalizedInfo_def Let_def
    by (subst sideSteps_eq) (simp_all add: u_Name_def g(1))
  show "t_Labels (Template (u_Spec (newUnit X us name t))) = pts_Labels (pt_Template pt)"
    "t_Annotations (Template (u_Spec (newUnit X us name t))) = pts_Annotations (pt_Template pt)"
    by (simp_all add: newUnit_def fillUnitPersonalizedInfo_def Let_def fillCertificateSecret_def
        fillClaimNames_def fillNodeName_def g(6,7))
  show "u_Name (newUnit X us name t) = name" by (simp add: u_Name_def newUnit_meta g(1))
qed

lemma podSpecOf_withPodTemplate:
  "podSpecOf (withPodTemplate us ns pt u) = (pts_Spec (pt_Template pt))\<lparr>Subdomain := HeadlessServiceName us,
     EnableServiceLinks := Some True, ServiceAccountName := ns @ ''-serviceaccount''\<rparr>"
  "u_Name (withPodTemplate us ns pt u) = u_Name u"
  by (simp_all add: withPodTemplate_def u_Name_def)

lemma shell_withPodTemplate:
  "t_Labels (Template (u_Spec u)) = pts_Labels (pt_Template pt) \<Longrightarrow>
   t_Annotations (Template (u_Spec u)) = pts_Annotations (pt_Template pt) \<Longrightarrow>
   shell (withPodTemplate us ns pt u) = shell u"
  by (cases u; cases "u_Spec u"; cases "Template (u_Spec u)")
    (simp add: shell_def overPodSpec_def withPodTemplate_def)



end
