(* ===== verification/ProjectController.thy ===== *)
theory ProjectController
  imports Ensure
begin

text \<open>
  The Project controller (\<open>src/pkg/controller/project\<close>): a project owns the namespace of its name, with
  a certificate authority, a service account and the AES key the agents encrypt with. The key is kept
  in a secret of the namespace and, as a second copy, in an annotation of the project; either copy
  repairs the other. Also the webhook that guards the deletion of a project
  (\<open>src/pkg/webhook/v1alpha2/project_webhook.go\<close>).

  The controller hands its project's label map to the objects it creates and then writes to the map of
  the new object, so the project in memory (the local state) changes too.
\<close>

section \<open>Constants\<close>

definition LabelProjectOwner :: string where "LabelProjectOwner = ''unit-operator/owner''"
definition LabelNamespace :: string where "LabelNamespace = ''unit-operator/namespace''"
definition AnnotationAesSecretKey :: string where
  "AnnotationAesSecretKey = ''unit-operator/secret.aes-secret-key''"
definition FinalizerProtect :: string where "FinalizerProtect = ''unit-operator/protect''"
definition defaultAESSecretKey :: string where "defaultAESSecretKey = ''AES_SECRET_KEY''"

section \<open>Hexadecimal keys\<close>

text \<open>\<open>encoding/hex\<close> on bytes, which are the characters of a string.\<close>

definition hexDigit :: "nat \<Rightarrow> char" where
  "hexDigit n = ''0123456789abcdef'' ! n"

definition fromHexChar :: "char \<Rightarrow> nat option" where
  "fromHexChar c =
     (if CHR ''0'' \<le> c \<and> c \<le> CHR ''9'' then Some (of_char c - 48)
      else if CHR ''a'' \<le> c \<and> c \<le> CHR ''f'' then Some (of_char c - 87)
      else if CHR ''A'' \<le> c \<and> c \<le> CHR ''F'' then Some (of_char c - 55)
      else None)"

fun EncodeToString :: "string \<Rightarrow> string" where
  "EncodeToString [] = []"
| "EncodeToString (b # bs) = hexDigit (of_char b div 16) # hexDigit (of_char b mod 16) # EncodeToString bs"

fun DecodeString :: "string \<Rightarrow> string option" where
  "DecodeString [] = Some []"
| "DecodeString [_] = None"
| "DecodeString (a # b # cs) =
     (case (fromHexChar a, fromHexChar b, DecodeString cs) of
        (Some i, Some j, Some bs) \<Rightarrow> Some (char_of (16 * i + j) # bs)
      | _ \<Rightarrow> None)"

definition isValidHex32 :: "string \<Rightarrow> bool" where
  "isValidHex32 b \<longleftrightarrow> length b = 32 \<and> DecodeString b \<noteq> None"

text \<open>\<open>R\<close> reads sixteen bytes of \<open>crypto/rand\<close>.\<close>

definition generateAES256Key :: "('s, string) act \<Rightarrow> ('s, string) act" where
  "generateAES256Key R = bindA R (\<lambda>raw. ret (EncodeToString raw))"

section \<open>Operations\<close>

definition defaultIfEmpty :: "string \<Rightarrow> string \<Rightarrow> string" where
  "defaultIfEmpty s def = (if s = [] then def else s)"

text \<open>
  The labels of a new object: the project's own map if it has one, with the entries written into
  it; the project shares the map.
\<close>

definition shareLabels :: "(string \<times> string) list \<Rightarrow> (Project \<times> 's, string gomap) act" where
  "shareLabels entries =
     bindA getL (\<lambda>project.
       let own = Labels (proj_meta project);
           labels = foldl (\<lambda>m (k, v). mput k v m) (case own of None \<Rightarrow> Some fmempty | Some _ \<Rightarrow> own) entries
       in thenA (if own = None then ret () else putL (project\<lparr>proj_meta := (proj_meta project)\<lparr>Labels := labels\<rparr>\<rparr>))
            (ret labels))"

definition reconcileNamespace :: "'s kube \<Rightarrow> vars \<Rightarrow> string \<Rightarrow> (Project \<times> 's, unit) act" where
  "reconcileNamespace K V reqName =
     ensure (liftW (getAux K KNamespace [] reqName))
       (bindA (shareLabels [(LabelProjectOwner, ManagerNamespace V)]) (\<lambda>labels.
          liftW (createTolerant K (OAux (ANamespace (meta0\<lparr>Name := reqName, Labels := labels, Annotations := Some fmempty\<rparr>)))
            (Fmt ''[reconcileNamespace] create Namespace error''))))
       (Fmt ''[reconcileNamespace] get Namespace error'')"

definition projectIssuer :: "string \<Rightarrow> issuer" where
  "projectIssuer name = \<lparr>iss_meta = meta0\<lparr>Name := name, Namespace := name\<rparr>, iss_CA = None, iss_SelfSigned = True\<rparr>"

text \<open>An unparsable duration counts as zero: the error of \<open>ParseDuration\<close> is dropped.\<close>

definition projectCertificate :: "ext \<Rightarrow> Project \<Rightarrow> certificate" where
  "projectCertificate X project =
     (let ca = proj_CA project; name = Name (proj_meta project) in
      \<lparr>cert_meta = meta0\<lparr>Name := name, Namespace := name\<rparr>, IsCA = True, CommonName = ca_CommonName ca,
       DNSNames = [], cert_Organizations = None, KeyAlgorithm = pk_Algorithm (ca_PrivateKey ca),
       KeyEncoding = [], KeySize = pk_Size (ca_PrivateKey ca),
       IssuerRef = \<lparr>rr_APIGroup = [], rr_Kind = ''Issuer'', rr_Name = name\<rparr>, cert_SecretName = ca_SecretName ca,
       Duration = ParseDuration X (defaultIfEmpty (ca_Duration ca) ''87600h''),
       RenewBefore = ParseDuration X (defaultIfEmpty (ca_RenewBefore ca) ''2160h'')\<rparr>)"

definition reconcileCA :: "'s kube \<Rightarrow> ext \<Rightarrow> Project \<Rightarrow> ('s, unit) act" where
  "reconcileCA K X project =
     (if \<not> ca_Enabled (proj_CA project) then ret ()
      else let name = Name (proj_meta project) in
        thenA (ensure (getAux K KIssuer name name) (createStrict K (OAux (AIssuer (projectIssuer name))) id) id)
          (ensure (getAux K KCertificate name name)
            (createStrict K (OAux (ACertificate (projectCertificate X project))) id) id))"

definition rule :: "string \<Rightarrow> string \<Rightarrow> string list \<Rightarrow> policyRule" where
  "rule grp resource verbs = \<lparr>APIGroups = [grp], pr_Resources = [resource], Verbs = verbs\<rparr>"

definition projectRules :: "policyRule list" where
  "projectRules =
     [rule [] ''pods'' [''get'', ''list''],
      rule [] ''secrets'' [''get'', ''list'', ''create'', ''patch''],
      rule [] ''configmaps'' [''create'', ''get'', ''list'', ''patch'', ''update''],
      rule ''upm.syntropycloud.io'' ''redisreplications'' [''get'', ''list'', ''patch'', ''update''],
      rule ''upm.syntropycloud.io'' ''units'' [''get'', ''list''],
      rule [] ''events'' [''create'', ''patch'']]"

definition projectMeta :: "string \<Rightarrow> string \<Rightarrow> string gomap \<Rightarrow> meta" where
  "projectMeta ns name labels =
     meta0\<lparr>Name := name, Namespace := ns, Labels := labels, Annotations := Some fmempty\<rparr>"

definition project_reconcileRole :: "'s kube \<Rightarrow> vars \<Rightarrow> string \<Rightarrow> (Project \<times> 's, unit) act" where
  "project_reconcileRole K V reqName =
     ensure (liftW (getAux K KRole reqName (reqName @ ''-role'')))
       (bindA (shareLabels [(LabelProjectOwner, ManagerNamespace V)]) (\<lambda>labels.
          liftW (createTolerant K (OAux (ARole \<lparr>role_meta = projectMeta reqName (reqName @ ''-role'') labels,
            Rules = projectRules\<rparr>)) id)))
       id"

text \<open>The subject's namespace is the namespace of the request, which is empty for a project.\<close>

definition project_reconcileRoleBinding :: "'s kube \<Rightarrow> vars \<Rightarrow> string \<Rightarrow> (Project \<times> 's, unit) act" where
  "project_reconcileRoleBinding K V reqName =
     ensure (liftW (getAux K KRoleBinding reqName (reqName @ ''-rolebinding'')))
       (bindA (shareLabels [(LabelProjectOwner, ManagerNamespace V)]) (\<lambda>labels.
          liftW (createTolerant K (OAux (ARoleBinding \<lparr>rb_meta = projectMeta reqName (reqName @ ''-rolebinding'') labels,
            RoleRef = \<lparr>rr_APIGroup = ''rbac.authorization.k8s.io'', rr_Kind = ''Role'', rr_Name = reqName @ ''-role''\<rparr>,
            Subjects = [\<lparr>subj_Kind = ''ServiceAccount'', subj_Name = reqName @ ''-serviceaccount'', subj_Namespace = []\<rparr>]\<rparr>)) id)))
       id"

definition project_reconcileServiceAccount :: "'s kube \<Rightarrow> vars \<Rightarrow> string \<Rightarrow> (Project \<times> 's, unit) act" where
  "project_reconcileServiceAccount K V reqName =
     thenA (ensure (liftW (getAux K KServiceAccount reqName (reqName @ ''-serviceaccount'')))
              (bindA (shareLabels [(LabelProjectOwner, ManagerNamespace V)]) (\<lambda>labels.
                 liftW (createTolerant K (OAux (AServiceAccount (projectMeta reqName (reqName @ ''-serviceaccount'') labels)))
                   (Fmt ''[reconcileServiceAccount] create serviceaccount error''))))
              (Fmt ''[reconcileServiceAccount] get serviceaccount error''))
     (thenA (mapErr (Fmt ''[reconcileServiceAccount] reconcile role error'') (project_reconcileRole K V reqName))
       (mapErr (Fmt ''[reconcileServiceAccount] reconcile rolebinding error'') (project_reconcileRoleBinding K V reqName)))"

section \<open>The AES key\<close>

definition aesSecretName :: "string \<Rightarrow> string" where
  "aesSecretName env = (if env = [] then ''aes-secret-key'' else env)"

definition projectKey :: "Project \<Rightarrow> string option" where
  "projectKey project = mfind (Annotations (proj_meta project)) AnnotationAesSecretKey"

definition secretKey :: "secret \<Rightarrow> string option" where
  "secretKey sec = mfind (sec_Data sec) defaultAESSecretKey"

text \<open>The answer to the update replaces the project in memory.\<close>

definition recordKey :: "'s kube \<Rightarrow> string \<Rightarrow> (Project \<times> 's, unit) act" where
  "recordKey K data =
     bindA getL (\<lambda>project.
       let project' = project\<lparr>proj_meta := (proj_meta project)\<lparr>Annotations :=
             mput AnnotationAesSecretKey data (Annotations (proj_meta project))\<rparr>\<rparr>
       in thenA (putL project')
            (bindA (mapErr (Fmt ''[reconcileSecret] update project error'') (liftW (updateObj K (OAux (AProject project'))))) (\<lambda>ob.
               case asProject ob of Some p \<Rightarrow> putL p | None \<Rightarrow> ret ())))"

definition storeKey :: "'s kube \<Rightarrow> secret \<Rightarrow> string \<Rightarrow> ('s, unit) act" where
  "storeKey K sec data =
     thenA (mapErr (Fmt ''[reconcileSecret] update secret error'')
              (updateObj K (OAux (ASecret (sec\<lparr>sec_Data := mput defaultAESSecretKey data (sec_Data sec)\<rparr>))))) (ret ())"

definition newKey :: "('s, string) act \<Rightarrow> (Project \<times> 's, string) act" where
  "newKey R = mapErr (Fmt ''[reconcileSecret] generateAES256Key error'') (liftW (generateAES256Key R))"

definition createSecret :: "'s kube \<Rightarrow> ('s, string) act \<Rightarrow> vars \<Rightarrow> string \<Rightarrow> string \<Rightarrow> (Project \<times> 's, unit) act" where
  "createSecret K R V reqName secretName =
     bindA (shareLabels [(LabelProjectOwner, ManagerNamespace V), (LabelNamespace, reqName)]) (\<lambda>labels.
     bindA getL (\<lambda>project.
     bindA (case projectKey project of
              Some k \<Rightarrow> ret k
            | None \<Rightarrow> bindA (newKey R) (\<lambda>data. thenA (recordKey K data) (ret data))) (\<lambda>data.
       liftW (createTolerant K (OAux (ASecret
         \<lparr>sec_meta = meta0\<lparr>Name := secretName, Namespace := reqName, Labels := labels, Annotations := Some fmempty,
            Finalizers := [FinalizerProtect]\<rparr>,
          sec_Data = mput defaultAESSecretKey data (Some fmempty)\<rparr>))
         (Fmt ''[reconcileSecret] create secret error'')))))"

text \<open>
  The three copies of the repair in the code differ only in their guards; a valid key that is not
  recorded is recorded.
\<close>

definition repairKey :: "'s kube \<Rightarrow> ('s, string) act \<Rightarrow> secret \<Rightarrow> (Project \<times> 's, unit) act" where
  "repairKey K R sec =
     bindA getL (\<lambda>project.
       case projectKey project of
         Some pCurrent \<Rightarrow>
           if isValidHex32 pCurrent then liftW (storeKey K sec pCurrent)
           else bindA (newKey R) (\<lambda>data. thenA (liftW (storeKey K sec data)) (recordKey K data))
       | None \<Rightarrow> bindA (newKey R) (\<lambda>data. thenA (liftW (storeKey K sec data)) (recordKey K data)))"

definition project_reconcileSecret :: "'s kube \<Rightarrow> ('s, string) act \<Rightarrow> vars \<Rightarrow> string \<Rightarrow> string \<Rightarrow> (Project \<times> 's, unit) act" where
  "project_reconcileSecret K R V env reqName =
     tryA (liftW (getSecret K reqName (aesSecretName env))) (\<lambda>r. case r of
        Inl e \<Rightarrow> if IsNotFound e then createSecret K R V reqName (aesSecretName env)
                else fail (Fmt ''[reconcileSecret] get secret error'' e)
      | Inr sec \<Rightarrow>
          (case secretKey sec of
             None \<Rightarrow> repairKey K R sec
           | Some current \<Rightarrow>
               if \<not> isValidHex32 current then repairKey K R sec
               else bindA getL (\<lambda>project.
                 if mstr (Annotations (proj_meta project)) AnnotationAesSecretKey = [] then recordKey K current else ret ())))"

section \<open>The reconciliation\<close>

definition reconcileProject :: "'s kube \<Rightarrow> ('s, string) act \<Rightarrow> ext \<Rightarrow> vars \<Rightarrow> string \<Rightarrow> string \<Rightarrow> (Project \<times> 's, unit) act" where
  "reconcileProject K R X V env reqName =
     thenA (reconcileNamespace K V reqName)
     (thenA (bindA getL (\<lambda>project. liftW (reconcileCA K X project)))
     (thenA (project_reconcileServiceAccount K V reqName)
       (project_reconcileSecret K R V env reqName)))"

text \<open>Milliseconds.\<close>

definition project_requeueAfter :: nat where "project_requeueAfter = 10000"

definition project_Reconcile :: "'s kube \<Rightarrow> ('s, string) act \<Rightarrow> ext \<Rightarrow> vars \<Rightarrow> string \<Rightarrow> string \<Rightarrow> ('s, nat) act" where
  "project_Reconcile K R X V env reqName =
     tryA (getProject K reqName) (\<lambda>r. case r of
        Inl e \<Rightarrow> if IsNotFound e then ret project_requeueAfter else fail e
      | Inr project \<Rightarrow> bindA (withLocal project (reconcileProject K R X V env reqName)) (\<lambda>_. ret project_requeueAfter))"

section \<open>The webhook\<close>

definition projectDefault :: "Project \<Rightarrow> Project" where
  "projectDefault project =
     (if Annotations (proj_meta project) = None
      then project\<lparr>proj_meta := (proj_meta project)\<lparr>Annotations := Some fmempty\<rparr>\<rparr> else project)"

definition unitSetsOf :: "obj list \<Rightarrow> UnitSet list" where
  "unitSetsOf os = List.map_filter asUnitSet os"

definition listUnitSets :: "'s kube \<Rightarrow> string \<Rightarrow> ('s, UnitSet list) act" where
  "listUnitSets K ns = bindA (liftApi (kList K KUnitSet ns [])) (\<lambda>os. ret (unitSetsOf os))"

definition projectValidateDelete :: "'s kube \<Rightarrow> Project \<Rightarrow> ('s, unit) act" where
  "projectValidateDelete K project =
     (let namespace = Name (proj_meta project) in
      bindA (mapErr (Fmt ''failed to list UnitSet'') (listUnitSets K namespace)) (\<lambda>unitsets.
        if unitsets \<noteq> [] then fail (Msg (''cannot delete Project, UnitSet(s) exist: '' @ Join (map us_Name unitsets) '', ''))
        else bindA (mapErr (Fmt ''failed to list Unit'') (listUnits K namespace [])) (\<lambda>units.
          if units \<noteq> [] then fail (Msg (''cannot delete Project, Unit(s) exist: '' @ Join (map u_Name units) '', ''))
          else ret ())))"

section \<open>Keys are hexadecimal\<close>

lemma fromHexChar_hexDigit: "n < 16 \<Longrightarrow> fromHexChar (hexDigit n) = Some n"
proof -
  assume "n < 16"
  then have "n \<in> set [0..<16]" by simp
  moreover have "list_all (\<lambda>n. fromHexChar (hexDigit n) = Some n) [0..<16]" by code_simp
  ultimately show ?thesis by (simp add: list_all_iff del: upt_rec_numeral)
qed

lemma Decode_Encode [simp]: "DecodeString (EncodeToString raw) = Some raw"
proof (induction raw)
  case (Cons b bs)
  have "(of_char b :: nat) < 256" by simp
  then have "(of_char b :: nat) div 16 < 16" by (intro less_mult_imp_div_less) simp
  moreover have "16 * (of_char b div 16) + of_char b mod 16 = (of_char b :: nat)" by simp
  ultimately show ?case using Cons by (simp add: fromHexChar_hexDigit)
qed simp

lemma length_Encode [simp]: "length (EncodeToString raw) = 2 * length raw"
  by (induction raw) simp_all

text \<open>
  \<open>generateAES256Key\<close>: from sixteen random bytes the generated key passes the check
  \<open>isValidHex32\<close> and decodes to exactly those bytes.
\<close>

theorem generated_key_valid:
  assumes "R s = (Inr raw, s')" and "length raw = 16"
  shows "\<exists>k. generateAES256Key R s = (Inr k, s') \<and> isValidHex32 k \<and> DecodeString k = Some raw"
  using assms by (simp add: generateAES256Key_def isValidHex32_def)

theorem generated_key_valid_witness:
  "\<exists>k. generateAES256Key (ret ''0123456789abcdef'') () = (Inr k, ()) \<and> isValidHex32 k \<and>
     DecodeString k = Some ''0123456789abcdef''"
  by (rule generated_key_valid) simp_all

section \<open>What the controller may touch\<close>

definition projectFootprint :: "string \<Rightarrow> okey set" where
  "projectFootprint n =
     {(KNamespace, [], n), (KProject, [], n), (KIssuer, n, n), (KCertificate, n, n),
      (KServiceAccount, n, n @ ''-serviceaccount''), (KRole, n, n @ ''-role''), (KRoleBinding, n, n @ ''-rolebinding'')}"

definition aesKey :: "string \<Rightarrow> string \<Rightarrow> okey" where
  "aesKey n env = (KSecret, n, aesSecretName env)"

definition projI :: "('s \<Rightarrow> objview) \<Rightarrow> string \<Rightarrow> okey set \<Rightarrow> objview \<Rightarrow> Project \<times> 's \<Rightarrow> bool" where
  "projI view n B v p \<longleftrightarrow>
     Name (proj_meta (fst p)) = n \<and> Namespace (proj_meta (fst p)) = [] \<and> frame view B v (snd p)"

lemma keeps_projI_liftW [triple_rules]: "keeps (frame view B v) m \<Longrightarrow> keeps (projI view n B v) (liftW m)"
  by (rule triple_liftW) (auto simp: projI_def triple_def)

lemma keeps_projI_getL:
  assumes "\<And>p. Name (proj_meta p) = n \<Longrightarrow> Namespace (proj_meta p) = [] \<Longrightarrow> keeps (projI view n B v) (f p)"
  shows "keeps (projI view n B v) (bindA getL f)"
  by (rule keepsI) (use keepsD [OF assms] in \<open>auto simp: bindA_def getL_def projI_def\<close>)

lemma keeps_shareLabels [triple_rules]: "keeps (projI view n B v) (shareLabels es)"
  by (rule keepsI) (auto simp: shareLabels_def bindA_def thenA_def getL_def putL_def projI_def Let_def split: option.splits)

context kube_api
begin

lemma keeps_recordKey [triple_rules]:
  assumes "(KProject, [], n) \<in> B"
  shows "keeps (projI view n B v) (recordKey K data)"
proof (rule keepsI)
  fix p assume p: "projI view n B v p"
  let ?p = "(fst p)\<lparr>proj_meta := (proj_meta (fst p))\<lparr>Annotations :=
             mput AnnotationAesSecretKey data (Annotations (proj_meta (fst p)))\<rparr>\<rparr>"
  have k: "keyOf (OAux (AProject ?p)) = (KProject, [], n)" using p by (simp add: projI_def keyOf_def)
  obtain r t where u: "updateObj K (OAux (AProject ?p)) (snd p) = (r, t)" by fastforce
  have "frame view B v t"
    by (rule keepsD' [OF keeps_frame_writes(2) _ u]) (use p k assms in \<open>auto simp: projI_def\<close>)
  moreover have "keyOf ob = (KProject, [], n)" if "r = Inr ob" for ob
    using write_Inr [OF update_law] u that k by (fastforce simp: updateObj_def updateEff_def)
  ultimately show "projI view n B v (snd (recordKey K data p))"
    using p u
    by (cases r) (auto simp: recordKey_def bindA_def thenA_def getL_def putL_def mapErr_def liftW_def Let_def
        projI_def keyOf_def asProject_def split: obj.splits aux.splits)
qed

lemma keeps_reconcileCA:
  assumes "{(KIssuer, Name (proj_meta p), Name (proj_meta p)), (KCertificate, Name (proj_meta p), Name (proj_meta p))} \<subseteq> B"
  shows "keeps (frame view B v) (reconcileCA K X p)"
  unfolding reconcileCA_def Let_def
  by (intro keeps_if keeps_ret keeps_thenA keeps_ensure keeps_frame_aux_reads keeps_createStrict)
    (use assms in \<open>auto simp: keyOf_def projectIssuer_def projectCertificate_def Let_def\<close>)

lemmas keeps_projI_ensure =
  keeps_ensure keeps_projI_liftW keeps_frame_aux_reads keeps_bindA keeps_shareLabels keeps_createTolerant

lemma keeps_project_steps:
  assumes "projectFootprint n \<subseteq> B"
  shows "keeps (projI view n B v) (reconcileNamespace K V n)"
    and "keeps (projI view n B v) (bindA getL (\<lambda>p. liftW (reconcileCA K X p)))"
    and "keeps (projI view n B v) (project_reconcileServiceAccount K V n)"
  subgoal unfolding reconcileNamespace_def
    by (intro keeps_projI_ensure) (use assms in \<open>auto simp: keyOf_def projectFootprint_def zero_defs\<close>)
  subgoal by (intro keeps_projI_getL keeps_projI_liftW keeps_reconcileCA) (use assms in \<open>auto simp: projectFootprint_def\<close>)
  subgoal unfolding project_reconcileServiceAccount_def project_reconcileRole_def project_reconcileRoleBinding_def
    by (intro keeps_thenA keeps_mapErr keeps_projI_ensure)
      (use assms in \<open>auto simp: keyOf_def projectFootprint_def projectMeta_def zero_defs\<close>)
  done

lemma keeps_newKey [triple_rules]: "keeps (frame view B v) R \<Longrightarrow> keeps (projI view n B v) (newKey R)"
  unfolding newKey_def generateAES256Key_def by (intro keeps_mapErr keeps_projI_liftW keeps_bindA keeps_ret)

lemma keeps_storeKey [triple_rules]:
  "keyOf (OAux (ASecret sec)) \<in> B \<Longrightarrow> keeps (frame view B v) (storeKey K sec data)"
  unfolding storeKey_def by (intro keeps_thenA keeps_mapErr keeps_frame_writes keeps_ret) (simp add: keyOf_def)

lemma keeps_createSecret:
  assumes "keeps (frame view B v) R" "aesKey n env \<in> B" "(KProject, [], n) \<in> B"
  shows "keeps (projI view n B v) (createSecret K R V n (aesSecretName env))"
  unfolding createSecret_def
  by (intro keeps_bindA keeps_shareLabels keeps_projI_getL keeps_case_option keeps_ret keeps_thenA keeps_newKey
      keeps_recordKey keeps_projI_liftW keeps_createTolerant assms)
    (use assms in \<open>simp add: keyOf_def aesKey_def zero_defs\<close>)

lemma keeps_repairKey:
  assumes "keeps (frame view B v) R" "keyOf (OAux (ASecret sec)) \<in> B" "(KProject, [], n) \<in> B"
  shows "keeps (projI view n B v) (repairKey K R sec)"
  unfolding repairKey_def
  by (intro keeps_projI_getL keeps_case_option keeps_if keeps_projI_liftW keeps_storeKey keeps_bindA keeps_newKey
      keeps_thenA keeps_recordKey assms)

text \<open>The continuation of a read of the secret may use what the read returned.\<close>

lemma keeps_getSecret_then:
  assumes "\<And>sec s. frame view B v s \<Longrightarrow> view s (KSecret, ns, n) = Some (OAux (ASecret sec)) \<Longrightarrow> keeps (projI view m B v) (f (Inr sec))"
    and "\<And>e s. frame view B v s \<Longrightarrow> (IsNotFound e \<longrightarrow> view s (KSecret, ns, n) = None) \<Longrightarrow> keeps (projI view m B v) (f (Inl e))"
  shows "keeps (projI view m B v) (tryA (liftW (getSecret K ns n)) f)"
proof (rule keepsI)
  fix p assume p: "projI view m B v p"
  obtain r t where g: "getSecret K ns n (snd p) = (r, t)" by fastforce
  have fr: "frame view B v (snd p)" "frame view B v t"
    using p keepsD' [OF keeps_frame_aux_reads(1) _ g] by (auto simp: projI_def)
  have "keeps (projI view m B v) (f r)"
  proof (cases r)
    case (Inr sec)
    with assms(1) [OF fr(1)] getSecret_Inr [of ns n "snd p" sec t] g show ?thesis by simp
  next
    case (Inl e)
    have "IsNotFound e \<longrightarrow> view (snd p) (KSecret, ns, n) = None"
      using getSecret_cases(2) [OF g] Inl by blast
    with assms(2) [OF fr(1)] Inl show ?thesis by simp
  qed
  with p fr(2) show "projI view m B v (snd (tryA (liftW (getSecret K ns n)) f p))"
    by (auto simp: tryA_def liftW_def g projI_def dest!: keepsD [of _ "f r" "(fst p, t)"])
qed

lemma keeps_secret_any:
  assumes "keeps (frame view B v) R" "aesKey n env \<in> B" "(KProject, [], n) \<in> B"
  shows "keeps (projI view n B v) (project_reconcileSecret K R V env n)"
  unfolding project_reconcileSecret_def
proof (rule keeps_getSecret_then; simp only: sum.case)
  fix sec s assume "view s (KSecret, n, aesSecretName env) = Some (OAux (ASecret sec))"
  then have "keyOf (OAux (ASecret sec)) \<in> B" using assms(2) view_key by (fastforce simp: aesKey_def)
  then show "keeps (projI view n B v) (case secretKey sec of None \<Rightarrow> repairKey K R sec
      | Some current \<Rightarrow> if \<not> isValidHex32 current then repairKey K R sec
          else bindA getL (\<lambda>project. if mstr (Annotations (proj_meta project)) AnnotationAesSecretKey = []
                 then recordKey K current else ret ()))"
    by (intro keeps_case_option keeps_if keeps_repairKey keeps_projI_getL keeps_recordKey keeps_ret assms)
qed (intro keeps_if keeps_createSecret keeps_fail assms)

lemma keeps_secret_valid:
  assumes "(KProject, [], n) \<in> B" "aesKey n env \<notin> B" "v (aesKey n env) = Some (OAux (ASecret sec))"
    "secretKey sec = Some k" "isValidHex32 k"
  shows "keeps (projI view n B v) (project_reconcileSecret K R V env n)"
  unfolding project_reconcileSecret_def
proof (rule keeps_getSecret_then; simp only: sum.case)
  fix sec' s assume "frame view B v s" and "view s (KSecret, n, aesSecretName env) = Some (OAux (ASecret sec'))"
  with assms(2,3) have "sec' = sec" using frameD [of view B v s] by (simp add: aesKey_def)
  with assms(4,5) show "keeps (projI view n B v) (case secretKey sec' of None \<Rightarrow> repairKey K R sec'
      | Some current \<Rightarrow> if \<not> isValidHex32 current then repairKey K R sec'
          else bindA getL (\<lambda>project. if mstr (Annotations (proj_meta project)) AnnotationAesSecretKey = []
                 then recordKey K current else ret ()))"
    by simp (intro keeps_projI_getL keeps_if keeps_recordKey keeps_ret assms)
next
  fix e s assume "frame view B v s" and "IsNotFound e \<longrightarrow> view s (KSecret, n, aesSecretName env) = None"
  with assms(2,3) have "\<not> IsNotFound e" using frameD [of view B v s "aesKey n env"] by (auto simp: aesKey_def)
  then show "keeps (projI view n B v) (if IsNotFound e then createSecret K R V n (aesSecretName env)
      else fail (Fmt ''[reconcileSecret] get secret error'' e))" by (simp add: keeps_fail)
qed

lemma keeps_reconcileProject:
  assumes "projectFootprint n \<subseteq> B" and "keeps (projI view n B v) (project_reconcileSecret K R V env n)"
  shows "keeps (projI view n B v) (reconcileProject K R X V env n)"
  unfolding reconcileProject_def by (intro keeps_thenA keeps_project_steps assms)

lemma keeps_project_Reconcile:
  assumes "projectFootprint n \<subseteq> B" and "keeps (projI view n B v) (project_reconcileSecret K R V env n)"
  shows "keeps (frame view B v) (project_Reconcile K R X V env n)"
  unfolding project_Reconcile_def
proof (rule keepsI)
  fix s assume s: "frame view B v s"
  obtain r t where g: "getProject K n s = (r, t)" by fastforce
  have t: "frame view B v t" by (rule keepsD' [OF keeps_frame_aux_reads(2) s g])
  show "frame view B v (snd (tryA (getProject K n) (\<lambda>r. case r of
        Inl e \<Rightarrow> if IsNotFound e then ret project_requeueAfter else fail e
      | Inr project \<Rightarrow> bindA (withLocal project (reconcileProject K R X V env n)) (\<lambda>_. ret project_requeueAfter)) s))"
  proof (cases r)
    case (Inr p)
    have "keyOf (OAux (AProject p)) = (KProject, [], n)" using view_key getProject_Inr(1) g Inr by blast
    then have "projI view n B v (p, t)" using t by (simp add: projI_def keyOf_def)
    with keepsD [OF keeps_reconcileProject [OF assms]]
    have "projI view n B v (snd (reconcileProject K R X V env n (p, t)))" by blast
    then show ?thesis by (auto simp: tryA_def g Inr withLocal_def bindA_def projI_def split: prod.splits sum.splits)
  qed (simp add: tryA_def g t)
qed

end

text \<open>A project and its cluster for concrete runs; the secret holds a valid key.\<close>

definition sampleProject :: Project where
  "sampleProject = \<lparr>proj_meta = meta0\<lparr>Name := ''team'', Labels := Some fmempty\<rparr>,
     proj_CA = \<lparr>ca_Enabled = True, ca_CommonName = ''ca'', ca_SecretName = ''ca'', ca_Duration = [], ca_RenewBefore = [],
       ca_PrivateKey = \<lparr>pk_Algorithm = ''RSA'', pk_Size = 2048\<rparr>\<rparr>\<rparr>"

definition sampleSecret :: secret where
  "sampleSecret = \<lparr>sec_meta = meta0\<lparr>Name := ''aes-secret-key'', Namespace := ''team''\<rparr>,
     sec_Data = mput defaultAESSecretKey (EncodeToString ''sixteen bytes..!'') None\<rparr>"

definition sampleProjectCluster :: mem where
  "sampleProjectCluster = \<lparr>m_store = [OAux (AProject sampleProject), OAux (ASecret sampleSecret)], m_rv = 7, m_faults = []\<rparr>"

text \<open>
  C37 (\<open>Reconcile\<close>): whatever the API server answers, the reconciliation of a project changes only
  the project, the namespace object of its name, and in that namespace the issuer, certificate,
  account, role, role binding and key secret named after it.
\<close>

theorem project_isolated:
  assumes "kube_api K view wire" and "\<And>s. view (snd (R s)) = view s"
    and "k \<notin> projectFootprint n" and "k \<noteq> aesKey n env"
  shows "view (snd (project_Reconcile K R X V env n s)) k = view s k"
proof -
  have R: "keeps (frame view B v) R" for B v
    by (rule keepsI) (simp add: frame_def assms(2))
  show ?thesis
    by (rule frame_apply [of view "insert (aesKey n env) (projectFootprint n)"],
        rule kube_api.keeps_project_Reconcile [OF assms(1)])
      (use assms R in \<open>auto intro!: kube_api.keeps_secret_any [OF assms(1)] simp: projectFootprint_def\<close>)
qed

theorem project_isolated_witness:
  "memView (snd (project_Reconcile memKube (ret ''0123456789abcdef'') plainExt sampleVars [] ''team'' sampleProjectCluster))
     (unitKey ''team'' ''db-0'') = memView sampleProjectCluster (unitKey ''team'' ''db-0'')"
  by (rule project_isolated [OF mem.kube_api_axioms]) (simp_all add: projectFootprint_def aesKey_def)

text \<open>
  C35 (\<open>reconcileSecret\<close>): a valid AES key is never replaced. Whatever the API server answers and
  whatever the annotation of the project says, the secret is left exactly as it is.
\<close>

theorem aes_key_stable:
  assumes "kube_api K view wire"
    and "view s (aesKey n env) = Some (OAux (ASecret sec))" and "secretKey sec = Some k" and "isValidHex32 k"
  shows "view (snd (project_Reconcile K R X V env n s)) (aesKey n env) = Some (OAux (ASecret sec))"
proof -
  have B: "aesKey n env \<notin> projectFootprint n" by (simp add: projectFootprint_def aesKey_def)
  have "keeps (projI view n (projectFootprint n) (view s)) (project_reconcileSecret K R V env n)"
    by (rule kube_api.keeps_secret_valid [OF assms(1) _ B _ assms(3,4)]) (simp_all add: projectFootprint_def assms(2))
  from keepsD [OF kube_api.keeps_project_Reconcile [OF assms(1) order_refl this] frame_refl]
  have "frame view (projectFootprint n) (view s) (snd (project_Reconcile K R X V env n s))" .
  with frameD [OF this B] show ?thesis by (simp add: assms(2))
qed

theorem aes_key_stable_witness:
  "memView (snd (project_Reconcile memKube (ret ''0123456789abcdef'') plainExt sampleVars [] ''team'' sampleProjectCluster))
     (aesKey ''team'' []) = Some (OAux (ASecret sampleSecret))"
proof (rule aes_key_stable [OF mem.kube_api_axioms])
  show "memView sampleProjectCluster (aesKey ''team'' []) = Some (OAux (ASecret sampleSecret))" by code_simp
  show "secretKey sampleSecret = Some (EncodeToString ''sixteen bytes..!'')" by code_simp
qed code_simp

context kube_api
begin

lemma storeKey_Inr:
  assumes "storeKey K sec data s = (Inr (), s')" and "view s (keyOf (OAux (ASecret sec))) = Some (OAux (ASecret sec))"
    and "DeletionTimestamp (sec_meta sec) = None"
  shows "\<exists>sec'. view s' (keyOf (OAux (ASecret sec))) = Some (OAux (ASecret sec')) \<and> secretKey sec' = Some data"
proof -
  let ?o = "OAux (ASecret (sec\<lparr>sec_Data := mput defaultAESSecretKey data (sec_Data sec)\<rparr>))"
  from assms(1) obtain ob where "kUpdate K ?o s = (Inr ob, s')"
    by (auto simp: storeKey_def updateObj_def thenA_eq_Inr_iff)
  from write_Inr [OF update_law this] assms(2,3) have e: "keyOf ob = keyOf ?o" "updStored wire (OAux (ASecret sec)) ?o ob"
    "view s' (keyOf ?o) = Some ob" by (auto simp: updateEff_def keyOf_def)
  then obtain sec' where ob: "ob = OAux (ASecret sec')"
    by (auto simp: keyOf_def kindOf_iffs)
  with e(2) have "mbody (sec_Data sec') = mbody (mput defaultAESSecretKey data (sec_Data sec))"
    by (simp add: auxStored_def)
  then have "secretKey sec' = Some data" by (simp add: secretKey_def mfind_def)
  with e(3) ob show ?thesis by (simp add: keyOf_def)
qed


lemma recordKey_frame:
  assumes "Namespace (proj_meta p) = []" and "recordKey K data (p, s) = (r, (p', s'))" and "k \<noteq> (KProject, [], Name (proj_meta p))"
  shows "view s' k = view s k"
proof -
  let ?B = "{(KProject, [], Name (proj_meta p))}"
  have "projI view (Name (proj_meta p)) ?B (view s) (p, s)" using assms(1) by (simp add: projI_def)
  with keepsD' [OF keeps_recordKey _ assms(2), of _ ?B "view s"] have "frame view ?B (view s) s'" by (auto simp: projI_def)
  with assms(3) show ?thesis by (simp add: frameD)
qed

text \<open>A repair that reports success has stored a valid key: the recorded one if that is valid.\<close>

lemma repairKey_Inr:
  assumes R: "\<And>s raw s'. R s = (Inr raw, s') \<Longrightarrow> length raw = 16 \<and> view s' = view s"
    and p: "Namespace (proj_meta p) = []"
    and sec: "view s (keyOf (OAux (ASecret sec))) = Some (OAux (ASecret sec))" "DeletionTimestamp (sec_meta sec) = None"
    and run: "repairKey K R sec (p, s) = (Inr (), (p', s'))"
  shows "\<exists>sec' k. view s' (keyOf (OAux (ASecret sec))) = Some (OAux (ASecret sec')) \<and> secretKey sec' = Some k \<and>
    isValidHex32 k \<and> (\<forall>k0. projectKey p = Some k0 \<and> isValidHex32 k0 \<longrightarrow> k = k0)"
proof (cases "\<exists>k0. projectKey p = Some k0 \<and> isValidHex32 k0")
  case True
  then obtain k0 where k0: "projectKey p = Some k0" "isValidHex32 k0" by blast
  with run have "storeKey K sec k0 s = (Inr (), s')"
    by (auto simp: repairKey_def bindA_def getL_def liftW_def split: prod.splits)
  from storeKey_Inr [OF this sec] k0 show ?thesis by auto
next
  case False
  with run obtain data q where d: "newKey R (p, s) = (Inr data, q)"
    and w: "thenA (liftW (storeKey K sec data)) (recordKey K data) q = (Inr (), (p', s'))"
    by (auto simp: repairKey_def bindA_eq_Inr_iff getL_def split: option.splits if_splits)
  from d obtain raw t where raw: "R s = (Inr raw, t)" "data = EncodeToString raw" "q = (p, t)"
    by (auto simp: newKey_def generateAES256Key_def liftW_def bindA_eq_Inr_iff split: prod.splits)
  with w obtain t' where st: "storeKey K sec data t = (Inr (), t')" and rk: "recordKey K data (p, t') = (Inr (), (p', s'))"
    by (auto simp: thenA_eq_Inr_iff liftW_def split: prod.splits)
  obtain sec' where "view t' (keyOf (OAux (ASecret sec))) = Some (OAux (ASecret sec'))" "secretKey sec' = Some data"
    using storeKey_Inr [OF st] sec R [OF raw(1)] by auto
  moreover have "view s' (keyOf (OAux (ASecret sec))) = view t' (keyOf (OAux (ASecret sec)))"
    by (rule recordKey_frame [OF p rk]) (simp add: keyOf_def)
  moreover have "isValidHex32 data" using R [OF raw(1)] by (simp add: raw(2) isValidHex32_def)
  ultimately show ?thesis using False by auto
qed

end

text \<open>
  C36 (\<open>reconcileSecret\<close>): if the secret exists and the reconciliation of the key succeeds, the stored
  secret has a valid key: the one it had if that was valid, else the one recorded in the project if
  that is valid, else a new one.
\<close>

theorem aes_key_repaired:
  assumes "kube_api K view wire" and "\<And>s raw s'. R s = (Inr raw, s') \<Longrightarrow> length raw = 16 \<and> view s' = view s"
    and "Namespace (proj_meta p) = []"
    and "view s (aesKey n env) = Some (OAux (ASecret sec))" and "DeletionTimestamp (sec_meta sec) = None"
    and "project_reconcileSecret K R V env n (p, s) = (Inr (), (p', s'))"
  shows "\<exists>sec' k. view s' (aesKey n env) = Some (OAux (ASecret sec')) \<and> secretKey sec' = Some k \<and> isValidHex32 k \<and>
    (case secretKey sec of
       Some k0 \<Rightarrow> (if isValidHex32 k0 then k = k0 else (\<forall>k1. projectKey p = Some k1 \<and> isValidHex32 k1 \<longrightarrow> k = k1))
     | None \<Rightarrow> (\<forall>k1. projectKey p = Some k1 \<and> isValidHex32 k1 \<longrightarrow> k = k1))"
proof -
  obtain r t where g: "getSecret K n (aesSecretName env) s = (r, t)" by fastforce
  have key: "keyOf (OAux (ASecret sec)) = aesKey n env" by (rule kube_api.view_key [OF assms(1,4)])
  have "project_reconcileSecret K R V env n (p, s) = (Inr (), (p', s'))" by (rule assms(6))
  moreover have vt: "view t = view s" by (rule kube_api.getSecret_cases(1) [OF assms(1) g])
  moreover have "\<not> IsNotFound e" if "r = Inl e" for e
    using kube_api.getSecret_cases(2) [OF assms(1) g that] assms(4) by (auto simp: aesKey_def)
  moreover have "x = sec" if "r = Inr x" for x
    using kube_api.getSecret_Inr(1) [OF assms(1) g [unfolded that]] assms(4) by (simp add: aesKey_def)
  ultimately have run: "(case secretKey sec of
             None \<Rightarrow> repairKey K R sec
           | Some current \<Rightarrow>
               if \<not> isValidHex32 current then repairKey K R sec
               else bindA getL (\<lambda>project.
                 if mstr (Annotations (proj_meta project)) AnnotationAesSecretKey = [] then recordKey K current else ret ()))
       (p, t) = (Inr (), (p', s'))"
    using g by (cases r) (auto simp: project_reconcileSecret_def tryA_def liftW_def)
  have repair: "repairKey K R sec (p, t) = (Inr (), (p', s')) \<Longrightarrow> ?thesis"
    if "\<forall>k0. secretKey sec = Some k0 \<longrightarrow> \<not> isValidHex32 k0"
  proof -
    assume run: "repairKey K R sec (p, t) = (Inr (), (p', s'))"
    from kube_api.repairKey_Inr [OF assms(1) assms(2,3) _ assms(5) run] assms(4) that show ?thesis
      by (auto simp: vt key split: option.splits)
  qed
  show ?thesis
  proof (cases "\<exists>k0. secretKey sec = Some k0 \<and> isValidHex32 k0")
    case True
    then obtain k0 where k0: "secretKey sec = Some k0" "isValidHex32 k0" by blast
    with run have "recordKey K k0 (p, t) = (Inr (), (p', s')) \<or> s' = t"
      by (auto simp: bindA_def getL_def split: if_splits)
    then have "view s' (aesKey n env) = view t (aesKey n env)"
      using kube_api.recordKey_frame [OF assms(1,3)] by (auto simp: aesKey_def)
    with k0 vt assms(4) show ?thesis by simp
  next
    case False
    with run have "repairKey K R sec (p, t) = (Inr (), (p', s'))" by (auto split: option.splits if_splits)
    with repair False show ?thesis by blast
  qed
qed

text \<open>The secret lost its key, and the project has it.\<close>

definition recordedProject :: Project where
  "recordedProject = sampleProject\<lparr>proj_meta := (proj_meta sampleProject)\<lparr>Annotations :=
     mput AnnotationAesSecretKey (EncodeToString ''sixteen bytes..!'') None\<rparr>\<rparr>"

definition emptiedCluster :: mem where
  "emptiedCluster = \<lparr>m_store = [OAux (AProject recordedProject), OAux (ASecret (sampleSecret\<lparr>sec_Data := None\<rparr>))],
     m_rv = 7, m_faults = []\<rparr>"

theorem aes_key_repaired_witness:
  "\<exists>sec'. memView (snd (snd (project_reconcileSecret memKube (ret ''0123456789abcdef'') sampleVars [] ''team''
       (recordedProject, emptiedCluster)))) (aesKey ''team'' []) = Some (OAux (ASecret sec')) \<and>
     secretKey sec' = Some (EncodeToString ''sixteen bytes..!'')"
proof -
  let ?m = "project_reconcileSecret memKube (ret ''0123456789abcdef'') sampleVars [] ''team'' (recordedProject, emptiedCluster)"
  have run: "fst ?m = Inr ()" by code_simp
  have sec: "memView emptiedCluster (aesKey ''team'' []) = Some (OAux (ASecret (sampleSecret\<lparr>sec_Data := None\<rparr>)))" by code_simp
  have k: "secretKey (sampleSecret\<lparr>sec_Data := None\<rparr>) = None" by code_simp
  have p: "projectKey recordedProject = Some (EncodeToString ''sixteen bytes..!'')" by code_simp
  have v: "isValidHex32 (EncodeToString ''sixteen bytes..!'')" by code_simp
  have d: "DeletionTimestamp (sec_meta (sampleSecret\<lparr>sec_Data := None\<rparr>)) = None" by code_simp
  have ns: "Namespace (proj_meta recordedProject) = []" by code_simp
  have eq: "?m = (Inr (), (fst (snd ?m), snd (snd ?m)))" using run by (metis prod.collapse)
  have R: "ret ''0123456789abcdef'' s = (Inr raw, s') \<Longrightarrow> length raw = 16 \<and> memView s' = memView s" for s raw s'
    by auto
  from aes_key_repaired [OF mem.kube_api_axioms R ns sec d eq] p v k show ?thesis by auto
qed

section \<open>The deletion of a project\<close>

lemma set_unitSetsOf: "u \<in> set (unitSetsOf os) \<longleftrightarrow> OUnitSet u \<in> set os"
  by (induction os) (auto simp: unitSetsOf_def List.map_filter_simps asUnitSet_def split: option.split obj.split)

text \<open>
  \<open>ValidateDelete\<close> of the project webhook: the deletion of a project is admitted only if its
  namespace has no UnitSet and no Unit; otherwise, or if they cannot be listed, it is rejected. The
  check changes nothing.
\<close>

theorem project_delete_guard:
  assumes "kube_api K view wire"
  shows "view (snd (projectValidateDelete K p s)) = view s \<and>
    (fst (projectValidateDelete K p s) = Inr () \<longrightarrow>
      (\<forall>x. view s (unitSetKey (Name (proj_meta p)) x) = None \<and> view s (unitKey (Name (proj_meta p)) x) = None))"
proof (intro conjI impI allI)
  have "keeps (\<lambda>t. view t = view s) (projectValidateDelete K p)"
    unfolding projectValidateDelete_def Let_def listUnitSets_def
    by (intro keeps_bindA keeps_mapErr keeps_if keeps_fail keeps_ret kube_api.keeps_lists [OF assms] kube_api.keeps_list [OF assms])
  from keepsD [OF this refl] show "view (snd (projectValidateDelete K p s)) = view s" .
next
  fix x assume ok: "fst (projectValidateDelete K p s) = Inr ()"
  let ?ns = "Name (proj_meta p)"
  from ok obtain s' where run: "projectValidateDelete K p s = (Inr (), s')" by (metis prod.collapse)
  then obtain os t where os: "kList K KUnitSet ?ns [] s = (Inr os, t)" "unitSetsOf os = []"
    and us: "listUnits K ?ns [] t = (Inr [], s')"
    by (auto simp: projectValidateDelete_def listUnitSets_def Let_def bindA_eq_Inr_iff split: if_splits)
  show "view s (unitSetKey ?ns x) = None"
  proof (rule ccontr)
    assume "view s (unitSetKey ?ns x) \<noteq> None"
    then obtain u where u: "view s (unitSetKey ?ns x) = Some (OUnitSet u)"
      using kube_api.view_unitset [OF assms] by blast
    with kube_api.view_key [OF assms u] kube_api.list_found [OF assms os(1), of "OUnitSet u"]
    have "OUnitSet u \<in> set os" by (auto simp: matchLabels_def)
    with os(2) set_unitSetsOf [of u os] show False by simp
  qed
  show "view s (unitKey ?ns x) = None"
  proof (rule ccontr)
    assume "view s (unitKey ?ns x) \<noteq> None"
    then obtain u where u: "view s (unitKey ?ns x) = Some (OUnit u)" using kube_api.view_unit [OF assms] by blast
    have "view t = view s" by (rule kube_api.list_view [OF assms os(1)])
    with u kube_api.view_key [OF assms u] kube_api.listUnits_Inr(1) [OF assms us, of u]
    show False by (auto simp: matchLabels_def)
  qed
qed

theorem project_delete_guard_witness:
  "memView (snd (projectValidateDelete memKube sampleProject sampleProjectCluster)) = memView sampleProjectCluster \<and>
   memView sampleProjectCluster (unitSetKey ''team'' ''db'') = None"
proof -
  have "fst (projectValidateDelete memKube sampleProject sampleProjectCluster) = Inr ()" by code_simp
  moreover have "Name (proj_meta sampleProject) = ''team''" by code_simp
  ultimately show ?thesis using project_delete_guard [OF mem.kube_api_axioms, of sampleProject sampleProjectCluster] by simp
qed

end
