(* ===== verification/UnitSetServices.thy ===== *)
theory UnitSetServices
  imports Ensure
begin

text \<open>
  The services of a UnitSet (\<open>src/pkg/controller/unitset/unitset_service.go\<close>): a headless service and
  an optional external service for the set, an optional service per unit. The node ports assigned to
  the services of the units are recorded in annotations of the set, one map per port name, and asked
  for again when a service has to be created anew. The functions that change the set in memory
  return it.
\<close>

section \<open>The set in memory\<close>

definition annotated :: "string \<Rightarrow> string \<Rightarrow> UnitSet \<Rightarrow> UnitSet" where
  "annotated k v u = u\<lparr>us_meta := (us_meta u)\<lparr>Annotations := mput k v (Annotations (us_meta u))\<rparr>\<rparr>"

definition annotationsMade :: "UnitSet \<Rightarrow> UnitSet" where
  "annotationsMade u = u\<lparr>us_meta := (us_meta u)\<lparr>Annotations := minit (Annotations (us_meta u))\<rparr>\<rparr>"

text \<open>The answer of the patch goes into \<open>old\<close>, a copy that is dropped.\<close>

definition patchUnitset :: "'s kube \<Rightarrow> UnitSet \<Rightarrow> UnitSet \<Rightarrow> ('s, UnitSet) act" where
  "patchUnitset K old new =
     (case kPatchData K (OUnitSet old) (OUnitSet new) of
        Inl e \<Rightarrow> fail e
      | Inr update \<Rightarrow> if \<not> update then ret old
                    else bindA (patchObj K (OUnitSet old) (OUnitSet new)) (\<lambda>_. ret new))"

definition listServiceBelongUnitset :: "'s kube \<Rightarrow> UnitSet \<Rightarrow> ('s, service list) act" where
  "listServiceBelongUnitset K unitset = listServices K (Namespace (us_meta unitset)) [(UnitsetName, us_Name unitset)]"

section \<open>Services of the set\<close>

definition validPort :: "int \<Rightarrow> bool" where
  "validPort p \<longleftrightarrow> \<not> (p \<le> 0 \<or> p > 65535)"

definition portOf :: "containerPort \<Rightarrow> servicePort" where
  "portOf p = \<lparr>sp_Name = cp_Name p, sp_Protocol = cp_Protocol p, sp_Port = cp_ContainerPort p, sp_TargetPort = 0, sp_NodePort = 0\<rparr>"

definition serviceOf :: "ext \<Rightarrow> UnitSet \<Rightarrow> string \<Rightarrow> string \<Rightarrow> servicePort list \<Rightarrow> service" where
  "serviceOf X unitset name type ports =
     \<lparr>svc_meta = meta0\<lparr>Name := name, Namespace := Namespace (us_meta unitset),
        Labels := mputAll (Labels (us_meta unitset)) (Some fmempty),
        OwnerReferences := [newControllerRef X (us_meta unitset) ''UnitSet'']\<rparr>,
      svc_Type = type, svc_ClusterIP = [], svc_Selector = Some fmempty, svc_Ports = ports,
      svc_PublishNotReadyAddresses = True, svc_IngressIPs = [], svc_other = []\<rparr>"

definition withLabel :: "string \<Rightarrow> string \<Rightarrow> service \<Rightarrow> service" where
  "withLabel k v c = c\<lparr>svc_meta := (svc_meta c)\<lparr>Labels := mput k v (Labels (svc_meta c))\<rparr>\<rparr>"

definition withSelector :: "string \<Rightarrow> string \<Rightarrow> service \<Rightarrow> service" where
  "withSelector k v c = c\<lparr>svc_Selector := mput k v (svc_Selector c)\<rparr>"

definition headlessService :: "ext \<Rightarrow> UnitSet \<Rightarrow> containerPort list \<Rightarrow> service" where
  "headlessService X unitset ports =
     withSelector UnitsetName (us_Name unitset) (withLabel UnitsetName (us_Name unitset)
       ((serviceOf X unitset (HeadlessServiceName unitset) ''ClusterIP''
          (map portOf (filter (\<lambda>p. validPort (cp_ContainerPort p)) ports)))\<lparr>svc_ClusterIP := ''None''\<rparr>))"

definition reconcileHeadlessService :: "'s kube \<Rightarrow> ext \<Rightarrow> UnitSet \<Rightarrow> containerPort list \<Rightarrow> ('s, unit) act" where
  "reconcileHeadlessService K X unitset ports =
     ensure (getService K (Namespace (us_meta unitset)) (HeadlessServiceName unitset))
       (createTolerant K (OService (headlessService X unitset ports)) (Fmt ''create headless service error''))
       (Fmt ''get headless service error'')"

definition externalService :: "ext \<Rightarrow> UnitSet \<Rightarrow> containerPort list \<Rightarrow> service" where
  "externalService X unitset ports =
     withSelector UnitsetName (us_Name unitset)
       (withLabel AnnotationExternalServiceType (ExternalService (us_Spec unitset)) (withLabel UnitsetName (us_Name unitset)
         (serviceOf X unitset (ExternalServiceName unitset) (ExternalService (us_Spec unitset))
            (map portOf (filter (\<lambda>p. validPort (cp_ContainerPort p)) ports)))))"

definition reconcileExternalService :: "'s kube \<Rightarrow> ext \<Rightarrow> UnitSet \<Rightarrow> containerPort list \<Rightarrow> ('s, UnitSet) act" where
  "reconcileExternalService K X unitset ports =
     (if ExternalService (us_Spec unitset) = [] then ret unitset
      else tryA (getService K (Namespace (us_meta unitset)) (ExternalServiceName unitset)) (\<lambda>r. case r of
          Inr _ \<Rightarrow> ret unitset
        | Inl e \<Rightarrow>
            if \<not> IsNotFound e then fail (Fmt ''get external service error'' e)
            else thenA (createTolerant K (OService (externalService X unitset ports)) (Fmt ''create external service error''))
              (let new = annotated AnnotationExternalServiceType (ExternalService (us_Spec unitset)) unitset in
               thenA (mapErr (Fmt ''annotate unitset with external service type error'') (patchUnitset K unitset new))
                 (ret new))))"

section \<open>Services of the units\<close>

definition AnnotationUnitServiceNodeportMapPrefix :: string where
  "AnnotationUnitServiceNodeportMapPrefix = ''unit-operator/unit-service.''"
definition AnnotationUnitServiceNodeportMapSuffix :: string where
  "AnnotationUnitServiceNodeportMapSuffix = ''.nodeport.map''"
definition AnnotationUnitServiceLoadBalancerIPMapSuffix :: string where
  "AnnotationUnitServiceLoadBalancerIPMapSuffix = ''unit-operator/unit-service.loadbalancer-ip.map''"

definition nodePortKey :: "string \<Rightarrow> string" where
  "nodePortKey portName = AnnotationUnitServiceNodeportMapPrefix @ portName @ AnnotationUnitServiceNodeportMapSuffix"

definition getUnitServiceNodePortMapFromAnnotations :: "ext \<Rightarrow> UnitSet \<Rightarrow> string \<Rightarrow> (string, string) fmap option" where
  "getUnitServiceNodePortMapFromAnnotations X unitset portName =
     (if Annotations (us_meta unitset) = None \<or> portName = [] then None
      else case mfind (Annotations (us_meta unitset)) (nodePortKey portName) of
             None \<Rightarrow> None
           | Some val \<Rightarrow> if val = [] then None else Some (jsonUnmarshalMap X val))"

type_synonym portMap = "(string, (string, string) fmap) fmap"

definition portNameToNodePortMap :: "ext \<Rightarrow> UnitSet \<Rightarrow> containerPort list \<Rightarrow> portMap" where
  "portNameToNodePortMap X unitset ports =
     fold (\<lambda>p m. fmupd (cp_Name p) (case getUnitServiceNodePortMapFromAnnotations X unitset (cp_Name p) of
                                      None \<Rightarrow> fmempty | Some pm \<Rightarrow> pm) m) ports fmempty"

text \<open>\<open>int32(intPort)\<close> is the number itself within the range of ports.\<close>

definition unitPort :: "UnitSet \<Rightarrow> portMap \<Rightarrow> string \<Rightarrow> containerPort \<Rightarrow> error + servicePort" where
  "unitPort unitset maps unitName p =
     (if \<not> validPort (cp_ContainerPort p) then Inl (Msg ''invalid container port'')
      else if UnitService (us_Spec unitset) \<noteq> ''NodePort'' then Inr (portOf p)
      else case fmlookup maps (cp_Name p) of
             None \<Rightarrow> Inr (portOf p)
           | Some m \<Rightarrow>
               (case fmlookup m unitName of
                  None \<Rightarrow> Inr (portOf p)
                | Some nodePort \<Rightarrow>
                    (case Atoi nodePort of
                       None \<Rightarrow> Inl (Msg ''invalid node port'')
                     | Some intPort \<Rightarrow> if intPort \<le> 0 \<or> intPort > 65535 then Inl (Msg ''invalid node port'')
                                       else Inr ((portOf p)\<lparr>sp_NodePort := intPort\<rparr>))))"

definition unitServiceName :: "string \<Rightarrow> string" where
  "unitServiceName unitName = unitName @ ''-svc''"

definition unitService :: "ext \<Rightarrow> UnitSet \<Rightarrow> string \<Rightarrow> servicePort list \<Rightarrow> service" where
  "unitService X unitset unitName sps =
     withSelector UnitName unitName (withLabel UnitsetName (us_Name unitset) (withLabel UnitName unitName
       (serviceOf X unitset (unitServiceName unitName) (UnitService (us_Spec unitset)) sps)))"

text \<open>The body of a goroutine; the flag it shares with the others is \<open>createdAny\<close>.\<close>

definition ensureUnitService ::
  "'s kube \<Rightarrow> ext \<Rightarrow> UnitSet \<Rightarrow> portMap \<Rightarrow> containerPort list \<Rightarrow> string \<Rightarrow> (bool \<times> 's, unit) act" where
  "ensureUnitService K X unitset maps ports unitName =
     tryA (liftW (getService K (Namespace (us_meta unitset)) (unitServiceName unitName))) (\<lambda>r. case r of
        Inr _ \<Rightarrow> ret ()
      | Inl e \<Rightarrow>
          if \<not> IsNotFound e then fail (Fmt ''get unit service error'' e)
          else bindA (liftE (mapE (unitPort unitset maps unitName) ports)) (\<lambda>sps.
            thenA (liftW (createTolerant K (OService (unitService X unitset unitName sps)) (Fmt ''create unit service error'')))
              (putL True)))"

text \<open>The errors of all goroutines and \<open>createdAny\<close>.\<close>

definition createUnitServices ::
  "'s kube \<Rightarrow> ext \<Rightarrow> UnitSet \<Rightarrow> portMap \<Rightarrow> containerPort list \<Rightarrow> ('s, error list \<times> bool) act" where
  "createUnitServices K X unitset maps ports =
     bindA (shuffled K (unitNames unitset)) (\<lambda>ys s.
       case forkAll ys (ensureUnitService K X unitset maps ports) (False, s) of (errs, created, s') \<Rightarrow> (Inr (errs, created), s'))"

definition recordPort :: "string \<Rightarrow> servicePort \<Rightarrow> portMap \<times> string list \<Rightarrow> portMap \<times> string list" where
  "recordPort unitName sp st =
     (if sp_NodePort sp \<le> 0 then st
      else let m = (case fmlookup (fst st) (sp_Name sp) of None \<Rightarrow> fmempty | Some m \<Rightarrow> m) in
           if fmlookup m unitName = Some (Itoa (sp_NodePort sp)) then st
           else (fmupd (sp_Name sp) (fmupd unitName (Itoa (sp_NodePort sp)) m) (fst st), List.insert (sp_Name sp) (snd st)))"

fun observePorts :: "'s kube \<Rightarrow> string \<Rightarrow> string list \<Rightarrow> portMap \<times> string list \<Rightarrow> ('s, portMap \<times> string list) act" where
  "observePorts K ns [] st = ret st"
| "observePorts K ns (unitName # us) st =
     tryA (getService K ns (unitServiceName unitName)) (\<lambda>r.
       observePorts K ns us (case r of Inl _ \<Rightarrow> st | Inr created \<Rightarrow> fold (recordPort unitName) (svc_Ports created) st))"

fun observeIPs :: "'s kube \<Rightarrow> string \<Rightarrow> string list \<Rightarrow> (string, string) fmap \<Rightarrow> ('s, (string, string) fmap) act" where
  "observeIPs K ns [] m = ret m"
| "observeIPs K ns (unitName # us) m =
     tryA (getService K ns (unitServiceName unitName)) (\<lambda>r.
       observeIPs K ns us
         (case r of Inl _ \<Rightarrow> m
          | Inr created \<Rightarrow> (case svc_IngressIPs created of [] \<Rightarrow> m | ip # _ \<Rightarrow> fmupd unitName ip m)))"

definition writeMaps :: "ext \<Rightarrow> portMap \<Rightarrow> string list \<Rightarrow> UnitSet \<Rightarrow> UnitSet" where
  "writeMaps X maps changed unitset =
     foldl (\<lambda>u portName. annotated (nodePortKey portName)
              (jsonMarshalMap X (case fmlookup maps portName of None \<Rightarrow> fmempty | Some m \<Rightarrow> m)) u)
       (annotationsMade unitset) changed"

definition collect :: "(error \<Rightarrow> error) \<Rightarrow> ('s, 'a) act \<Rightarrow> ('s, error list) act" where
  "collect wrap m = tryA m (\<lambda>r. ret (case r of Inl e \<Rightarrow> [wrap e] | Inr _ \<Rightarrow> []))"

text \<open>What follows the creation of the services, with the errors so far.\<close>

definition recordNodePorts ::
  "'s kube \<Rightarrow> ext \<Rightarrow> portMap \<Rightarrow> UnitSet \<Rightarrow> error list \<Rightarrow> ('s, UnitSet) act" where
  "recordNodePorts K X maps unitset errs =
     bindA (if UnitService (us_Spec unitset) = ''NodePort''
            then observePorts K (Namespace (us_meta unitset)) (unitNames unitset) (maps, []) else ret (maps, [])) (\<lambda>(maps', changed).
       if changed = [] then thenA (aggregate errs) (ret unitset)
       else let new = writeMaps X maps' changed unitset in
         bindA (collect (Fmt ''patch unitset nodePort maps error'') (patchUnitset K unitset new)) (\<lambda>es.
           thenA (aggregate (errs @ es)) (ret new)))"

definition recordIPs :: "'s kube \<Rightarrow> ext \<Rightarrow> (string, string) fmap \<Rightarrow> UnitSet \<Rightarrow> ('s, UnitSet) act" where
  "recordIPs K X ips unitset =
     (if fmdom ips = {||} then ret unitset
      else if mstr (Annotations (us_meta unitset)) AnnotationUnitServiceLoadBalancerIPMapSuffix = jsonMarshalMap X ips
      then ret (annotationsMade unitset)
      else let new = annotated AnnotationUnitServiceLoadBalancerIPMapSuffix (jsonMarshalMap X ips) unitset in
        thenA (mapErr (Fmt ''patch unitset loadbalancer ip maps error'') (patchUnitset K unitset new)) (ret new))"

definition recordServices ::
  "'s kube \<Rightarrow> ext \<Rightarrow> portMap \<Rightarrow> UnitSet \<Rightarrow> error list \<Rightarrow> bool \<Rightarrow> ('s, UnitSet) act" where
  "recordServices K X maps unitset errs created =
     (let u1 = (if created then annotated AnnotationUnitServiceType (UnitService (us_Spec unitset)) unitset else unitset) in
      bindA (if created then collect (Fmt ''annotate unitset with unit service type error'') (patchUnitset K unitset u1)
             else ret []) (\<lambda>es.
      bindA (if UnitService (us_Spec unitset) = ''LoadBalancer''
             then observeIPs K (Namespace (us_meta unitset)) (unitNames unitset) fmempty else ret fmempty) (\<lambda>ips.
      bindA (recordNodePorts K X maps u1 (errs @ es)) (recordIPs K X ips))))"

definition reconcileUnitService :: "'s kube \<Rightarrow> ext \<Rightarrow> UnitSet \<Rightarrow> containerPort list \<Rightarrow> ('s, UnitSet) act" where
  "reconcileUnitService K X unitset ports =
     (if UnitService (us_Spec unitset) = [] then ret unitset
      else let maps = portNameToNodePortMap X unitset ports in
        bindA (createUnitServices K X unitset maps ports) (\<lambda>(errs, created). recordServices K X maps unitset errs created))"

section \<open>Recording and asking for node ports\<close>

lemma annotated_simps [simp]:
  "Annotations (us_meta (annotated k v u)) = mput k v (Annotations (us_meta u))"
  "us_Spec (annotated k v u) = us_Spec u" "Name (us_meta (annotated k v u)) = Name (us_meta u)"
  "Namespace (us_meta (annotated k v u)) = Namespace (us_meta u)" "us_Status (annotated k v u) = us_Status u"
  by (simp_all add: annotated_def)

lemma annotationsMade_simps [simp]:
  "Annotations (us_meta (annotationsMade u)) = minit (Annotations (us_meta u))"
  "us_Spec (annotationsMade u) = us_Spec u" "Name (us_meta (annotationsMade u)) = Name (us_meta u)"
  "Namespace (us_meta (annotationsMade u)) = Namespace (us_meta u)"
  by (simp_all add: annotationsMade_def)

lemma nodePortKey_inject [simp]: "nodePortKey a = nodePortKey b \<longleftrightarrow> a = b"
  by (simp add: nodePortKey_def)

lemma lookup_fold_fmupd:
  "fmlookup (fold (\<lambda>p m. fmupd (g p) (h (g p)) m) ps m0) k = (if k \<in> g ` set ps then Some (h k) else fmlookup m0 k)"
  by (induction ps arbitrary: m0) auto

lemma portMap_lookup:
  "fmlookup (portNameToNodePortMap X us ports) n =
     (if n \<in> cp_Name ` set ports
      then Some (case getUnitServiceNodePortMapFromAnnotations X us n of None \<Rightarrow> fmempty | Some pm \<Rightarrow> pm) else None)"
  unfolding portNameToNodePortMap_def by (subst lookup_fold_fmupd) simp

lemma writeMaps_simps [simp]:
  "us_Spec (writeMaps X maps ns u) = us_Spec u" "Annotations (us_meta (writeMaps X maps ns u)) \<noteq> None"
  "Name (us_meta (writeMaps X maps ns u)) = Name (us_meta u)" "Namespace (us_meta (writeMaps X maps ns u)) = Namespace (us_meta u)"
  by (induction ns rule: rev_induct) (simp_all add: writeMaps_def)

lemma writeMaps_find:
  "mfind (Annotations (us_meta (writeMaps X maps ns u))) (nodePortKey n) =
     (if n \<in> set ns then Some (jsonMarshalMap X (case fmlookup maps n of None \<Rightarrow> fmempty | Some m \<Rightarrow> m))
      else mfind (Annotations (us_meta u)) (nodePortKey n))"
  by (induction ns rule: rev_induct) (auto simp: writeMaps_def)

text \<open>What recording the ports of a service leaves in the maps.\<close>

lemma recordPort_other:
  "n \<noteq> sp_Name sp \<Longrightarrow> fmlookup (fst (recordPort u sp st)) n = fmlookup (fst st) n"
  "n \<noteq> sp_Name sp \<Longrightarrow> n \<in> set (snd (recordPort u sp st)) \<longleftrightarrow> n \<in> set (snd st)"
  by (simp_all add: recordPort_def Let_def)

lemma recordPorts_other:
  assumes "n \<notin> sp_Name ` set sps"
  shows "fmlookup (fst (fold (recordPort u) sps st)) n = fmlookup (fst st) n"
    and "n \<in> set (snd (fold (recordPort u) sps st)) \<longleftrightarrow> n \<in> set (snd st)"
  using assms by (induction sps arbitrary: st) (simp_all add: recordPort_other)

definition mapsAgree :: "portMap \<Rightarrow> portMap \<times> string list \<Rightarrow> string \<Rightarrow> bool" where
  "mapsAgree maps st n \<longleftrightarrow> n \<in> set (snd st) \<or> fmlookup (fst st) n = fmlookup maps n"

lemma recordPort_agree: "mapsAgree maps st n \<Longrightarrow> mapsAgree maps (recordPort u sp st) n"
  by (auto simp: mapsAgree_def recordPort_def Let_def)

lemma recordPorts_agree: "mapsAgree maps st n \<Longrightarrow> mapsAgree maps (fold (recordPort u) sps st) n"
  by (induction sps arbitrary: st) (simp_all add: recordPort_agree)

lemma recordPort_here:
  assumes "0 < sp_NodePort sp"
  shows "\<exists>m. fmlookup (fst (recordPort u sp st)) (sp_Name sp) = Some m \<and> fmlookup m u = Some (Itoa (sp_NodePort sp))"
  using assms by (auto simp: recordPort_def Let_def split: option.splits)

lemma recordPorts_here:
  assumes "distinct (map sp_Name sps)" and "sp \<in> set sps" and "0 < sp_NodePort sp"
  shows "\<exists>m. fmlookup (fst (fold (recordPort u) sps st)) (sp_Name sp) = Some m \<and> fmlookup m u = Some (Itoa (sp_NodePort sp))"
  using assms
proof (induction sps arbitrary: st)
  case (Cons x sps)
  show ?case
  proof (cases "sp = x")
    case True
    with Cons.prems have "sp_Name sp \<notin> sp_Name ` set sps" by auto
    with True recordPort_here [OF Cons.prems(3)] show ?thesis by (simp add: recordPorts_other)
  next
    case False
    with Cons show ?thesis by simp
  qed
qed simp

text \<open>
  C10 (\<open>reconcileUnitService\<close>): a node port is kept when the service of a unit is created anew. If the
  ports of the unit's service are recorded in the annotations of the set, the ports built for the unit
  from those annotations ask for the same node port.
\<close>

theorem node_port_roundtrip:
  assumes X: "ext_json X" and np: "UnitService (us_Spec us) = ''NodePort''"
    and sp: "distinct (map sp_Name (svc_Ports svc))" "sp \<in> set (svc_Ports svc)" "1 \<le> sp_NodePort sp" "sp_NodePort sp \<le> 65535"
    and p: "p \<in> set ports" "cp_Name p = sp_Name sp" "cp_Name p \<noteq> []" "validPort (cp_ContainerPort p)"
    and st: "fold (recordPort unitName) (svc_Ports svc) (portNameToNodePortMap X us ports, []) = (maps, changed)"
    and ascii: "\<forall>m. fmlookup maps (cp_Name p) = Some m \<longrightarrow> asciiMap m"
    and json: "\<And>m. m \<noteq> fmempty \<Longrightarrow> jsonMarshalMap X m \<noteq> []"
  shows "unitPort (writeMaps X maps changed us) (portNameToNodePortMap X (writeMaps X maps changed us) ports) unitName p =
    Inr ((portOf p)\<lparr>sp_NodePort := sp_NodePort sp\<rparr>)"
proof -
  let ?us = "writeMaps X maps changed us" and ?n = "cp_Name p"
  obtain m where m: "fmlookup maps ?n = Some m" "fmlookup m unitName = Some (Itoa (sp_NodePort sp))"
    using recordPorts_here [OF sp(1,2), of unitName "(portNameToNodePortMap X us ports, [])"] sp(3) st p(2) by auto
  then have ne: "m \<noteq> fmempty" by auto
  have agree: "?n \<in> set changed \<or> fmlookup maps ?n = fmlookup (portNameToNodePortMap X us ports) ?n"
    using recordPorts_agree [of "portNameToNodePortMap X us ports" "(portNameToNodePortMap X us ports, [])" ?n unitName "svc_Ports svc"] st
    by (simp add: mapsAgree_def)
  have "(case getUnitServiceNodePortMapFromAnnotations X ?us ?n of None \<Rightarrow> fmempty | Some pm \<Rightarrow> pm) = m"
  proof (cases "?n \<in> set changed")
    case True
    with m ascii p(3) ext_json.json_roundtrip [OF X] json [OF ne] show ?thesis
      by (simp add: getUnitServiceNodePortMapFromAnnotations_def writeMaps_find)
  next
    case False
    with agree m(1) p(1) have "(case getUnitServiceNodePortMapFromAnnotations X us ?n of None \<Rightarrow> fmempty | Some pm \<Rightarrow> pm) = m"
      by (simp add: portMap_lookup)
    with ne False show ?thesis
      by (auto simp: getUnitServiceNodePortMapFromAnnotations_def writeMaps_find split: option.splits if_splits)
  qed
  then have "fmlookup (portNameToNodePortMap X ?us ports) ?n = Some m" using p(1) by (simp add: portMap_lookup)
  moreover have "Atoi (Itoa (sp_NodePort sp)) = Some (sp_NodePort sp)"
    using sp(3,4) by (intro Atoi_Itoa) (simp add: is_int64_def)
  ultimately show ?thesis using m(2) np p(4) sp(3,4) by (simp add: unitPort_def)
qed


text \<open>A set whose only unit has a node port.\<close>

definition portSet :: UnitSet where
  "portSet = (sampleUnitSet ''db'' 1)\<lparr>us_Spec := (us_Spec (sampleUnitSet ''db'' 1))\<lparr>UnitService := ''NodePort''\<rparr>\<rparr>"

definition samplePort :: containerPort where
  "samplePort = \<lparr>cp_Name = ''sql'', cp_ContainerPort = 3306, cp_Protocol = ''TCP'', cp_other = []\<rparr>"

definition sampleService :: service where
  "sampleService = (unitService plainExt portSet ''db-0'' [(portOf samplePort)\<lparr>sp_NodePort := 30139\<rparr>])"

lemma plain_json_nonempty: "m \<noteq> fmempty \<Longrightarrow> jsonMarshalMap plainExt m \<noteq> []"
proof
  assume m: "m \<noteq> fmempty" and "jsonMarshalMap plainExt m = []"
  then have "mapPairs m = []" using markPairs_length [of "mapPairs m"] by (simp add: plainExt_def)
  with map_of_mapPairs [of m] m show False by (metis fmap_of_list_simps(1))
qed

theorem node_port_roundtrip_witness:
  "\<exists>maps changed. unitPort (writeMaps plainExt maps changed portSet)
     (portNameToNodePortMap plainExt (writeMaps plainExt maps changed portSet) [samplePort]) ''db-0'' samplePort =
   Inr ((portOf samplePort)\<lparr>sp_NodePort := 30139\<rparr>)"
proof -
  have ports: "svc_Ports sampleService = [(portOf samplePort)\<lparr>sp_NodePort := 30139\<rparr>]"
    by (simp add: sampleService_def unitService_def withSelector_def withLabel_def serviceOf_def)
  have a: "Annotations (us_meta portSet) = None" by (simp add: portSet_def sampleUnitSet_def zero_defs)
  have st: "fold (recordPort ''db-0'') (svc_Ports sampleService) (portNameToNodePortMap plainExt portSet [samplePort], []) =
      (fmupd ''sql'' (fmupd ''db-0'' (Itoa 30139) fmempty) (fmupd ''sql'' fmempty fmempty), [''sql''])"
    unfolding ports by (simp add: recordPort_def portOf_def samplePort_def portNameToNodePortMap_def a
        getUnitServiceNodePortMapFromAnnotations_def)
  have i: "list_all (\<lambda>c. of_char c < (128 :: nat)) (Itoa 30139)"
    using set_nat_digits by (force simp: Itoa_def list_all_iff)
  have r: "fBall (fmran (fmupd ''db-0'' (Itoa 30139) fmempty)) (list_all (\<lambda>c. of_char c < (128 :: nat)))"
    using i by (auto simp: fmlookup_ran_iff split: if_splits)
  let ?sp = "(portOf samplePort)\<lparr>sp_NodePort := 30139\<rparr>"
  have np: "UnitService (us_Spec portSet) = ''NodePort''" by (simp add: portSet_def)
  have "unitPort (writeMaps plainExt (fmupd ''sql'' (fmupd ''db-0'' (Itoa 30139) fmempty) (fmupd ''sql'' fmempty fmempty)) [''sql''] portSet)
     (portNameToNodePortMap plainExt
       (writeMaps plainExt (fmupd ''sql'' (fmupd ''db-0'' (Itoa 30139) fmempty) (fmupd ''sql'' fmempty fmempty)) [''sql''] portSet)
       [samplePort]) ''db-0'' samplePort = Inr ((portOf samplePort)\<lparr>sp_NodePort := sp_NodePort ?sp\<rparr>)"
    by (rule node_port_roundtrip [OF plain.ext_json_axioms np _ _ _ _ _ _ _ _ st _ plain_json_nonempty])
      (simp_all add: ports samplePort_def portOf_def validPort_def asciiMap_def r)
  then show ?thesis by auto
qed

section \<open>Every unit has its service\<close>

lemma map_le_some: "m \<subseteq>\<^sub>m m' \<Longrightarrow> m k \<noteq> None \<Longrightarrow> m' k \<noteq> None"
  by (metis domIff map_le_def)

text \<open>A fan-out in which every body keeps \<open>I\<close>, and what a successful body reaches stays.\<close>

lemma forkAll_post:
  assumes body: "\<And>x s r s'. x \<in> set xs \<Longrightarrow> I s \<Longrightarrow> f x s = (r, s') \<Longrightarrow> I s' \<and> R s s' \<and> (r = Inr () \<longrightarrow> Q x s')"
    and stable: "\<And>x s s'. Q x s \<Longrightarrow> R s s' \<Longrightarrow> Q x s'"
    and refl: "\<And>s. R s s" and trans: "\<And>s t u. R s t \<Longrightarrow> R t u \<Longrightarrow> R s u"
  shows "I s \<Longrightarrow> forkAll xs f s = (errs, s') \<Longrightarrow> I s' \<and> R s s' \<and> (errs = [] \<longrightarrow> (\<forall>x \<in> set xs. Q x s'))"
  using body
proof (induction xs arbitrary: s errs s')
  case Nil
  then show ?case using refl by simp
next
  case (Cons x xs)
  obtain r t where r: "f x s = (r, t)" by fastforce
  obtain es u where es: "forkAll xs f t = (es, u)" by fastforce
  have t: "I t" "R s t" "r = Inr () \<Longrightarrow> Q x t" using Cons.prems(3) [OF _ Cons.prems(1) r] by simp_all
  have u: "I u \<and> R t u \<and> (es = [] \<longrightarrow> (\<forall>x \<in> set xs. Q x u))"
    by (rule Cons.IH [OF t(1) es], rule Cons.prems(3)) simp_all
  from Cons.prems(2) r es have "s' = u" "errs = (case r of Inl e \<Rightarrow> e # es | Inr _ \<Rightarrow> es)" by simp_all
  with u t stable [of x t u] trans [OF t(2)] show ?case by (cases r) auto
qed

abbreviation unitServiceKey :: "UnitSet \<Rightarrow> string \<Rightarrow> okey" where
  "unitServiceKey us u \<equiv> (KService, Namespace (us_meta us), unitServiceName u)"

text \<open>A service made for a unit from the ports of the pod template and the recorded node ports.\<close>

definition madeFor :: "UnitSet \<Rightarrow> portMap \<Rightarrow> containerPort list \<Rightarrow> string \<Rightarrow> service \<Rightarrow> bool" where
  "madeFor us maps ports u svc \<longleftrightarrow> svc_Type svc = UnitService (us_Spec us) \<and>
     mbody (svc_Selector svc) = fmupd UnitName u fmempty \<and>
     (\<exists>sps. mapE (unitPort us maps u) ports = Inr sps \<and> list_all2 portStored sps (svc_Ports svc))"

lemma unitService_simps [simp]:
  "keyOf (OService (unitService X us u sps)) = unitServiceKey us u"
  "svc_Type (unitService X us u sps) = UnitService (us_Spec us)"
  "mbody (svc_Selector (unitService X us u sps)) = fmupd UnitName u fmempty"
  "svc_Ports (unitService X us u sps) = sps"
  by (simp_all add: unitService_def withSelector_def withLabel_def serviceOf_def keyOf_def)

definition servicesInv :: "UnitSet \<Rightarrow> portMap \<Rightarrow> containerPort list \<Rightarrow> objview \<Rightarrow> objview \<Rightarrow> bool" where
  "servicesInv us maps ports v w \<longleftrightarrow>
     (\<forall>u. w (unitServiceKey us u) = v (unitServiceKey us u) \<or>
        (\<exists>svc. w (unitServiceKey us u) = Some (OService svc) \<and> madeFor us maps ports u svc))"

abbreviation sameKey :: "UnitSet \<Rightarrow> UnitSet \<Rightarrow> bool" where
  "sameKey us us' \<equiv> Namespace (us_meta us') = Namespace (us_meta us) \<and> Name (us_meta us') = Name (us_meta us)"

context kube_api
begin

lemma keeps_patchUnitset [triple_rules]:
  assumes "unitSetKey (Namespace (us_meta old)) (Name (us_meta old)) \<in> A"
  shows "keeps (frame view A v) (patchUnitset K old new)"
  unfolding patchUnitset_def
  by (intro keeps_case_sum keeps_fail keeps_if keeps_ret keeps_bindA keeps_frame_writes) (simp add: assms)

lemma keeps_collect [triple_rules]: "keeps I m \<Longrightarrow> keeps I (collect wrap m)"
  unfolding collect_def by (intro keeps_tryA keeps_ret)

lemma keeps_observePorts [triple_rules]: "keeps (frame view A v) (observePorts K ns us st)"
  by (induction us arbitrary: st) (simp_all only: observePorts.simps keeps_ret keeps_tryA keeps_frame_reads)

lemma keeps_observeIPs [triple_rules]: "keeps (frame view A v) (observeIPs K ns us m)"
  by (induction us arbitrary: m) (simp_all only: observeIPs.simps keeps_ret keeps_tryA keeps_frame_reads)

lemma keeps_recordIPs [triple_rules]:
  assumes "unitSetKey (Namespace (us_meta us)) (Name (us_meta us)) \<in> A"
  shows "keeps (frame view A v) (recordIPs K X ips us)"
  unfolding recordIPs_def Let_def by (intro keeps_if keeps_ret keeps_thenA keeps_mapErr keeps_patchUnitset assms)

lemma keeps_recordNodePorts [triple_rules]:
  assumes "unitSetKey (Namespace (us_meta us)) (Name (us_meta us)) \<in> A"
  shows "keeps (frame view A v) (recordNodePorts K X maps us errs)"
  unfolding recordNodePorts_def Let_def split_beta
  by (intro keeps_if keeps_ret keeps_thenA keeps_bindA keeps_observePorts keeps_aggregate keeps_collect keeps_patchUnitset assms)

lemma getService_cases:
  assumes "getService K ns n s = (r, s')"
  shows "view s' = view s" and "r = Inl e \<Longrightarrow> IsNotFound e \<Longrightarrow> view s (KService, ns, n) = None"
    and "r = Inr x \<Longrightarrow> view s (KService, ns, n) = Some (OService x)"
  using getAs_cases [OF assms [unfolded getService_def]] getAs_Inr(1) [of asService "(KService, ns, n)" s x s']
    assms [unfolded getService_def] by auto

text \<open>Whatever a tolerant creation reports, either nothing has changed or the object is there now.\<close>

lemma createTolerant_cases:
  assumes "createTolerant K ob wrap s = (r, s')"
  shows "view s' = view s \<or> (\<exists>ob'. createEff wire ob ob' (view s) (view s'))"
proof -
  obtain c t where c: "kCreate K ob s = (c, t)" by fastforce
  then have "s' = t" using assms
    by (auto simp: createTolerant_def tryA_def createObj_def liftApi_def split: sum.splits prod.splits if_splits)
  with writeLaw_eff [OF create_law c] show ?thesis by simp
qed

lemma ensureUnitService_step:
  assumes I: "servicesInv us maps ports v (view (snd p))" and f: "ensureUnitService K X us maps ports u p = (r, q)"
  shows "servicesInv us maps ports v (view (snd q)) \<and> view (snd p) \<subseteq>\<^sub>m view (snd q) \<and>
    (r = Inr () \<longrightarrow> view (snd q) (unitServiceKey us u) \<noteq> None)"
proof -
  obtain g t where g: "getService K (Namespace (us_meta us)) (unitServiceName u) (snd p) = (g, t)" by fastforce
  note t = getService_cases [OF g]
  have same: ?thesis if "view (snd q) = view (snd p)" "r = Inr () \<Longrightarrow> view (snd p) (unitServiceKey us u) \<noteq> None"
    using that I by simp
  show ?thesis
  proof (cases "\<exists>e sps. g = Inl e \<and> IsNotFound e \<and> mapE (unitPort us maps u) ports = Inr sps")
    case False
    show ?thesis
    proof (cases g)
      case (Inr x)
      with f g t(1,3) show ?thesis by (intro same) (auto simp: ensureUnitService_def tryA_def liftW_def)
    next
      case (Inl e)
      with False have "\<not> IsNotFound e \<or> (\<exists>e'. mapE (unitPort us maps u) ports = Inl e')"
        by (cases "mapE (unitPort us maps u) ports") auto
      with Inl f g t(1) show ?thesis
        by (intro same) (auto simp: ensureUnitService_def tryA_def liftW_def bindA_def split: if_splits)
    qed
  next
    case True
    then obtain e sps where e: "g = Inl e" "IsNotFound e" "mapE (unitPort us maps u) ports = Inr sps" by blast
    let ?ob = "OService (unitService X us u sps)"
    obtain c w where c: "createTolerant K ?ob (Fmt ''create unit service error'') t = (c, w)" by fastforce
    from f g e c have q: "snd q = w" "r = (case c of Inl e \<Rightarrow> Inl e | Inr _ \<Rightarrow> Inr ())"
      by (auto simp: ensureUnitService_def tryA_def liftW_def thenA_def bindA_def putL_def split: sum.splits)
    have absent: "view t (unitServiceKey us u) = None" using t(1) t(2) [OF e(1,2)] by simp
    from createTolerant_cases [OF c] show ?thesis
    proof
      assume w: "view w = view t"
      have "c \<noteq> Inr ()"
      proof
        assume "c = Inr ()"
        with createTolerant_exists [OF c [unfolded this]] w absent show False
          by (auto simp: createEff_def dest!: fun_cong [of _ _ "unitServiceKey us u"])
      qed
      with q w t(1) show ?thesis by (intro same) (auto split: sum.splits)
    next
      assume "\<exists>ob'. createEff wire ?ob ob' (view t) (view w)"
      then obtain ob' where ob: "keyOf ob' = unitServiceKey us u" "createStored wire ?ob ob'"
        "view w = (view t)(unitServiceKey us u \<mapsto> ob')" by (auto simp: createEff_def)
      then obtain svc where svc: "ob' = OService svc" by (auto simp: keyOf_def kindOf_iffs)
      with ob e(3) have "madeFor us maps ports u svc" by (auto simp: madeFor_def serviceStored_def)
      with I t(1) ob(3) svc q(1) absent show ?thesis
        by (auto simp: servicesInv_def map_le_def unitServiceName_def dom_def)
    qed
  qed
qed

lemma createUnitServices_all:
  assumes run: "createUnitServices K X us maps ports s = (Inr ([], created), s')" and u: "u \<in> set (unitNames us)"
  shows "\<exists>svc. view s' (unitServiceKey us u) = Some (OService svc) \<and>
    (view s (unitServiceKey us u) = Some (OService svc) \<or> madeFor us maps ports u svc)"
proof -
  let ?f = "ensureUnitService K X us maps ports"
  from run obtain ys t where ys: "shuffled K (unitNames us) s = (Inr ys, t)"
    and f: "forkAll ys ?f (False, t) = ([], (created, s'))"
    by (auto simp: createUnitServices_def bindA_def split: prod.splits sum.splits)
  have t: "view t = view s" using keepsD' [OF keeps_shuffled [of "\<lambda>w. w = view s"] refl ys] .
  have "servicesInv us maps ports (view s) (view (snd (created, s'))) \<and> view (snd (False, t)) \<subseteq>\<^sub>m view (snd (created, s')) \<and>
      (([] :: error list) = [] \<longrightarrow> (\<forall>x \<in> set ys. view (snd (created, s')) (unitServiceKey us x) \<noteq> None))"
  proof (rule forkAll_post [OF _ _ _ _ _ f, where I = "\<lambda>p. servicesInv us maps ports (view s) (view (snd p))"
        and R = "\<lambda>p q. view (snd p) \<subseteq>\<^sub>m view (snd q)" and Q = "\<lambda>x p. view (snd p) (unitServiceKey us x) \<noteq> None"])
    show "servicesInv us maps ports (view s) (view (snd (False, t)))" by (simp add: t servicesInv_def)
    show "\<And>x p q. view (snd p) (unitServiceKey us x) \<noteq> None \<Longrightarrow> view (snd p) \<subseteq>\<^sub>m view (snd q) \<Longrightarrow>
        view (snd q) (unitServiceKey us x) \<noteq> None" by (rule map_le_some)
  qed (use ensureUnitService_step map_le_trans map_le_refl in \<open>blast+\<close>)
  moreover have "u \<in> set ys" using u shuffled_subset [OF ys] by simp
  ultimately obtain ob where ob: "view s' (unitServiceKey us u) = Some ob"
    and I: "servicesInv us maps ports (view s) (view s')" by auto
  obtain svc where svc: "ob = OService svc" using view_key [OF ob] by (auto simp: keyOf_def kindOf_iffs)
  with I ob show ?thesis unfolding servicesInv_def by (metis (no_types, lifting) obj.inject(9) option.inject)
qed

lemma recordNodePorts_key:
  assumes "unitSetKey (Namespace (us_meta us)) (Name (us_meta us)) \<in> A"
  shows "triple (frame view A v) (recordNodePorts K X maps us errs) (\<lambda>us' s. sameKey us us' \<and> frame view A v s) (\<lambda>_. frame view A v)"
proof (rule tripleI)
  fix s us' s' assume "frame view A v s" and r: "recordNodePorts K X maps us errs s = (Inr us', s')"
  with keepsD' [OF keeps_recordNodePorts [OF assms]] have "frame view A v s'" .
  with r show "sameKey us us' \<and> frame view A v s'"
    by (auto simp: recordNodePorts_def bindA_eq_Inr_iff thenA_eq_Inr_iff Let_def split: if_splits)
qed (rule keepsD' [OF keeps_recordNodePorts [OF assms]])

lemma keeps_recordServices [triple_rules]:
  assumes "unitSetKey (Namespace (us_meta us)) (Name (us_meta us)) \<in> A"
  shows "keeps (frame view A v) (recordServices K X maps us errs created)"
  unfolding recordServices_def Let_def
  by (intro keeps_bindA keeps_if keeps_collect keeps_patchUnitset keeps_ret keeps_observeIPs keeps_bind_if [OF recordNodePorts_key]
      keeps_recordIPs) (simp_all add: assms)

lemma reconcileUnitService_services:
  assumes "UnitService (us_Spec us) \<noteq> []" and "reconcileUnitService K X us ports s = (Inr us', s')" and "u \<in> set (unitNames us)"
  shows "\<exists>svc. view s' (unitServiceKey us u) = Some (OService svc) \<and>
    (view s (unitServiceKey us u) = Some (OService svc) \<or> madeFor us (portNameToNodePortMap X us ports) ports u svc)"
proof -
  let ?maps = "portNameToNodePortMap X us ports" and ?A = "{unitSetKey (Namespace (us_meta us)) (Name (us_meta us))}"
  from assms(1,2) obtain errs created t where c: "createUnitServices K X us ?maps ports s = (Inr (errs, created), t)"
    and r: "recordServices K X ?maps us errs created t = (Inr us', s')"
    by (auto simp: reconcileUnitService_def Let_def bindA_eq_Inr_iff)
  have "errs = []" using r
    by (auto simp: recordServices_def bindA_eq_Inr_iff recordNodePorts_def Let_def thenA_eq_Inr_iff aggregate_def split: if_splits)
  moreover have "view s' (unitServiceKey us u) = view t (unitServiceKey us u)"
    using frame_apply [OF keeps_recordServices, of us ?A "unitServiceKey us u" X ?maps errs created t] r by simp
  ultimately show ?thesis using createUnitServices_all [of X us ?maps ports s created t u] c assms(3) by simp
qed

end

text \<open>The port of the service of unit \<open>u\<close> for a port of the pod template.\<close>

definition portFor :: "ext \<Rightarrow> UnitSet \<Rightarrow> string \<Rightarrow> containerPort \<Rightarrow> servicePort \<Rightarrow> bool" where
  "portFor X us u p sp \<longleftrightarrow>
     sp_Name sp = cp_Name p \<and> sp_Port sp = cp_ContainerPort p \<and> 1 \<le> sp_Port sp \<and> sp_Port sp \<le> 65535 \<and>
     (\<forall>m np. UnitService (us_Spec us) = ''NodePort'' \<and> getUnitServiceNodePortMapFromAnnotations X us (cp_Name p) = Some m \<and>
        fmlookup m u = Some np \<longrightarrow> Atoi np = Some (sp_NodePort sp) \<and> 1 \<le> sp_NodePort sp \<and> sp_NodePort sp \<le> 65535)"

lemma unitPort_Inr:
  assumes "unitPort us (portNameToNodePortMap X us ports) u p = Inr sp" and "p \<in> set ports"
  shows "sp_Name sp = cp_Name p \<and> sp_Port sp = cp_ContainerPort p \<and> 1 \<le> sp_Port sp \<and> sp_Port sp \<le> 65535"
    and "UnitService (us_Spec us) = ''NodePort'' \<Longrightarrow> getUnitServiceNodePortMapFromAnnotations X us (cp_Name p) = Some m \<Longrightarrow>
      fmlookup m u = Some np \<Longrightarrow> Atoi np = Some (sp_NodePort sp) \<and> 1 \<le> sp_NodePort sp \<and> sp_NodePort sp \<le> 65535"
  using assms
  by (auto simp: unitPort_def validPort_def portOf_def portMap_lookup split: if_splits option.splits)

text \<open>
  C11 (\<open>reconcileUnitService\<close>): if it reports success, every unit of the set has a service. A service
  that was there is left as it is; one that was not is of the type the spec asks for, selects the pods
  of the unit, has the ports of the pod template in their order with numbers from 1 to 65535, and has
  the node port that the annotations of the set record for the unit.
\<close>

theorem unit_services_complete:
  assumes "kube_api K view wire" and "UnitService (us_Spec us) \<noteq> []" and "u \<in> set (unitNames us)"
    and "reconcileUnitService K X us ports s = (Inr us', s')"
  shows "\<exists>svc. view s' (KService, Namespace (us_meta us), unitServiceName u) = Some (OService svc) \<and>
    (view s (KService, Namespace (us_meta us), unitServiceName u) = Some (OService svc) \<or>
     svc_Type svc = UnitService (us_Spec us) \<and> mbody (svc_Selector svc) = fmupd UnitName u fmempty \<and>
     list_all2 (portFor X us u) ports (svc_Ports svc))"
proof -
  have ports: "list_all2 (portFor X us u) ports (svc_Ports svc)" if made: "madeFor us (portNameToNodePortMap X us ports) ports u svc" for svc
  proof -
    let ?maps = "portNameToNodePortMap X us ports"
    obtain sps where "list_all2 (\<lambda>p sp. unitPort us ?maps u p = Inr sp) ports sps" and "list_all2 portStored sps (svc_Ports svc)"
      using made by (auto simp: madeFor_def mapE_Inr_iff)
    then have l: "list_all2 (\<lambda>p sp. \<exists>q. unitPort us ?maps u p = Inr q \<and> portStored q sp) ports (svc_Ports svc)"
      by (rule list_all2_trans [rotated]) blast
    show ?thesis
    proof (rule list.rel_mono_strong [OF l])
      fix p sp assume p: "p \<in> set ports" and "\<exists>q. unitPort us ?maps u p = Inr q \<and> portStored q sp"
      then obtain q where q: "unitPort us ?maps u p = Inr q" "portStored q sp" by blast
      note f = unitPort_Inr(1) [OF q(1) p] and n = unitPort_Inr(2) [OF q(1) p]
      have "Atoi np = Some (sp_NodePort sp) \<and> 1 \<le> sp_NodePort sp \<and> sp_NodePort sp \<le> 65535"
        if "UnitService (us_Spec us) = ''NodePort''" "getUnitServiceNodePortMapFromAnnotations X us (cp_Name p) = Some m"
          "fmlookup m u = Some np" for m np
        using n [OF that] q(2) by (auto simp: portStored_def)
      with f q(2) show "portFor X us u p sp" by (auto simp: portFor_def portStored_def)
    qed
  qed
  from kube_api.reconcileUnitService_services [OF assms(1,2,4,3)] ports show ?thesis
    unfolding madeFor_def by blast
qed

theorem unit_services_complete_witness:
  "\<exists>us' s' svc. reconcileUnitService memKube plainExt portSet [samplePort] \<lparr>m_store = [OUnitSet portSet], m_rv = 1, m_faults = []\<rparr> = (Inr us', s') \<and>
     memView s' (KService, ''ns'', ''db-0-svc'') = Some (OService svc) \<and> svc_Type svc = ''NodePort''"
proof -
  let ?m = "reconcileUnitService memKube plainExt portSet [samplePort] \<lparr>m_store = [OUnitSet portSet], m_rv = 1, m_faults = []\<rparr>"
  have ok: "\<not> isl (fst ?m)" by code_simp
  then obtain us' where run: "?m = (Inr us', snd ?m)" by (metis prod.collapse sum.collapse(2))
  have n: "unitServiceName ''db-0'' = ''db-0-svc''" "Namespace (us_meta portSet) = ''ns''"
    "UnitService (us_Spec portSet) = ''NodePort''" by code_simp+
  have u: "''db-0'' \<in> set (unitNames portSet)" by code_simp
  have a: "memView \<lparr>m_store = [OUnitSet portSet], m_rv = 1, m_faults = []\<rparr> (KService, ''ns'', ''db-0-svc'') = None"
    by (simp add: memView_def keyOf_def)
  show ?thesis
    using unit_services_complete [OF mem.kube_api_axioms _ u run] run unfolding n a by (metis list.discI option.discI)
qed

end
