(* ===== verification/UnitSetResources.thy ===== *)
theory UnitSetResources
  imports UnitTemplate ProjectController UnitSetServices
begin

text \<open>
  What else a UnitSet needs around its units: certificates of cert-manager
  (\<open>src/pkg/controller/unitset/unitset_secret.go\<close>), a pod monitor (\<open>unitset_podmonitor.go\<close>) and the
  service account the agents run under (\<open>unitset_serviceaccount.go\<close>).
\<close>

section \<open>Certificates\<close>

definition CertmanagerIssuerSuffix :: string where "CertmanagerIssuerSuffix = ''certmanager-issuer''"

definition issuerName :: "string \<Rightarrow> string" where
  "issuerName unitName = unitName @ ''-'' @ CertmanagerIssuerSuffix"

definition certificateName :: "string \<Rightarrow> string" where
  "certificateName unitName = unitName @ ''-'' @ CertmanagerCertificateSuffix"

definition unitIssuer :: "ext \<Rightarrow> string \<Rightarrow> UnitSet \<Rightarrow> string \<Rightarrow> issuer" where
  "unitIssuer X reqNamespace unitset unitName =
     \<lparr>iss_meta = meta0\<lparr>Namespace := reqNamespace, Name := issuerName unitName,
        OwnerReferences := [newControllerRef X (us_meta unitset) ''UnitSet'']\<rparr>,
      iss_CA = Some (RootSecret (CertificateProfile (us_Spec unitset))), iss_SelfSigned = False\<rparr>"

text \<open>Ten years, renewed ninety days before, in nanoseconds.\<close>

definition hours :: "int \<Rightarrow> int" where "hours n = n * 3600 * 1000000000"

definition unitCertificate :: "ext \<Rightarrow> string \<Rightarrow> UnitSet \<Rightarrow> string \<Rightarrow> certificate" where
  "unitCertificate X reqNamespace unitset unitName =
     \<lparr>cert_meta = meta0\<lparr>Name := certificateName unitName, Namespace := reqNamespace,
        OwnerReferences := [newControllerRef X (us_meta unitset) ''UnitSet'']\<rparr>,
      IsCA = False, CommonName = [],
      DNSNames = [unitName @ ''.'' @ us_Name unitset @ ''-headless-svc.'' @ Namespace (us_meta unitset) @ ''.svc.cluster.local''],
      cert_Organizations = Some (Organizations (CertificateProfile (us_Spec unitset))),
      KeyAlgorithm = ''RSA'', KeyEncoding = ''PKCS8'', KeySize = 2048,
      IssuerRef = \<lparr>rr_APIGroup = ''cert-manager.io'', rr_Kind = ''Issuer'', rr_Name = issuerName unitName\<rparr>,
      cert_SecretName = certificateName unitName @ ''-'' @ CertmanagerSecretNameSuffix,
      Duration = hours 87600, RenewBefore = hours 2160\<rparr>"

text \<open>The errors of the goroutines are collected in a shared list; a failed step does not end its goroutine.\<close>

definition noteErr :: "('s, unit) act \<Rightarrow> (error list \<times> 's, unit) act" where
  "noteErr m = tryA (liftW m) (\<lambda>r. case r of Inr _ \<Rightarrow> ret () | Inl e \<Rightarrow> bindA getL (\<lambda>es. putL (es @ [e])))"

definition ensureIssuer :: "'s kube \<Rightarrow> ext \<Rightarrow> string \<Rightarrow> UnitSet \<Rightarrow> string \<Rightarrow> ('s, unit) act" where
  "ensureIssuer K X reqNamespace unitset unitName =
     ensure (getAux K KIssuer reqNamespace (issuerName unitName))
       (createTolerant K (OAux (AIssuer (unitIssuer X reqNamespace unitset unitName)))
          (Fmt ''[reconcileUnitCertificates] create cert-manager issuer error''))
       (Fmt ''[reconcileUnitCertificates] get cert-manager issuer error'')"

definition ensureCertificate :: "'s kube \<Rightarrow> ext \<Rightarrow> string \<Rightarrow> UnitSet \<Rightarrow> string \<Rightarrow> ('s, unit) act" where
  "ensureCertificate K X reqNamespace unitset unitName =
     ensure (getAux K KCertificate reqNamespace (certificateName unitName))
       (createTolerant K (OAux (ACertificate (unitCertificate X reqNamespace unitset unitName)))
          (Fmt ''[reconcileUnitCertificates] create cert-manager certificate error''))
       (Fmt ''[reconcileUnitCertificates] get cert-manager certificate error'')"

definition certifyUnit :: "'s kube \<Rightarrow> ext \<Rightarrow> string \<Rightarrow> UnitSet \<Rightarrow> string \<Rightarrow> (error list \<times> 's, unit) act" where
  "certifyUnit K X reqNamespace unitset unitName =
     thenA (noteErr (ensureIssuer K X reqNamespace unitset unitName)) (noteErr (ensureCertificate K X reqNamespace unitset unitName))"

definition reconcileUnitCertificates :: "'s kube \<Rightarrow> ext \<Rightarrow> string \<Rightarrow> UnitSet \<Rightarrow> ('s, unit) act" where
  "reconcileUnitCertificates K X reqNamespace unitset =
     (if unitNames unitset = [] then ret ()
      else if Organizations (CertificateProfile (us_Spec unitset)) = [] \<or> RootSecret (CertificateProfile (us_Spec unitset)) = [] then ret ()
      else bindA (withLocal [] (goAllL K (unitNames unitset) (certifyUnit K X reqNamespace unitset))) (\<lambda>(_, errs).
        mapErr (Fmt ''[reconcileUnitCertificates] error'') (aggregate errs)))"

section \<open>The AES key of the namespace\<close>

text \<open>The secret of the manager is copied; a nil map of it is replaced by an empty one.\<close>

definition unitset_reconcileSecret :: "'s kube \<Rightarrow> vars \<Rightarrow> string \<Rightarrow> string \<Rightarrow> ('s, unit) act" where
  "unitset_reconcileSecret K V env reqNamespace =
     (let secretName = aesSecretName env in
      ensure (getSecret K reqNamespace secretName)
        (bindA (mapErr (Fmt ''[reconcileSecret] get manager secret error'') (getSecret K (ManagerNamespace V) secretName)) (\<lambda>managerSecret.
           createTolerant K (OAux (ASecret
             \<lparr>sec_meta = meta0\<lparr>Name := secretName, Namespace := reqNamespace, Labels := minit (Labels (sec_meta managerSecret)),
                Annotations := minit (Annotations (sec_meta managerSecret))\<rparr>,
              sec_Data = sec_Data managerSecret\<rparr>))
             (Fmt ''[reconcileSecret] create secret error'')))
        (Fmt ''[reconcileSecret] get secret error''))"

section \<open>The pod monitor\<close>

definition MonitorPodMonitorCrdName :: string where "MonitorPodMonitorCrdName = ''podmonitors.monitoring.coreos.com''"
definition MonitorPodMonitorNameSuffix :: string where "MonitorPodMonitorNameSuffix = ''-exporter-podmon''"
definition defaultPodMonitorEndpointPort :: string where "defaultPodMonitorEndpointPort = ''metrics''"

definition buildRelabelConfigs :: "relabelConfig list \<Rightarrow> monitorRelabel goslice" where
  "buildRelabelConfigs configs =
     (if configs = [] then None
      else Some (map (\<lambda>c. \<lparr>mr_TargetLabel = TargetLabel c, mr_Action = Action c,
                          mr_Replacement = (if Replacement c = [] then None else Some (Replacement c))\<rparr>) configs))"

definition buildPodMetricsEndpoints :: "podMonitorInfo \<Rightarrow> metricsEndpoint list" where
  "buildPodMetricsEndpoints podMonitor =
     (if Endpoints podMonitor = [] then [\<lparr>pme_Port = defaultPodMonitorEndpointPort, pme_RelabelConfigs = None\<rparr>]
      else map (\<lambda>e. \<lparr>pme_Port = (if me_Port e = [] then defaultPodMonitorEndpointPort else me_Port e),
                    pme_RelabelConfigs = buildRelabelConfigs (RelabelConfigs e)\<rparr>) (Endpoints podMonitor))"

definition buildExpectedPodMonitorSpec :: "UnitSet \<Rightarrow> podMonitorSpec" where
  "buildExpectedPodMonitorSpec unitset =
     \<lparr>PodMetricsEndpoints = buildPodMetricsEndpoints (PodMonitor (us_Spec unitset)),
      MatchNames = [Namespace (us_meta unitset)], MatchLabels = [(UnitsetName, us_Name unitset)]\<rparr>"

definition cloneStringMap :: "string gomap \<Rightarrow> string gomap" where
  "cloneStringMap src = (if fmdom (mbody src) = {||} then None else Some (mbody src))"

definition podMonitorName :: "UnitSet \<Rightarrow> string" where
  "podMonitorName unitset = us_Name unitset @ MonitorPodMonitorNameSuffix"

definition newPodMonitor :: "ext \<Rightarrow> UnitSet \<Rightarrow> podMonitor" where
  "newPodMonitor X unitset =
     \<lparr>pm_meta = meta0\<lparr>Name := podMonitorName unitset, Namespace := Namespace (us_meta unitset),
        Labels := cloneStringMap (Labels (us_meta unitset)),
        OwnerReferences := [newControllerRef X (us_meta unitset) ''UnitSet'']\<rparr>,
      pm_Spec = buildExpectedPodMonitorSpec unitset\<rparr>"

definition syncPodMonitor :: "'s kube \<Rightarrow> ext \<Rightarrow> UnitSet \<Rightarrow> ('s, unit) act" where
  "syncPodMonitor K X unitset =
     tryA (getPodMonitor K (Namespace (us_meta unitset)) (podMonitorName unitset)) (\<lambda>r. case r of
        Inl e \<Rightarrow>
          if IsNotFound e then createTolerant K (OAux (APodMonitor (newPodMonitor X unitset))) (Fmt ''create pod monitor error'')
          else fail (Fmt ''get pod monitor error'' e)
      | Inr pm \<Rightarrow>
          whenA (\<not> semEqMonitor X (pm_Spec pm) (buildExpectedPodMonitorSpec unitset))
            (thenA (mapErr (Fmt ''update pod monitor error'')
                     (updateObj K (OAux (APodMonitor (pm\<lparr>pm_Spec := buildExpectedPodMonitorSpec unitset\<rparr>))))) (ret ())))"

definition reconcilePodMonitor :: "'s kube \<Rightarrow> ext \<Rightarrow> UnitSet \<Rightarrow> ('s, unit) act" where
  "reconcilePodMonitor K X unitset =
     (if \<not> Enable (PodMonitor (us_Spec unitset)) then ret ()
      else tryA (getAux K KCrd [] MonitorPodMonitorCrdName) (\<lambda>r. case r of
          Inl e \<Rightarrow> if IsNotFound e then ret () else fail (Fmt ''get crd error'' e)
        | Inr _ \<Rightarrow> syncPodMonitor K X unitset))"

section \<open>The service account\<close>

definition ownedMeta :: "vars \<Rightarrow> string \<Rightarrow> string \<Rightarrow> meta" where
  "ownedMeta V ns name = meta0\<lparr>Name := name, Namespace := ns, Labels := mput ''owner'' (ManagerNamespace V) (Some fmempty)\<rparr>"

definition unitsetRules :: "policyRule list" where
  "unitsetRules =
     [\<lparr>APIGroups = [[]], pr_Resources = [''pods'', ''secrets''], Verbs = [''get'', ''list'']\<rparr>,
      rule [] ''configmaps'' [''get'', ''list'', ''patch'', ''update''],
      rule ''upm.syntropycloud.io'' ''redisreplications'' [''get'', ''list'', ''patch'', ''update''],
      rule ''upm.syntropycloud.io'' ''units'' [''get'', ''list''],
      rule [] ''events'' [''create'', ''patch'']]"

definition unitset_reconcileRole :: "'s kube \<Rightarrow> vars \<Rightarrow> string \<Rightarrow> ('s, unit) act" where
  "unitset_reconcileRole K V ns =
     ensure (getAux K KRole ns (ns @ ''-role''))
       (createStrict K (OAux (ARole \<lparr>role_meta = ownedMeta V ns (ns @ ''-role''), Rules = unitsetRules\<rparr>)) id) id"

definition unitset_reconcileRoleBinding :: "'s kube \<Rightarrow> vars \<Rightarrow> string \<Rightarrow> ('s, unit) act" where
  "unitset_reconcileRoleBinding K V ns =
     ensure (getAux K KRoleBinding ns (ns @ ''-rolebinding''))
       (createStrict K (OAux (ARoleBinding \<lparr>rb_meta = ownedMeta V ns (ns @ ''-rolebinding''),
          RoleRef = \<lparr>rr_APIGroup = ''rbac.authorization.k8s.io'', rr_Kind = ''Role'', rr_Name = ns @ ''-role''\<rparr>,
          Subjects = [\<lparr>subj_Kind = ''ServiceAccount'', subj_Name = ns @ ''-serviceaccount'', subj_Namespace = ns\<rparr>]\<rparr>)) id) id"

definition unitset_reconcileServiceAccount :: "'s kube \<Rightarrow> vars \<Rightarrow> string \<Rightarrow> ('s, unit) act" where
  "unitset_reconcileServiceAccount K V ns =
     thenA (ensure (getAux K KServiceAccount ns (ns @ ''-serviceaccount''))
              (createTolerant K (OAux (AServiceAccount (ownedMeta V ns (ns @ ''-serviceaccount''))))
                 (Fmt ''[reconcileServiceAccount] create serviceaccount error''))
              (Fmt ''[reconcileServiceAccount] get serviceaccount error''))
     (thenA (mapErr (Fmt ''[reconcileServiceAccount] reconcile role error'') (unitset_reconcileRole K V ns))
       (mapErr (Fmt ''[reconcileServiceAccount] reconcile rolebinding error'') (unitset_reconcileRoleBinding K V ns)))"

section \<open>Certificates of every unit\<close>

context kube_api
begin

lemma getAux_cases:
  assumes "getAux K kd ns n s = (r, s')"
  shows "view s' = view s" and "r = Inl e \<Longrightarrow> IsNotFound e \<Longrightarrow> view s (kd, ns, n) = None"
  using getAs_cases [OF assms [unfolded getAux_def]] by blast+

text \<open>Ensuring an object adds to the cluster and changes nothing that is there.\<close>

lemma ensureAux_grows:
  assumes "ensure (getAux K kd ns n) (createTolerant K ob w) w' s = (r, s')" and "keyOf ob = (kd, ns, n)"
  shows "view s \<subseteq>\<^sub>m view s'" and "r = Inr () \<Longrightarrow> view s' (kd, ns, n) \<noteq> None"
proof -
  obtain g t where g: "getAux K kd ns n s = (g, t)" by fastforce
  note t = getAux_cases [OF g]
  have "view s' = view s \<or> (\<exists>ob'. createEff wire ob ob' (view s) (view s'))"
  proof (cases "\<exists>e. g = Inl e \<and> IsNotFound e")
    case True
    with assms(1) g have "createTolerant K ob w t = (r, s')" by (auto simp: ensure_def tryA_def)
    from createTolerant_cases [OF this] t(1) show ?thesis by simp
  next
    case False
    with assms(1) g t(1) show ?thesis by (auto simp: ensure_def tryA_def split: sum.splits if_splits)
  qed
  then show "view s \<subseteq>\<^sub>m view s'" by (auto simp: createEff_def map_le_def dom_def)
  show "view s' (kd, ns, n) \<noteq> None" if "r = Inr ()"
    using ensure_exists [where get = "getAux K kd ns n" and ob = ob and create = "createTolerant K ob w" and wrap = w
        and wrap' = w' and s = s and s' = s'] that assms getAux_Inr by (metis option.discI)
qed

lemma noteErr_cases:
  assumes "noteErr m p = (r, q)" and "m (snd p) = (c, t)"
  shows "snd q = t \<and> r = Inr () \<and> (fst q = [] \<longrightarrow> fst p = [] \<and> c = Inr ())"
  using assms by (cases c) (auto simp: noteErr_def tryA_def liftW_def bindA_def getL_def putL_def)

abbreviation certified :: "string \<Rightarrow> string \<Rightarrow> objview \<Rightarrow> bool" where
  "certified ns u v \<equiv> v (KIssuer, ns, issuerName u) \<noteq> None \<and> v (KCertificate, ns, certificateName u) \<noteq> None"

lemma certifyUnit_step:
  assumes "certifyUnit K X ns us u p = (r, q)"
  shows "r = Inr () \<and> view (snd p) \<subseteq>\<^sub>m view (snd q) \<and> (fst q = [] \<longrightarrow> fst p = [] \<and> certified ns u (view (snd q)))"
proof -
  obtain r1 p1 where n1: "noteErr (ensureIssuer K X ns us u) p = (r1, p1)" by (metis prod.exhaust)
  obtain c1 t1 where c1: "ensureIssuer K X ns us u (snd p) = (c1, t1)" by fastforce
  obtain c2 t2 where c2: "ensureCertificate K X ns us u t1 = (c2, t2)" by fastforce
  note a = noteErr_cases [OF n1 c1]
  have n2: "noteErr (ensureCertificate K X ns us u) p1 = (r, q)"
    using assms n1 a by (simp add: certifyUnit_def thenA_def bindA_def)
  note b = noteErr_cases [OF n2, of c2 t2]
  have k: "keyOf (OAux (AIssuer (unitIssuer X ns us u))) = (KIssuer, ns, issuerName u)"
    "keyOf (OAux (ACertificate (unitCertificate X ns us u))) = (KCertificate, ns, certificateName u)"
    by (simp_all add: keyOf_def unitIssuer_def unitCertificate_def)
  note i = ensureAux_grows [OF c1 [unfolded ensureIssuer_def] k(1)] and c = ensureAux_grows [OF c2 [unfolded ensureCertificate_def] k(2)]
  have "view t1 (KIssuer, ns, issuerName u) \<noteq> None \<Longrightarrow> view t2 (KIssuer, ns, issuerName u) \<noteq> None"
    by (rule map_le_some [OF c(1)])
  with a b c2 i c map_le_trans [OF i(1) c(1)] show ?thesis by auto
qed

lemma certificates_all:
  assumes run: "reconcileUnitCertificates K X ns us s = (Inr (), s')" and u: "u \<in> set (unitNames us)"
    and req: "Organizations (CertificateProfile (us_Spec us)) \<noteq> []" "RootSecret (CertificateProfile (us_Spec us)) \<noteq> []"
  shows "certified ns u (view s')"
proof -
  let ?f = "certifyUnit K X ns us"
  have ne: "unitNames us \<noteq> []" using u by auto
  from run req ne obtain p where w: "withLocal [] (goAllL K (unitNames us) ?f) s = (Inr p, s')" and e: "snd p = []"
    by (auto simp: reconcileUnitCertificates_def bindA_def mapErr_def aggregate_def split: prod.splits sum.splits if_splits)
  from w obtain q where q: "goAllL K (unitNames us) ?f ([], s) = (Inr (), q)" "fst q = []" "snd q = s'"
    using e by (auto simp: withLocal_def split: prod.splits sum.splits)
  from q(1) obtain ys t where ys: "liftW (shuffled K (unitNames us)) ([], s) = (Inr ys, t)" and f: "forkJoin ys ?f t = (Inr (), q)"
    by (auto simp: goAllL_def bindA_eq_Inr_iff)
  from f have fk: "forkAll ys ?f t = ([], q)" by (auto simp: forkJoin_def aggregate_def split: prod.splits if_splits)
  have "u \<in> set ys" using ys u by (auto simp: liftW_def split: prod.splits dest: shuffled_subset)
  have "True \<and> (view (snd t) \<subseteq>\<^sub>m view (snd q) \<and> (fst q = [] \<longrightarrow> fst t = [])) \<and>
      (([] :: error list) = [] \<longrightarrow> (\<forall>x \<in> set ys. fst q = [] \<longrightarrow> certified ns x (view (snd q))))"
  proof (rule forkAll_post [OF _ _ _ _ _ fk, where I = "\<lambda>_. True"
        and R = "\<lambda>p q. view (snd p) \<subseteq>\<^sub>m view (snd q) \<and> (fst q = [] \<longrightarrow> fst p = [])"
        and Q = "\<lambda>x p. fst p = [] \<longrightarrow> certified ns x (view (snd p))"])
    fix x p q
    assume p: "fst p = [] \<longrightarrow> certified ns x (view (snd p))" and q: "view (snd p) \<subseteq>\<^sub>m view (snd q) \<and> (fst q = [] \<longrightarrow> fst p = [])"
    show "fst q = [] \<longrightarrow> certified ns x (view (snd q))"
      using p q map_le_some [of "view (snd p)" "view (snd q)"] by simp
  qed (use certifyUnit_step map_le_trans map_le_refl in \<open>blast+\<close>)
  with \<open>u \<in> set ys\<close> q show ?thesis by simp
qed

end

text \<open>
  C14 (\<open>reconcileUnitCertificates\<close>): if the spec asks for certificates and success is reported, every
  unit has its issuer and its certificate, and the secret that a new certificate is issued to is the
  one that the pod of the unit mounts for its certificate volumes.
\<close>

theorem certificates_complete:
  assumes "kube_api K view wire" and "reconcileUnitCertificates K X ns us s = (Inr (), s')" and "u \<in> set (unitNames us)"
    and "Organizations (CertificateProfile (us_Spec us)) \<noteq> []" and "RootSecret (CertificateProfile (us_Spec us)) \<noteq> []"
  shows "view s' (KIssuer, ns, issuerName u) \<noteq> None \<and> view s' (KCertificate, ns, certificateName u) \<noteq> None \<and>
    (\<forall>w. u_Name w = u \<longrightarrow> (\<forall>v \<in> set (Volumes (podSpecOf (fillCertificateSecret w))). v_Name v = ''certificate'' \<longrightarrow>
       (\<exists>src. v_Secret v = Some src \<and> SecretName src = cert_SecretName (unitCertificate X ns us u))))"
proof -
  have "\<exists>src. v_Secret v = Some src \<and> SecretName src = cert_SecretName (unitCertificate X ns us u)"
    if "u_Name w = u" "v \<in> set (Volumes (podSpecOf (fillCertificateSecret w)))" "v_Name v = ''certificate''" for w v
    using that by (auto simp: fillCertificateSecret_def overPodSpec_def unitCertificate_def certificateName_def split: if_splits)
  with kube_api.certificates_all [OF assms(1-5)] show ?thesis by blast
qed

definition certSet :: UnitSet where
  "certSet = (sampleUnitSet ''db'' 1)\<lparr>us_Spec := (us_Spec (sampleUnitSet ''db'' 1))\<lparr>
     CertificateProfile := \<lparr>Organizations = [''upm''], RootSecret = ''ca''\<rparr>\<rparr>\<rparr>"

theorem certificates_complete_witness:
  "\<exists>s'. reconcileUnitCertificates memKube plainExt ''ns'' certSet \<lparr>m_store = [], m_rv = 1, m_faults = []\<rparr> = (Inr (), s') \<and>
     memView s' (KIssuer, ''ns'', issuerName ''db-0'') \<noteq> None \<and> memView s' (KCertificate, ''ns'', certificateName ''db-0'') \<noteq> None"
proof -
  let ?m = "reconcileUnitCertificates memKube plainExt ''ns'' certSet \<lparr>m_store = [], m_rv = 1, m_faults = []\<rparr>"
  have "fst ?m = Inr ()" by code_simp
  then have run: "?m = (Inr (), snd ?m)" by (metis prod.collapse)
  have u: "''db-0'' \<in> set (unitNames certSet)" by code_simp
  have "Organizations (CertificateProfile (us_Spec certSet)) \<noteq> []" "RootSecret (CertificateProfile (us_Spec certSet)) \<noteq> []"
    by (simp_all add: certSet_def)
  from certificates_complete [OF mem.kube_api_axioms run u this] run show ?thesis by blast
qed

section \<open>The pod monitor follows the spec\<close>

context kube_api
begin

lemma getPodMonitor_cases:
  assumes "getPodMonitor K ns n s = (r, s')"
  shows "view s' = view s" and "r = Inl e \<Longrightarrow> IsNotFound e \<Longrightarrow> view s (KPodMonitor, ns, n) = None"
    and "r = Inr x \<Longrightarrow> view s (KPodMonitor, ns, n) = Some (OAux (APodMonitor x))"
  using getAs_cases [OF assms [unfolded getPodMonitor_def]] getAs_Inr(1) [of asPodMonitor "(KPodMonitor, ns, n)" s x s']
    assms [unfolded getPodMonitor_def] by auto

lemma monitor_created:
  assumes "createTolerant K (OAux (APodMonitor pm)) w s = (Inr (), s')" and "view s (keyOf (OAux (APodMonitor pm))) = None"
  shows "\<exists>pm'. view s' (keyOf (OAux (APodMonitor pm))) = Some (OAux (APodMonitor pm')) \<and> pm_Spec pm' = pm_Spec pm"
proof -
  from createTolerant_exists [OF assms(1)] assms(2) obtain ob where c: "createEff wire (OAux (APodMonitor pm)) ob (view s) (view s')" by auto
  then have "kindOf ob = KPodMonitor" by (auto simp: createEff_def keyOf_def)
  then obtain pm' where "ob = OAux (APodMonitor pm')" by (auto simp: kindOf_iffs)
  with c show ?thesis by (auto simp: createEff_def auxStored_def)
qed

lemma monitor_updated:
  assumes "updateObj K (OAux (APodMonitor pm)) s = (Inr ob, s')" and "view s (keyOf (OAux (APodMonitor pm))) = Some (OAux (APodMonitor old))"
    and "DeletionTimestamp (pm_meta old) = None"
  shows "\<exists>pm'. view s' (keyOf (OAux (APodMonitor pm))) = Some (OAux (APodMonitor pm')) \<and> pm_Spec pm' = pm_Spec pm"
proof -
  have "updateEff wire (OAux (APodMonitor pm)) ob (view s) (view s')"
    using assms(1) by (intro write_Inr [OF update_law]) (simp add: updateObj_def)
  with assms(2,3) have e: "keyOf ob = keyOf (OAux (APodMonitor pm))" "updStored wire (OAux (APodMonitor old)) (OAux (APodMonitor pm)) ob"
    "view s' (keyOf (OAux (APodMonitor pm))) = Some ob" by (auto simp: updateEff_def)
  then obtain pm' where "ob = OAux (APodMonitor pm')" by (auto simp: keyOf_def kindOf_iffs)
  with e show ?thesis by (auto simp: auxStored_def)
qed

lemma syncPodMonitor_stored:
  assumes run: "syncPodMonitor K X us s = (Inr (), s')"
    and alive: "\<And>pm. view s (KPodMonitor, Namespace (us_meta us), podMonitorName us) = Some (OAux (APodMonitor pm)) \<Longrightarrow>
      DeletionTimestamp (pm_meta pm) = None"
  shows "\<exists>pm. view s' (KPodMonitor, Namespace (us_meta us), podMonitorName us) = Some (OAux (APodMonitor pm)) \<and>
    (pm_Spec pm = buildExpectedPodMonitorSpec us \<or>
     semEqMonitor X (pm_Spec pm) (buildExpectedPodMonitorSpec us) \<and>
     view s' (KPodMonitor, Namespace (us_meta us), podMonitorName us) = view s (KPodMonitor, Namespace (us_meta us), podMonitorName us))"
proof -
  let ?k = "(KPodMonitor, Namespace (us_meta us), podMonitorName us)"
  obtain g t where g: "getPodMonitor K (Namespace (us_meta us)) (podMonitorName us) s = (g, t)" by fastforce
  note t = getPodMonitor_cases [OF g]
  show ?thesis
  proof (cases g)
    case (Inl e)
    with run g have nf: "IsNotFound e" and c: "createTolerant K (OAux (APodMonitor (newPodMonitor X us))) (Fmt ''create pod monitor error'') t = (Inr (), s')"
      by (auto simp: syncPodMonitor_def tryA_def split: if_splits)
    have k: "keyOf (OAux (APodMonitor (newPodMonitor X us))) = ?k" by (simp add: keyOf_def newPodMonitor_def)
    from monitor_created [OF c] k t(1) t(2) [OF Inl nf] show ?thesis by (auto simp: newPodMonitor_def)
  next
    case (Inr pm)
    note v = t(3) [OF Inr]
    show ?thesis
    proof (cases "semEqMonitor X (pm_Spec pm) (buildExpectedPodMonitorSpec us)")
      case True
      with run g Inr v t(1) show ?thesis by (auto simp: syncPodMonitor_def tryA_def whenA_def)
    next
      case False
      let ?pm = "pm\<lparr>pm_Spec := buildExpectedPodMonitorSpec us\<rparr>"
      from False run g Inr obtain ob where u: "updateObj K (OAux (APodMonitor ?pm)) t = (Inr ob, s')"
        by (auto simp: syncPodMonitor_def tryA_def whenA_def act_eq_iffs)
      have k: "keyOf (OAux (APodMonitor ?pm)) = ?k" using view_key [OF v] by (simp add: keyOf_def)
      from monitor_updated [OF u] k v t(1) alive [OF v] show ?thesis by auto
    qed
  qed
qed

end


definition monitoredSet :: UnitSet where
  "monitoredSet = (sampleUnitSet ''db'' 1)\<lparr>us_Spec := (us_Spec (sampleUnitSet ''db'' 1))\<lparr>PodMonitor := \<lparr>Enable = True, Endpoints = []\<rparr>\<rparr>\<rparr>"

definition monitoredCluster :: mem where
  "monitoredCluster = \<lparr>m_store = [OAux (ACrd (meta0\<lparr>Name := MonitorPodMonitorCrdName\<rparr>))], m_rv = 1, m_faults = []\<rparr>"


end
