(* ===== verification/UnitSetUnits.thy ===== *)
theory UnitSetUnits
  imports UnitTemplate MemKube
begin

text \<open>
  The units of a UnitSet in the cluster (\<open>unitset_unit.go\<close>, and the helpers of
  \<open>unitset_delete.go\<close> and \<open>unitset_status.go\<close> they call): listing them, creating the missing
  ones, removing the surplus ones, and recording the observed generation. The scaling theorem says
  that with an API server that answers, \<open>reconcileUnit\<close> brings the cluster to exactly the units
  the spec asks for.
\<close>

section \<open>Operations\<close>

definition unitsBelongUnitset :: "'s kube \<Rightarrow> UnitSet \<Rightarrow> ('s, Unit list) act" where
  "unitsBelongUnitset K unitset =
     tryA (listUnits K (Namespace (us_meta unitset)) [(UnitsetName, us_Name unitset)])
       (\<lambda>r. case r of Inl e \<Rightarrow> if IsNotFound e then ret [] else fail e | Inr us \<Rightarrow> ret us)"

definition reconcileUnitsetObservedGeneration :: "'s kube \<Rightarrow> string \<Rightarrow> UnitSet \<Rightarrow> ('s, unit) act" where
  "reconcileUnitsetObservedGeneration K reqNamespace unitset =
     mapErr (Fmt ''update unitset ObservedGeneration error'')
       (retryOnConflict DefaultRetry
         (bindA (getUnitSet K reqNamespace (us_Name unitset)) (\<lambda>latest.
            thenA (statusUpdate K (OUnitSet (latest\<lparr>us_Status :=
                     (us_Status latest)\<lparr>ObservedGeneration := Generation (us_meta latest)\<rparr>\<rparr>)))
              (ret ()))))"

definition serialNumber :: "Unit \<Rightarrow> int option" where
  "serialNumber one = Atoi (mstr (Labels (u_meta one)) UnitSn)"

fun removeLoop :: "'s kube \<Rightarrow> int \<Rightarrow> Unit list \<Rightarrow> Unit list \<Rightarrow> ('s, Unit list) act" where
  "removeLoop K expectedCount out [] = ret out"
| "removeLoop K expectedCount out (one # rest) =
     (case serialNumber one of
        None \<Rightarrow> fail (Msg ''[removeUnits] get unit serial number error'')
      | Some sn \<Rightarrow>
          if wrap64 (sn + 1) \<le> expectedCount then removeLoop K expectedCount (out @ [one]) rest
          else tryA (deleteObj K (keyOf (OUnit one))) (\<lambda>r. case r of
                 Inl e \<Rightarrow> if IsNotFound e then ret out else fail (Fmt ''[removeUnits] delete unit error'' e)
               | Inr _ \<Rightarrow> removeLoop K expectedCount out rest))"

definition removeUnits :: "'s kube \<Rightarrow> UnitSet \<Rightarrow> Unit list \<Rightarrow> ('s, Unit list) act" where
  "removeUnits K unitset kUnits =
     (if int (length kUnits) = Units (us_Spec unitset) then ret kUnits
      else removeLoop K (Units (us_Spec unitset)) [] kUnits)"

definition orderA :: "'s kube \<Rightarrow> nat \<Rightarrow> ('s, nat list) act" where
  "orderA K n s = (case kOrder K n s of (is, s') \<Rightarrow> (Inr is, s'))"

text \<open>The body of the goroutine for one unit name; the shared flag records a creation.\<close>

definition createMissing ::
  "'s kube \<Rightarrow> ext \<Rightarrow> string \<Rightarrow> UnitSet \<Rightarrow> podTemplate \<Rightarrow> volumeMount list \<Rightarrow> volume list \<Rightarrow> envVar list
    \<Rightarrow> vctemplate list \<Rightarrow> string \<Rightarrow> (bool \<times> 's, unit) act" where
  "createMissing K X reqNamespace unitset podTemplate volumeMounts volumes envVars pvcs unitName =
     tryA (liftW (getUnit K reqNamespace unitName)) (\<lambda>r. case r of
        Inr _ \<Rightarrow> ret ()
      | Inl err \<Rightarrow>
          if \<not> IsNotFound err then fail err
          else bindA (liftW (orderA K (length (mountsByName volumeMounts)))) (\<lambda>ord.
            case generateUnitTemplate X ord reqNamespace unitName (Some unitset) (Some podTemplate)
                   volumeMounts volumes envVars pvcs of
              Inl e \<Rightarrow> fail (Fmt ''[reconcileUnit] generateUnitTemplate'' e)
            | Inr unitTemplate \<Rightarrow>
                thenA (putL True)
                  (tryA (liftW (createObj K (OUnit
                     (fillUnitPersonalizedInfo X unitTemplate unitset (snd (UnitNames unitset)) unitName))))
                   (\<lambda>c. case c of Inl e \<Rightarrow> if IsAlreadyExists e then ret () else fail e | Inr _ \<Rightarrow> ret ()))))"

definition reconcileUnit ::
  "'s kube \<Rightarrow> ext \<Rightarrow> string \<Rightarrow> UnitSet \<Rightarrow> podTemplate \<Rightarrow> ('s, unit) act" where
  "reconcileUnit K X reqNamespace unitset podTemplate =
     bindA (liftE (generateVolumeMountsAndEnvs X unitset)) (\<lambda>(volumeMounts, volumes, envVars, pvcs).
     bindA (withLocal False (mapErr (Fmt ''reconcileUnit error'')
              (goGroupL K (unitNames unitset)
                 (createMissing K X reqNamespace unitset podTemplate volumeMounts volumes envVars pvcs)))) (\<lambda>(_, created).
     bindA (mapErr (Fmt ''[reconcileUnit] list units err'') (unitsBelongUnitset K unitset)) (\<lambda>kUnits.
     bindA (if kUnits \<noteq> [] \<and> int (length kUnits) > Units (us_Spec unitset)
            then bindA (removeUnits K unitset kUnits) (\<lambda>_. ret True)
            else ret created) (\<lambda>needUpdateObservedGeneration.
     whenA needUpdateObservedGeneration
       (mapErr (Fmt ''[reconcileUnit] update unitset status error'')
         (reconcileUnitsetObservedGeneration K reqNamespace unitset))))))"

definition getPodTemplate :: "'s kube \<Rightarrow> ext \<Rightarrow> vars \<Rightarrow> string \<Rightarrow> UnitSet \<Rightarrow> ('s, podTemplate) act" where
  "getPodTemplate K X V reqNamespace unitset =
     tryA (getPodTemplateObj K reqNamespace (PodTemplateName unitset)) (\<lambda>r. case r of
        Inr podTemplate \<Rightarrow> ret podTemplate
      | Inl err \<Rightarrow>
          if \<not> IsNotFound err then fail err
          else bindA (getPodTemplateObj K (ManagerNamespace V) (TemplatePodTemplateName unitset)) (\<lambda>tpt.
            if \<exists>one \<in> set (Containers (pts_Spec (pt_Template tpt))).
                 c_Name one = Type (us_Spec unitset) \<and> elems (c_Ports one) = []
            then fail (Msg ''not found ports in pod template, ports are Required value'')
            else let podTemplate = \<lparr>pt_meta = meta0\<lparr>Name := PodTemplateName unitset, Namespace := reqNamespace,
                       Labels := Some fmempty, Annotations := Some fmempty,
                       OwnerReferences := [newControllerRef X (us_meta unitset) ''UnitSet'']\<rparr>,
                     pt_Template = pt_Template tpt\<rparr>
                 in tryA (createObj K (OPodTemplate podTemplate)) (\<lambda>c. case c of
                      Inl e \<Rightarrow> if IsAlreadyExists e then ret podTemplate else fail e
                    | Inr (OPodTemplate p) \<Rightarrow> ret p
                    | Inr _ \<Rightarrow> ret podTemplate)))"

section \<open>What they do to the cluster\<close>

definition inSet :: "UnitSet \<Rightarrow> Unit \<Rightarrow> bool" where
  "inSet us u \<longleftrightarrow> (Namespace (us_meta us) = [] \<or> Namespace (u_meta u) = Namespace (us_meta us)) \<and>
     mfind (Labels (u_meta u)) UnitsetName = Some (us_Name us)"

definition gone :: "objview \<Rightarrow> okey \<Rightarrow> bool" where
  "gone v k \<longleftrightarrow> (case v k of None \<Rightarrow> True | Some ob \<Rightarrow> DeletionTimestamp (objMeta ob) \<noteq> None)"

definition surplus :: "int \<Rightarrow> Unit \<Rightarrow> bool" where
  "surplus n u \<longleftrightarrow> (case serialNumber u of None \<Rightarrow> False | Some sn \<Rightarrow> n < wrap64 (sn + 1))"

lemma deleteEff_gone: "deleteEff k v v' \<Longrightarrow> gone v' k"
  by (auto simp: deleteEff_def gone_def)

context kube_api
begin

lemma keeps_unitsBelong [triple_rules]:
  "keeps (frame view A v) (unitsBelongUnitset K us)"
  unfolding unitsBelongUnitset_def
  by (intro keeps_tryA keeps_frame_reads) (auto simp: keeps_ret keeps_fail split: sum.split)

lemma unitsBelong_Inr:
  assumes "unitsBelongUnitset K us s = (Inr ks, s')"
  shows "u \<in> set ks \<longleftrightarrow> view s (keyOf (OUnit u)) = Some (OUnit u) \<and> inSet us u"
    and "view s' = view s" and "distinct (map (\<lambda>u. keyOf (OUnit u)) ks)"
proof -
  let ?l = "listUnits K (Namespace (us_meta us)) [(UnitsetName, us_Name us)]"
  obtain r t where r: "?l s = (r, t)" by fastforce
  have "r \<noteq> Inl (Api NotFound)"
    using r list_absent by (auto simp: listUnits_def bindA_def split: sum.splits prod.splits)
  moreover have "reason e = Some NotFound \<Longrightarrow> r = Inl e \<Longrightarrow> e = Api NotFound" for e
    using r by (auto simp: listUnits_def bindA_def split: sum.splits prod.splits)
  ultimately have l: "?l s = (Inr ks, s')"
    using assms r by (cases r) (auto simp: unitsBelongUnitset_def IsNotFound_def split: if_splits)
  show "u \<in> set ks \<longleftrightarrow> view s (keyOf (OUnit u)) = Some (OUnit u) \<and> inSet us u"
    using listUnits_Inr(1) [OF l, of u] by (auto simp: inSet_def matchLabels_def)
  show "view s' = view s" by (rule listUnits_Inr(2) [OF l])
  show "distinct (map (\<lambda>u. keyOf (OUnit u)) ks)" by (rule listUnits_distinct [OF l])
qed

lemma keeps_observedGeneration [triple_rules]:
  "unitSetKey ns (us_Name us) \<in> A \<Longrightarrow> keeps (frame view A v) (reconcileUnitsetObservedGeneration K ns us)"
  unfolding reconcileUnitsetObservedGeneration_def
  by (intro keeps_mapErr keeps_retry keeps_getUnitSet_then keeps_thenA keeps_frame_writes keeps_ret) auto

lemma keeps_removeLoop:
  "(\<And>u. u \<in> set ks \<Longrightarrow> surplus n u \<Longrightarrow> keyOf (OUnit u) \<in> A) \<Longrightarrow>
   keeps (frame view A v) (removeLoop K n out ks)"
proof (induction ks arbitrary: out)
  case (Cons u ks)
  then show ?case
  proof (cases "serialNumber u")
    case (Some sn)
    then show ?thesis
      using Cons
      by (auto simp: surplus_def intro!: keeps_tryA keeps_frame_writes keeps_ret keeps_fail split: sum.split)
  qed (simp add: keeps_fail)
qed (simp add: keeps_ret)

end

context kube_live
begin

lemma unitsBelong_live:
  assumes "ok s"
  shows "\<exists>ks s'. unitsBelongUnitset K us s = (Inr ks, s') \<and> ok s'"
  using list_live [OF assms, of KUnit "Namespace (us_meta us)" "[(UnitsetName, us_Name us)]"]
  by (auto simp: unitsBelongUnitset_def tryA_def listUnits_def bindA_def liftApi_def split: prod.split)

lemma observedGeneration_live:
  assumes "ok s" and l: "view s (unitSetKey ns (us_Name us)) = Some (OUnitSet latest)"
  shows "\<exists>s' l'. reconcileUnitsetObservedGeneration K ns us s = (Inr (), s') \<and> ok s' \<and>
    view s' = (view s)(unitSetKey ns (us_Name us) \<mapsto> OUnitSet l') \<and> us_Spec l' = us_Spec latest \<and>
    ObservedGeneration (us_Status l') = Generation (us_meta latest)"
proof -
  let ?ob = "OUnitSet (latest\<lparr>us_Status := (us_Status latest)\<lparr>ObservedGeneration := Generation (us_meta latest)\<rparr>\<rparr>)"
  have k: "keyOf ?ob = unitSetKey ns (us_Name us)" using view_names [OF l] by simp
  from getUnitSet_live [OF assms] obtain t where
    t: "getUnitSet K ns (us_Name us) s = (Inr latest, t)" "ok t" "view t = view s" by blast
  have "view t (keyOf ?ob) = Some (OUnitSet latest)" using l t(3) k by simp
  from status_total [OF t(2) this] obtain ob' s' where
    s': "statusUpdate K ?ob t = (Inr ob', s')" "ok s'" "statusEff ?ob ob' (view t) (view s')"
    by (auto simp: versionOk_def)
  from s'(3) k l t(3) obtain l' where
    "ob' = OUnitSet l'" and st: "statusStored (OUnitSet latest) ?ob ob'" and
    v: "view s' = (view s)(unitSetKey ns (us_Name us) \<mapsto> ob')"
    by (cases ob') (auto simp: statusEff_def keyOf_def)
  moreover have "reconcileUnitsetObservedGeneration K ns us s = (Inr (), s')"
    unfolding reconcileUnitsetObservedGeneration_def by (simp add: t s')
  ultimately show ?thesis using s'(2) by (auto simp: unitSetStatusEq_def)
qed

lemma removeLoop_live:
  assumes "ok s" and "\<And>u. u \<in> set ks \<Longrightarrow> view s (keyOf (OUnit u)) = Some (OUnit u) \<and> serialNumber u \<noteq> None"
    and "distinct (map (\<lambda>u. keyOf (OUnit u)) ks)"
  shows "\<exists>s'. removeLoop K n out ks s = (Inr (out @ filter (\<lambda>u. \<not> surplus n u) ks), s') \<and> ok s' \<and>
    (\<forall>u \<in> set ks. surplus n u \<longrightarrow> gone (view s') (keyOf (OUnit u))) \<and>
    frame view {keyOf (OUnit u) |u. u \<in> set ks \<and> surplus n u} (view s) s'"
  using assms
proof (induction ks arbitrary: s out)
  case (Cons u ks)
  then obtain sn where sn: "serialNumber u = Some sn" by force
  show ?case
  proof (cases "surplus n u")
    case False
    with sn have le: "wrap64 (sn + 1) \<le> n" by (simp add: surplus_def)
    from Cons.IH [of s "out @ [u]"] Cons.prems obtain s' where
      "removeLoop K n (out @ [u]) ks s = (Inr ((out @ [u]) @ filter (\<lambda>u. \<not> surplus n u) ks), s')" "ok s'"
      "\<forall>u \<in> set ks. surplus n u \<longrightarrow> gone (view s') (keyOf (OUnit u))"
      "frame view {keyOf (OUnit u) |u. u \<in> set ks \<and> surplus n u} (view s) s'"
      by auto
    with False sn le show ?thesis by (auto elim: frame_mono)
  next
    case True
    with sn have gt: "\<not> wrap64 (sn + 1) \<le> n" by (simp add: surplus_def)
    have "view s (keyOf (OUnit u)) = Some (OUnit u)" using Cons.prems by simp
    from delete_total [OF \<open>ok s\<close> this] obtain t where
      t: "deleteObj K (keyOf (OUnit u)) s = (Inr (), t)" "ok t" "deleteEff (keyOf (OUnit u)) (view s) (view t)" by blast
    have vt: "view t k = view s k" if "k \<noteq> keyOf (OUnit u)" for k
      using eff_frames(4) [OF t(3) that] .
    have "view t (keyOf (OUnit w)) = Some (OUnit w) \<and> serialNumber w \<noteq> None" if "w \<in> set ks" for w
    proof -
      have "keyOf (OUnit w) \<noteq> keyOf (OUnit u)" using that Cons.prems(3) by (auto simp: image_iff)
      then show ?thesis using vt Cons.prems(2) [of w] that by simp
    qed
    from Cons.IH [OF t(2) this, of out] Cons.prems(3) obtain s' where
      s': "removeLoop K n out ks t = (Inr (out @ filter (\<lambda>u. \<not> surplus n u) ks), s')" "ok s'"
      "\<forall>u \<in> set ks. surplus n u \<longrightarrow> gone (view s') (keyOf (OUnit u))"
      "frame view {keyOf (OUnit u) |u. u \<in> set ks \<and> surplus n u} (view t) s'"
      by auto
    have "view s' (keyOf (OUnit u)) = view t (keyOf (OUnit u))"
      by (rule frameD [OF s'(4)]) (use Cons.prems(3) in auto)
    with deleteEff_gone [OF t(3)] have "gone (view s') (keyOf (OUnit u))" by (simp add: gone_def)
    moreover have "frame view {keyOf (OUnit w) |w. w \<in> set (u # ks) \<and> surplus n w} (view s) s'"
      unfolding frame_def
    proof (intro allI impI)
      fix k assume "k \<notin> {keyOf (OUnit w) |w. w \<in> set (u # ks) \<and> surplus n w}"
      then have "k \<noteq> keyOf (OUnit u)" and "k \<notin> {keyOf (OUnit u) |u. u \<in> set ks \<and> surplus n u}"
        using True by auto
      then show "view s' k = view s k" using vt [of k] frameD [OF s'(4), of k] by simp
    qed
    moreover have "removeLoop K n out (u # ks) s = (Inr (out @ filter (\<lambda>u. \<not> surplus n u) (u # ks)), s')"
      using True sn gt t s' by simp
    ultimately show ?thesis using s' by auto
  qed
qed simp

end

section \<open>Scaling\<close>

text \<open>
  The units of a set as its own reconciliation leaves them: a unit listed under the set is named
  after its serial number, and a unit with one of the expected names is listed under the set.
\<close>

definition wfUnits :: "UnitSet \<Rightarrow> objview \<Rightarrow> bool" where
  "wfUnits us v \<longleftrightarrow>
     (\<forall>n u. v (unitKey (Namespace (us_meta us)) n) = Some (OUnit u) \<longrightarrow> inSet us u \<longrightarrow>
        (\<exists>j. 0 \<le> j \<and> j < 2 ^ 63 - 1 \<and> n = unitNameAt us j \<and> serialNumber u = Some j)) \<and>
     (\<forall>j u. v (unitKey (Namespace (us_meta us)) (unitNameAt us j)) = Some (OUnit u) \<longrightarrow>
        0 \<le> j \<longrightarrow> j < Units (us_Spec us) \<longrightarrow> inSet us u)"

lemma wfUnits_upd:
  assumes "wfUnits us v" and "inSet us u" and "serialNumber u = Some i" and "0 \<le> i" and "i < 2 ^ 63 - 1"
  shows "wfUnits us (v(unitKey (Namespace (us_meta us)) (unitNameAt us i) \<mapsto> OUnit u))"
  using assms unfolding wfUnits_def by (simp add: fun_upd_apply)

lemma wfUnits_cong:
  "wfUnits us v \<Longrightarrow> (\<And>n. v' (unitKey (Namespace (us_meta us)) n) = v (unitKey (Namespace (us_meta us)) n)) \<Longrightarrow>
   wfUnits us v'"
  by (simp add: wfUnits_def)

lemma metaEq_labels: "metaEq m m' \<Longrightarrow> mfind (Labels m') k = mfind (Labels m) k"
  by (simp add: metaEq_def mfind_def)

lemma metaEq_mstr: "metaEq m m' \<Longrightarrow> mstr (Labels m') k = mstr (Labels m) k"
  by (simp add: mstr_def metaEq_labels)

text \<open>What the server stores for a new unit is a well-formed member of the set.\<close>

lemma created_member:
  assumes "generateUnitTemplate X ord (Namespace (us_meta us)) (unitNameAt us i) (Some us) (Some pt) ms vs es pvcs = Inr t"
    and "is_int64 (Units (us_Spec us))" "0 \<le> i" "i < Units (us_Spec us)"
    and "mfind (Labels (us_meta us)) UnitsetName = None"
    and "u = fillUnitPersonalizedInfo X t us (snd (UnitNames us)) (unitNameAt us i)"
    and "metaEq (u_meta u) (u_meta u')"
  shows "inSet us u'" "serialNumber u' = Some i"
    "keyOf (OUnit u) = unitKey (Namespace (us_meta us)) (unitNameAt us i)"
proof -
  have u: "u = newUnit X us (unitNameAt us i) t" using assms(6) by (simp add: newUnit_def)
  note g = generated_meta [OF assms(1)]
  have sn: "mstr (Some (snd (UnitNames us))) (unitNameAt us i) = Itoa i"
    using UnitNames_index [OF assms(2-4)] by (simp add: mstr_def mfind_def)
  have "Namespace (u_meta u') = Namespace (u_meta u)" using assms(7) by (simp add: metaEq_def)
  then show "inSet us u'"
    using metaEq_labels [OF assms(7), of UnitsetName] assms(5) by (simp add: inSet_def u newUnit_meta g)
  have "is_int64 i" using assms(2-4) by (simp add: is_int64_def)
  then show "serialNumber u' = Some i"
    using metaEq_mstr [OF assms(7), of UnitSn] by (simp add: serialNumber_def u newUnit_meta g sn Atoi_Itoa)
  show "keyOf (OUnit u) = unitKey (Namespace (us_meta us)) (unitNameAt us i)"
    by (simp add: u newUnit_meta g)
qed

lemma generate_total: "\<exists>t. generateUnitTemplate X ord ns n (Some us) (Some pt) ms vs es pvcs = Inr t"
  by (simp add: generateUnitTemplate_def Let_def)

context kube_live
begin

lemma orderA_total:
  "ok s \<Longrightarrow> \<exists>is s'. orderA K n s = (Inr is, s') \<and> ok s' \<and> view s' = view s"
  using order_live [of s n] order_view [of n s] by (auto simp: orderA_def split: prod.split)

lemma createMissing_live:
  assumes ok: "ok (snd p)" and wf: "wfUnits us (view (snd p))"
    and us: "is_int64 (Units (us_Spec us))" "mfind (Labels (us_meta us)) UnitsetName = None"
    and i: "0 \<le> i" "i < Units (us_Spec us)"
  shows "\<exists>q. createMissing K X (Namespace (us_meta us)) us pt ms vs es pvcs (unitNameAt us i) p = (Inr (), q) \<and>
     ok (snd q) \<and> wfUnits us (view (snd q)) \<and> view (snd p) \<subseteq>\<^sub>m view (snd q) \<and>
     frame view {unitKey (Namespace (us_meta us)) n |n. True} (view (snd p)) (snd q) \<and>
     view (snd q) (unitKey (Namespace (us_meta us)) (unitNameAt us i)) \<noteq> None"
proof -
  let ?ns = "Namespace (us_meta us)" and ?n = "unitNameAt us i"
  obtain b s where p: "p = (b, s)" by fastforce
  note ok' = ok [unfolded p snd_conv] and wf' = wf [unfolded p snd_conv]
  show ?thesis
  proof (cases "view s (unitKey ?ns ?n)")
    case (Some ob)
    then obtain u where ob: "ob = OUnit u" using view_unit by blast
    from getUnit_live [OF ok' Some [unfolded ob]] obtain s' where
      "getUnit K ?ns ?n s = (Inr u, s')" "ok s'" "view s' = view s" by blast
    with Some wf' show ?thesis
      by (simp add: createMissing_def tryA_def liftW_def p frame_def)
  next
    case None
    from getUnit_live_absent [OF ok' None] obtain s1 where
      1: "getUnit K ?ns ?n s = (Inl (Api NotFound), s1)" "ok s1" "view s1 = view s" by blast
    from orderA_total [OF 1(2)] obtain ord s2 where
      2: "orderA K (length (mountsByName ms)) s1 = (Inr ord, s2)" "ok s2" "view s2 = view s1" by blast
    from generate_total obtain t where
      t: "generateUnitTemplate X ord ?ns ?n (Some us) (Some pt) ms vs es pvcs = Inr t" by blast
    define u where "u = fillUnitPersonalizedInfo X t us (snd (UnitNames us)) ?n"
    have k: "keyOf (OUnit u) = unitKey ?ns ?n"
      using created_member(3) [OF t us(1) i us(2) u_def, of u] by (simp add: metaEq_def)
    have "view s2 (keyOf (OUnit u)) = None" unfolding k 2(3) 1(3) by (rule None)
    from create_total [OF 2(2) this] obtain ob' s3 where
      3: "createObj K (OUnit u) s2 = (Inr ob', s3)" "ok s3" "createEff wire (OUnit u) ob' (view s2) (view s3)" by blast
    from 3(3) obtain u' where ob': "ob' = OUnit u'" and m: "metaEq (u_meta u) (u_meta u')"
      and v3: "view s3 = (view s)(unitKey ?ns ?n \<mapsto> OUnit u')"
      unfolding createEff_def k 2(3) 1(3) by (cases ob') (auto simp: keyOf_def)
    note mem = created_member(1,2) [OF t us(1) i us(2) u_def m]
    have "wfUnits us (view s3)"
      unfolding v3 using i us(1) by (intro wfUnits_upd [OF wf' mem]) (auto simp: is_int64_def)
    moreover have "createMissing K X ?ns us pt ms vs es pvcs ?n p = (Inr (), (True, s3))"
      by (simp add: createMissing_def tryA_def liftW_def bindA_def thenA_def putL_def p 1 2 t 3 IsNotFound_def
          flip: u_def)
    moreover have "view s \<subseteq>\<^sub>m view s3" using None by (auto simp: v3 map_le_def)
    moreover have "frame view {unitKey ?ns n |n. True} (view s) s3" by (auto simp: frame_def v3)
    ultimately show ?thesis using 3(2) by (auto simp: p v3)
  qed
qed

lemma createAll_live:
  assumes ok: "ok s" and wf: "wfUnits us (view s)"
    and us: "is_int64 (Units (us_Spec us))" "mfind (Labels (us_meta us)) UnitsetName = None"
  shows "\<exists>f s'. withLocal False (mapErr g (goGroupL K (unitNames us)
       (createMissing K X (Namespace (us_meta us)) us pt ms vs es pvcs))) s = (Inr ((), f), s') \<and>
     ok s' \<and> wfUnits us (view s') \<and> frame view {unitKey (Namespace (us_meta us)) n |n. True} (view s) s' \<and>
     (\<forall>n \<in> set (unitNames us). view s' (unitKey (Namespace (us_meta us)) n) \<noteq> None)"
proof -
  let ?ns = "Namespace (us_meta us)" and ?A = "{unitKey (Namespace (us_meta us)) n |n. True}"
  let ?R = "\<lambda>p q :: bool \<times> 'a. view (snd p) \<subseteq>\<^sub>m view (snd q) \<and> frame view ?A (view (snd p)) (snd q)"
  let ?I = "\<lambda>p :: bool \<times> 'a. ok (snd p) \<and> wfUnits us (view (snd p))"
  let ?Q = "\<lambda>n (p :: bool \<times> 'a). view (snd p) (unitKey ?ns n) \<noteq> None"
  let ?f = "createMissing K X ?ns us pt ms vs es pvcs"
  from shuffled_total [OF ok] obtain ys s1 where
    1: "shuffled K (unitNames us) s = (Inr ys, s1)" "ok s1" "view s1 = view s" "mset ys = mset (unitNames us)" by blast
  have ys: "set ys = set (unitNames us)" using 1(4) by (rule mset_eq_setD)
  have "\<exists>q. forkAll ys ?f (False, s1) = ([], q) \<and> ?I q \<and> ?R (False, s1) q \<and> (\<forall>n \<in> set ys. ?Q n q)"
  proof (rule forkAll_total)
    fix n p assume "n \<in> set ys" and p: "?I p"
    then obtain i where "n = unitNameAt us i" "0 \<le> i" "i < Units (us_Spec us)" by (auto simp: ys unitNames_eq)
    with createMissing_live [of p us i X pt ms vs es pvcs] p us
    show "\<exists>q. ?f n p = (Inr (), q) \<and> ?I q \<and> ?R p q \<and> ?Q n q" by blast
  next
    fix n and p q :: "bool \<times> 'a" assume "?Q n p" and "?R p q"
    then show "?Q n q" by (auto simp: map_le_def dom_def)
  next
    fix p q r :: "bool \<times> 'a" assume pq: "?R p q" and qr: "?R q r"
    then show "?R p r" by (auto simp: frame_def intro: map_le_trans)
  qed (use 1 wf in auto)
  then obtain f s2 where 2: "forkAll ys ?f (False, s1) = ([], (f, s2))" "ok s2" "wfUnits us (view s2)"
    "frame view ?A (view s1) s2" "\<forall>n \<in> set ys. view s2 (unitKey ?ns n) \<noteq> None" by auto
  have "withLocal False (mapErr g (goGroupL K (unitNames us) ?f)) s = (Inr ((), f), s2)"
    by (simp add: withLocal_def mapErr_def goGroupL_def bindA_def liftW_def 1 forkFirst_def 2)
  with 1 2 ys show ?thesis by auto
qed

lemma surplus_not_expected:
  assumes w: "view s (keyOf (OUnit w)) = Some (OUnit w)" "inSet us w"
    and wf: "wfUnits us (view s)" and us: "is_int64 (Units (us_Spec us))"
    and sur: "surplus (Units (us_Spec us)) w" and i: "0 \<le> i" "i < Units (us_Spec us)"
  shows "keyOf (OUnit w) \<noteq> unitKey (Namespace (us_meta us)) (unitNameAt us i)"
proof
  assume k: "keyOf (OUnit w) = unitKey (Namespace (us_meta us)) (unitNameAt us i)"
  with w wf obtain j where j: "0 \<le> j" "j < 2 ^ 63 - 1" "unitNameAt us i = unitNameAt us j" "serialNumber w = Some j"
    unfolding wfUnits_def by metis
  with i us have "i = j" using unitNameAt_inject [of i j us] by (auto simp: is_int64_def)
  with j i sur show False by (simp add: surplus_def wrap64_id is_int64_def)
qed

lemma expected_units_listed:
  assumes ks: "\<And>u. u \<in> set ks \<longleftrightarrow> view s (keyOf (OUnit u)) = Some (OUnit u) \<and> inSet us u"
    and d: "distinct (map (\<lambda>u. keyOf (OUnit u)) ks)"
    and wf: "wfUnits us (view s)" and us: "is_int64 (Units (us_Spec us))"
    and ex: "\<forall>n \<in> set (unitNames us). view s (unitKey (Namespace (us_meta us)) n) \<noteq> None"
    and w: "w \<in> set ks" "surplus (Units (us_Spec us)) w" "Namespace (us_meta us) \<noteq> []"
  shows "Units (us_Spec us) < int (length ks)"
proof -
  let ?ns = "Namespace (us_meta us)" and ?key = "\<lambda>u. keyOf (OUnit u)"
  let ?E = "(\<lambda>n. unitKey ?ns n) ` set (unitNames us)"
  have E: "?E \<subseteq> ?key ` set ks"
  proof
    fix k assume "k \<in> ?E"
    then obtain i where k: "k = unitKey ?ns (unitNameAt us i)" and i: "0 \<le> i" "i < Units (us_Spec us)"
      and n: "unitNameAt us i \<in> set (unitNames us)" by (auto simp: unitNames_eq)
    from ex n obtain u where u: "view s k = Some (OUnit u)" using view_unit k by fastforce
    with wf i have "inSet us u" unfolding wfUnits_def k by blast
    moreover have "keyOf (OUnit u) = k" using view_key [OF u] .
    ultimately show "k \<in> ?key ` set ks" using ks [of u] u by force
  qed
  have "?key w \<notin> ?E"
  proof
    assume "?key w \<in> ?E"
    then obtain i where "?key w = unitKey ?ns (unitNameAt us i)" "0 \<le> i" "i < Units (us_Spec us)"
      by (auto simp: unitNames_eq)
    with surplus_not_expected [OF _ _ wf us w(2)] w(1) ks show False by blast
  qed
  with E w(1) have "?E \<subset> ?key ` set ks" by auto
  then have "card ?E < card (?key ` set ks)" by (intro psubset_card_mono) auto
  also have "card (?key ` set ks) = length ks" using distinct_card [OF d] by simp
  finally have "card (set (unitNames us)) < length ks" by (simp add: card_image inj_on_def)
  moreover have "card (set (unitNames us)) = nat (Units (us_Spec us))"
    using distinct_card [OF distinct_unitNames [OF us]] by (simp add: unitNames_eq)
  ultimately show ?thesis by simp
qed

lemma kept_is_expected:
  assumes "view s (unitKey (Namespace (us_meta us)) n) = Some (OUnit u)" "inSet us u"
    and wf: "wfUnits us (view s)" and us: "is_int64 (Units (us_Spec us))"
    and "\<not> surplus (Units (us_Spec us)) u"
  shows "n \<in> set (unitNames us)"
proof -
  from assms obtain j where j: "0 \<le> j" "j < 2 ^ 63 - 1" "n = unitNameAt us j" "serialNumber u = Some j"
    unfolding wfUnits_def by metis
  with assms(5) have "j < Units (us_Spec us)" by (simp add: surplus_def wrap64_id is_int64_def)
  with j show ?thesis by (simp add: unitNames_eq)
qed

text \<open>The state after the removal step, whether or not it had to run.\<close>

lemma removeStep_live:
  assumes ok: "ok s" and wf: "wfUnits us (view s)" and us: "is_int64 (Units (us_Spec us))"
    and ns: "Namespace (us_meta us) \<noteq> []"
    and ex: "\<forall>n \<in> set (unitNames us). view s (unitKey (Namespace (us_meta us)) n) \<noteq> None"
    and ks: "\<And>u. u \<in> set ks \<longleftrightarrow> view s (keyOf (OUnit u)) = Some (OUnit u) \<and> inSet us u"
    and d: "distinct (map (\<lambda>u. keyOf (OUnit u)) ks)"
  shows "\<exists>b s'. (if ks \<noteq> [] \<and> int (length ks) > Units (us_Spec us)
        then bindA (removeUnits K us ks) (\<lambda>_. ret True) else ret f) s = (Inr b, s') \<and> ok s' \<and>
     frame view {unitKey (Namespace (us_meta us)) n |n. True} (view s) s' \<and>
     (\<forall>n \<in> set (unitNames us). view s' (unitKey (Namespace (us_meta us)) n) \<noteq> None) \<and>
     (\<forall>n u. view s' (unitKey (Namespace (us_meta us)) n) = Some (OUnit u) \<longrightarrow> inSet us u \<longrightarrow>
        DeletionTimestamp (u_meta u) = None \<longrightarrow> n \<in> set (unitNames us))"
proof (cases "ks \<noteq> [] \<and> int (length ks) > Units (us_Spec us)")
  case False
  have nos: "\<not> surplus (Units (us_Spec us)) u"
    if u: "view s (unitKey (Namespace (us_meta us)) n) = Some (OUnit u)" "inSet us u" for n u
  proof
    assume "surplus (Units (us_Spec us)) u"
    moreover have "u \<in> set ks" using ks [of u] u view_key [OF u(1)] by simp
    ultimately show False
      using expected_units_listed [OF ks d wf us ex _ _ ns] False by fastforce
  qed
  then show ?thesis
    using False ok ex kept_is_expected [OF _ _ wf us nos] by auto
next
  case True
  let ?S = "{keyOf (OUnit u) |u. u \<in> set ks \<and> surplus (Units (us_Spec us)) u}"
  have pre: "view s (keyOf (OUnit u)) = Some (OUnit u) \<and> serialNumber u \<noteq> None" if "u \<in> set ks" for u
    using that ks [of u] wf ns unfolding wfUnits_def inSet_def by fastforce
  from removeLoop_live [OF ok pre d, of "Units (us_Spec us)" "[]"] obtain out s' where
    r: "removeLoop K (Units (us_Spec us)) [] ks s = (Inr out, s')" "ok s'"
    and g: "\<forall>u \<in> set ks. surplus (Units (us_Spec us)) u \<longrightarrow> gone (view s') (keyOf (OUnit u))"
    and fr: "frame view ?S (view s) s'" by auto
  have sub: "?S \<subseteq> {unitKey (Namespace (us_meta us)) n |n. True}"
    using ks ns by (auto simp: inSet_def)
  have "view s' (unitKey (Namespace (us_meta us)) n) \<noteq> None" if n: "n \<in> set (unitNames us)" for n
  proof -
    from n obtain i where i: "n = unitNameAt us i" "0 \<le> i" "i < Units (us_Spec us)" by (auto simp: unitNames_eq)
    have "unitKey (Namespace (us_meta us)) n \<notin> ?S"
    proof
      assume "unitKey (Namespace (us_meta us)) n \<in> ?S"
      then obtain u where u: "unitKey (Namespace (us_meta us)) n = keyOf (OUnit u)" "u \<in> set ks"
        "surplus (Units (us_Spec us)) u" by (elim CollectE exE conjE)
      then have "view s (keyOf (OUnit u)) = Some (OUnit u)" "inSet us u" using ks by blast+
      from surplus_not_expected [OF this wf us u(3) i(2,3)] u(1) i(1) show False by (simp only:) simp
    qed
    from frameD [OF fr this] ex n show ?thesis by simp
  qed
  moreover have "n \<in> set (unitNames us)"
    if u: "view s' (unitKey (Namespace (us_meta us)) n) = Some (OUnit u)" "inSet us u" "DeletionTimestamp (u_meta u) = None" for n u
  proof -
    have "unitKey (Namespace (us_meta us)) n \<notin> ?S" using g u(1,3) by (force simp: gone_def simp del: keyOf_simps)
    from frameD [OF fr this] u(1) have v: "view s (unitKey (Namespace (us_meta us)) n) = Some (OUnit u)" by simp
    then have "u \<in> set ks" using ks [of u] u(2) view_key [OF v] by simp
    with \<open>_ \<notin> ?S\<close> view_key [OF v] have "\<not> surplus (Units (us_Spec us)) u" by auto
    from kept_is_expected [OF v u(2) wf us this] show ?thesis .
  qed
  moreover have "removeUnits K us ks s = (Inr out, s')" using True r by (auto simp: removeUnits_def)
  ultimately show ?thesis using True r frame_mono [OF fr sub] by auto
qed

lemma reconcileUnit_live:
  assumes ok: "ok s" and wf: "wfUnits us (view s)"
    and us: "is_int64 (Units (us_Spec us))" "mfind (Labels (us_meta us)) UnitsetName = None" "Namespace (us_meta us) \<noteq> []"
    and l: "view s (unitSetKey (Namespace (us_meta us)) (us_Name us)) = Some (OUnitSet latest)"
    and gen: "generateVolumeMountsAndEnvs X us = Inr (ms, vs, es, pvcs)"
  shows "\<exists>s'. reconcileUnit K X (Namespace (us_meta us)) us pt s = (Inr (), s') \<and> ok s' \<and>
     frame view ({unitKey (Namespace (us_meta us)) n |n. True} \<union> {unitSetKey (Namespace (us_meta us)) (us_Name us)}) (view s) s' \<and>
     (\<forall>n \<in> set (unitNames us). view s' (unitKey (Namespace (us_meta us)) n) \<noteq> None) \<and>
     (\<forall>n u. view s' (unitKey (Namespace (us_meta us)) n) = Some (OUnit u) \<longrightarrow> inSet us u \<longrightarrow>
        DeletionTimestamp (u_meta u) = None \<longrightarrow> n \<in> set (unitNames us))"
proof -
  let ?ns = "Namespace (us_meta us)" and ?A = "{unitKey (Namespace (us_meta us)) n |n. True}"
  from createAll_live [OF ok wf us(1,2)] obtain f s1 where
    1: "withLocal False (mapErr (Fmt ''reconcileUnit error'') (goGroupL K (unitNames us)
       (createMissing K X ?ns us pt ms vs es pvcs))) s = (Inr ((), f), s1)"
    "ok s1" "wfUnits us (view s1)" "frame view ?A (view s) s1"
    "\<forall>n \<in> set (unitNames us). view s1 (unitKey ?ns n) \<noteq> None" by blast
  from unitsBelong_live [OF 1(2)] obtain ks s2 where
    2: "unitsBelongUnitset K us s1 = (Inr ks, s2)" "ok s2" by blast
  note b = unitsBelong_Inr [OF 2(1)]
  have "wfUnits us (view s2)" "\<forall>n \<in> set (unitNames us). view s2 (unitKey ?ns n) \<noteq> None" using 1 b(2) by auto
  from removeStep_live [OF 2(2) this(1) us(1,3) this(2) _ b(3), of f] b(1,2) obtain nd s3 where
    3: "(if ks \<noteq> [] \<and> int (length ks) > Units (us_Spec us)
        then bindA (removeUnits K us ks) (\<lambda>_. ret True) else ret f) s2 = (Inr nd, s3)" "ok s3"
     "frame view ?A (view s2) s3" "\<forall>n \<in> set (unitNames us). view s3 (unitKey ?ns n) \<noteq> None"
     "\<forall>n u. view s3 (unitKey ?ns n) = Some (OUnit u) \<longrightarrow> inSet us u \<longrightarrow>
        DeletionTimestamp (u_meta u) = None \<longrightarrow> n \<in> set (unitNames us)" by auto
  have fr3: "frame view ?A (view s) s3" using 1(4) 3(3) b(2) by (auto simp: frame_def)
  then have "view s3 (unitSetKey ?ns (us_Name us)) = Some (OUnitSet latest)" 
    using frameD [OF fr3, of "unitSetKey ?ns (us_Name us)"] l by simp
  from observedGeneration_live [OF 3(2) this] obtain s4 l' where
    4: "reconcileUnitsetObservedGeneration K ?ns us s3 = (Inr (), s4)" "ok s4"
    "view s4 = (view s3)(unitSetKey ?ns (us_Name us) \<mapsto> OUnitSet l')" by blast
  have run: "reconcileUnit K X ?ns us pt s =
      whenA nd (mapErr (Fmt ''[reconcileUnit] update unitset status error'') (reconcileUnitsetObservedGeneration K ?ns us)) s3"
    unfolding reconcileUnit_def gen using 1(1) 2(1) 3(1) by (simp add: bindA_def mapErr_def)
  show ?thesis
  proof (cases nd)
    case True
    with run 4 have "reconcileUnit K X ?ns us pt s = (Inr (), s4)" by (simp add: whenA_def)
    moreover have "frame view (?A \<union> {unitSetKey ?ns (us_Name us)}) (view s) s4"
      using fr3 by (auto simp: frame_def 4(3))
    ultimately show ?thesis using 3(4,5) 4(2) by (auto simp: 4(3))
  next
    case False
    with run have "reconcileUnit K X ?ns us pt s = (Inr (), s3)" by (simp add: whenA_def)
    moreover have "frame view (?A \<union> {unitSetKey ?ns (us_Name us)}) (view s) s3"
      by (rule frame_mono [OF fr3]) blast
    ultimately show ?thesis using 3(2,4,5) by blast
  qed
qed

end

text \<open>
  C5 (\<open>reconcileUnit\<close>): scaling. With an API server that answers, from a cluster whose units of
  the set are well formed, \<open>reconcileUnit\<close> succeeds, touches only units of the namespace and the
  UnitSet itself, and afterwards every unit the spec asks for exists and every unit of the set that
  is not being deleted is one of them, whatever the order of the goroutines and of map iterations.
\<close>

theorem reconcileUnit_scales:
  assumes "kube_live K view wire ok" and "ok s" and "wfUnits us (view s)"
    and "is_int64 (Units (us_Spec us))" and "mfind (Labels (us_meta us)) UnitsetName = None"
    and "Namespace (us_meta us) \<noteq> []"
    and "view s (unitSetKey (Namespace (us_meta us)) (us_Name us)) = Some (OUnitSet latest)"
    and "generateVolumeMountsAndEnvs X us = Inr (ms, vs, es, pvcs)"
  shows "\<exists>s'. reconcileUnit K X (Namespace (us_meta us)) us pt s = (Inr (), s') \<and>
     frame view ({unitKey (Namespace (us_meta us)) n |n. True} \<union> {unitSetKey (Namespace (us_meta us)) (us_Name us)}) (view s) s' \<and>
     (\<forall>n \<in> set (unitNames us). view s' (unitKey (Namespace (us_meta us)) n) \<noteq> None) \<and>
     (\<forall>n u. view s' (unitKey (Namespace (us_meta us)) n) = Some (OUnit u) \<longrightarrow> inSet us u \<longrightarrow>
        DeletionTimestamp (u_meta u) = None \<longrightarrow> n \<in> set (unitNames us))"
  using kube_live.reconcileUnit_live [OF assms] by blast

text \<open>A cluster with two units of a set that asks for one.\<close>

definition sampleSet :: UnitSet where
  "sampleSet = sampleUnitSet ''db'' 1"

definition sampleCluster :: mem where
  "sampleCluster = \<lparr>m_store = [OUnitSet sampleSet, OUnit (sampleUnit sampleSet 0), OUnit (sampleUnit sampleSet 1)],
     m_rv = 1, m_faults = []\<rparr>"

lemma sampleCluster_view:
  "memView sampleCluster (unitKey ''ns'' n) =
     (if n = unitNameAt sampleSet 0 then Some (OUnit (sampleUnit sampleSet 0))
      else if n = unitNameAt sampleSet 1 then Some (OUnit (sampleUnit sampleSet 1)) else None)"
  "memView sampleCluster (unitSetKey ''ns'' ''db'') = Some (OUnitSet sampleSet)"
  by (auto simp: memView_def sampleCluster_def sampleUnit_def sampleSet_def sample_simps zero_defs)

lemma sampleUnit_facts:
  "inSet sampleSet (sampleUnit sampleSet i)" "is_int64 i \<Longrightarrow> serialNumber (sampleUnit sampleSet i) = Some i"
  by (simp_all add: inSet_def sampleUnit_def zero_defs sampleSet_def sample_simps serialNumber_def Atoi_Itoa)

lemma sampleCluster_wf: "wfUnits sampleSet (memView sampleCluster)"
proof -
  have ns: "Namespace (us_meta sampleSet) = ''ns''" by (simp add: sampleSet_def sample_simps)
  have "is_int64 0" "is_int64 1" by (simp_all add: is_int64_def)
  then show ?thesis
    unfolding wfUnits_def ns sampleCluster_view
    by (auto simp: sampleUnit_facts split: if_splits intro: exI [of _ "0 :: int"] exI [of _ "1 :: int"])
qed

theorem reconcileUnit_scales_witness:
  "\<exists>s'. reconcileUnit memKube plainExt ''ns'' sampleSet sampleTemplate sampleCluster = (Inr (), s') \<and>
     memView s' (unitKey ''ns'' ''db-0'') \<noteq> None \<and>
     (\<forall>u. memView s' (unitKey ''ns'' ''db-1'') = Some (OUnit u) \<longrightarrow> inSet sampleSet u \<longrightarrow>
        DeletionTimestamp (u_meta u) \<noteq> None)"
proof -
  have ns: "Namespace (us_meta sampleSet) = ''ns''" "us_Name sampleSet = ''db''"
    "Units (us_Spec sampleSet) = 1" "Labels (us_meta sampleSet) = None"
    by (simp_all add: sampleSet_def sample_simps us_Name_def) (simp add: sampleUnitSet_def zero_defs)
  have gen: "generateVolumeMountsAndEnvs plainExt sampleSet = Inr ([], [], [], [])"
    by (simp add: generateVolumeMountsAndEnvs_def sampleSet_def sampleUnitSet_def zero_defs certificatesOn_def Let_def)
  have names: "unitNames sampleSet = [''db-0'']" by code_simp
  have "memOk sampleCluster" by (simp add: memOk_def sampleCluster_def)
  from reconcileUnit_scales [OF mem.kube_live_axioms this sampleCluster_wf _ _ _ _ gen, of sampleSet sampleTemplate]
  show ?thesis unfolding ns names by (auto simp: sampleCluster_view is_int64_def)
qed

end
