(* ===== verification/RollingUpdate.thy ===== *)
theory RollingUpdate
  imports UnitSetUnits
begin

text \<open>
  Image updates of the units of a set (\<open>src/pkg/controller/unitset/unitset_unit_update.go\<close>):
  the rolling update with its progress marker \<open>status.inUpdate\<close>, and the parallel update.
  A reconciliation of the rolling update changes at most the unit the marker names; one
  reconciliation per unit brings every unit to the version of the spec.
\<close>

section \<open>Operations\<close>

definition updateStrategyRollingUpdate :: string where
  "updateStrategyRollingUpdate = ''RollingUpdate''"

definition isRolling :: "UnitSet \<Rightarrow> bool" where
  "isRolling us \<longleftrightarrow> EqualFold (us_Type (UpdateStrategy (us_Spec us))) updateStrategyRollingUpdate"

definition setInUpdate :: "string \<Rightarrow> UnitSet \<Rightarrow> UnitSet" where
  "setInUpdate n us = us\<lparr>us_Status := (us_Status us)\<lparr>InUpdate := n\<rparr>\<rparr>"

definition updateInUpdateStatus :: "'s kube \<Rightarrow> string \<Rightarrow> UnitSet \<Rightarrow> string \<Rightarrow> ('s, unit) act" where
  "updateInUpdateStatus K reqNamespace unitset unitName =
     retryOnConflict DefaultBackoff
       (bindA (mapErr (Wrap ''failed to get latest unitset'') (getUnitSet K reqNamespace (us_Name unitset))) (\<lambda>latest.
          if InUpdate (us_Status latest) = unitName then ret ()
          else thenA (mapErr (Wrap ''failed to update InUpdate status'')
                       (statusUpdate K (OUnitSet (setInUpdate unitName latest)))) (ret ())))"

definition versionMatches :: "UnitSet \<Rightarrow> Unit \<Rightarrow> bool" where
  "versionMatches us u \<longleftrightarrow>
     mfind (Annotations (u_meta u)) AnnotationMainContainerVersion = Some (Version (us_Spec us))"

definition checkUnitNeedsUpgrade :: "'s kube \<Rightarrow> string \<Rightarrow> UnitSet \<Rightarrow> string \<Rightarrow> ('s, bool) act" where
  "checkUnitNeedsUpgrade K reqNamespace unitset unitName =
     bindA (mapErr (Wrap ''failed to get unit'') (getUnit K reqNamespace unitName)) (\<lambda>unit.
       ret (case Annotations (u_meta unit) of
              None \<Rightarrow> True
            | Some _ \<Rightarrow> (case mfind (Annotations (u_meta unit)) AnnotationMainContainerVersion of
                           None \<Rightarrow> True
                         | Some currentVersion \<Rightarrow> currentVersion \<noteq> Version (us_Spec unitset))))"

fun indexOf :: "'a \<Rightarrow> 'a list \<Rightarrow> nat option" where
  "indexOf x [] = None"
| "indexOf x (y # ys) = (if y = x then Some 0 else map_option Suc (indexOf x ys))"

text \<open>The part of \<open>performRollingUpdate\<close> after the current unit has been found in the list.\<close>

definition rollAt ::
  "'s kube \<Rightarrow> string \<Rightarrow> UnitSet \<Rightarrow> string list \<Rightarrow> (string \<Rightarrow> ('s, unit) act) \<Rightarrow> nat \<Rightarrow> string \<Rightarrow> ('s, bool) act" where
  "rollAt K reqNamespace unitset units updateUnit currentIndex currentUpgradeUnit =
     bindA (mapErr (Wrap ''failed to check if unit needs upgrade'')
              (checkUnitNeedsUpgrade K reqNamespace unitset currentUpgradeUnit)) (\<lambda>needsUpgrade.
     thenA (if needsUpgrade
            then bindA (asks (kCtxDone K)) (\<lambda>done.
                   if done then fail (Wrap ''rolling update cancelled while upgrading unit'' (Msg ''context''))
                   else mapErr (Wrap ''rolling update failed for unit'') (updateUnit currentUpgradeUnit))
            else ret ())
       (if currentIndex + 1 < length units
        then thenA (mapErr (Wrap ''failed to advance to next unit'')
                      (updateInUpdateStatus K reqNamespace unitset (units ! (currentIndex + 1)))) (ret False)
        else thenA (mapErr (Wrap ''failed to clear upgrade status'')
                      (updateInUpdateStatus K reqNamespace unitset [])) (ret True)))"

definition performRollingUpdate ::
  "'s kube \<Rightarrow> string \<Rightarrow> UnitSet \<Rightarrow> string list \<Rightarrow> (string \<Rightarrow> ('s, unit) act) \<Rightarrow> ('s, bool) act" where
  "performRollingUpdate K reqNamespace unitset unitList updateUnit =
     (let units = sortUnitNamesByOrdinal unitList;
          inUpdate = InUpdate (us_Status unitset)
      in if inUpdate = [] \<and> units = [] then ret True
         else bindA (if inUpdate = []
                     then thenA (mapErr (Wrap ''failed to start upgrade for unit'')
                            (updateInUpdateStatus K reqNamespace unitset (hd units))) (ret (hd units))
                     else ret inUpdate) (\<lambda>currentUpgradeUnit.
           case indexOf currentUpgradeUnit units of
             Some currentIndex \<Rightarrow> rollAt K reqNamespace unitset units updateUnit currentIndex currentUpgradeUnit
           | None \<Rightarrow>
               if units = [] then fail (Panic ''index out of range'')
               else thenA (mapErr (Wrap ''failed to reset upgrade for unit'')
                      (updateInUpdateStatus K reqNamespace unitset (hd units)))
                    (rollAt K reqNamespace unitset units updateUnit 0 (hd units))))"

text \<open>
  \<open>performParallelUpdate\<close>: an \<open>errgroup\<close> whose bodies give up once the group's context is
  cancelled, hence after the first error.
\<close>

definition performParallelUpdate ::
  "'s kube \<Rightarrow> string list \<Rightarrow> (string \<Rightarrow> ('s, unit) act) \<Rightarrow> ('s, unit) act" where
  "performParallelUpdate K units updateUnit =
     bindA (shuffled K units) (\<lambda>ys. forEach ys (\<lambda>unit.
       bindA (asks (kCtxDone K)) (\<lambda>done.
         if done then fail (Msg ''context canceled'')
         else mapErr (Wrap ''parallel update failed for unit'') (updateUnit unit))))"

definition setVersion :: "UnitSet \<Rightarrow> Unit \<Rightarrow> Unit" where
  "setVersion us u = u\<lparr>u_meta := (u_meta u)\<lparr>Annotations :=
     mput AnnotationMainContainerVersion (Version (us_Spec us)) (Annotations (u_meta u))\<rparr>\<rparr>"

definition updateUnitImageVersion ::
  "'s kube \<Rightarrow> ext \<Rightarrow> string \<Rightarrow> UnitSet \<Rightarrow> podTemplate \<Rightarrow> volumeMount list \<Rightarrow> volume list \<Rightarrow> envVar list
    \<Rightarrow> string \<Rightarrow> ('s, unit) act" where
  "updateUnitImageVersion K X reqNamespace unitset podTemplate volumeMounts volumes envVars unit =
     bindA (mapErr (Wrap ''failed to get unit'') (getUnit K reqNamespace unit)) (\<lambda>original.
     bindA (orderA K (length (mountsByName volumeMounts))) (\<lambda>ord.
     let updated = mergePodTemplate X ord reqNamespace original unitset podTemplate volumeMounts volumes envVars in
     thenA (mapErr (Wrap ''failed to update unit'')
              (retryOnConflict DefaultBackoff (updateObj K (OUnit updated))))
     (bindA (asks (kCtxDone K)) (\<lambda>done.
        if done then fail (Wrap ''context cancelled during grace period for unit'' (Msg ''context''))
        else mapErr (Wrap ''failed to update version annotation for unit'')
               (retryOnConflict DefaultBackoff
                 (bindA (mapErr (Wrap ''failed to get unit for annotation update'') (getUnit K reqNamespace unit))
                   (\<lambda>current. thenA (updateObj K (OUnit (setVersion unitset current))) (ret ()))))))))"

definition reconcileImageVersion ::
  "'s kube \<Rightarrow> ext \<Rightarrow> vars \<Rightarrow> string \<Rightarrow> UnitSet \<Rightarrow> podTemplate \<Rightarrow> ('s, unit) act" where
  "reconcileImageVersion K X V reqNamespace unitset podTemplate =
     bindA (mapErr (Wrap ''failed to get template pod template'')
              (getPodTemplateObj K (ManagerNamespace V) (TemplatePodTemplateName unitset))) (\<lambda>templatePodTemplate.
     if semEqTemplate X (pt_Template podTemplate) (pt_Template templatePodTemplate) then ret ()
     else
       let newTemplate = podTemplate\<lparr>pt_Template := pt_Template templatePodTemplate\<rparr> in
       bindA (liftE (generateVolumeMountsAndEnvs X unitset)) (\<lambda>(volumeMounts, volumes, envVars, pvcs).
       if unitNames unitset = [] then ret ()
       else
         let units = sortUnitNamesByOrdinal (unitNames unitset);
             updateUnit = updateUnitImageVersion K X reqNamespace unitset newTemplate volumeMounts volumes envVars
         in bindA (mapErr (Wrap ''reconcileImageVersion failed'')
                    (if isRolling unitset then performRollingUpdate K reqNamespace unitset units updateUnit
                     else thenA (performParallelUpdate K units updateUnit) (ret True))) (\<lambda>upgradeReady.
            if \<not> upgradeReady then ret ()
            else bindA (mapErr (Wrap ''failed to get old version pod template'')
                          (getPodTemplateObj K reqNamespace (PodTemplateName unitset))) (\<lambda>old.
                 thenA (mapErr (Wrap ''failed to update pod template'')
                          (updateObj K (OPodTemplate (old\<lparr>pt_Template := pt_Template templatePodTemplate\<rparr>))))
                   (mapErr (Fmt ''[reconcileImageVersion] update unitset status error'')
                     (reconcileUnitsetObservedGeneration K reqNamespace unitset))))))"

text \<open>\<open>waitForUnitReady\<close>; the sentinel error is compared with \<open>errors.Is\<close>.\<close>

definition errUnitFailedState :: error where
  "errUnitFailedState = Msg ''unit entered failed state''"

definition waitForUnitReady :: "'s kube \<Rightarrow> string \<Rightarrow> string \<Rightarrow> ('s, unit) act" where
  "waitForUnitReady K reqNamespace unitName =
     tryA (pollUntil (kPolls K 10000 90000)
            (tryA (getUnit K reqNamespace unitName) (\<lambda>r. case r of
               Inl _ \<Rightarrow> ret False
             | Inr current \<Rightarrow>
                 if Phase (u_Status current) = UnitReady then ret True
                 else if Phase (u_Status current) = UnitFailed then fail errUnitFailedState
                 else ret False)))
       (\<lambda>w. case w of
          Inr _ \<Rightarrow> ret ()
        | Inl waitErr \<Rightarrow> tryA (getUnit K reqNamespace unitName) (\<lambda>_.
            if waitErr = errUnitFailedState then fail (Wrap ''unit entered failed state'' waitErr)
            else fail (Wrap ''unit did not become ready within timeout'' waitErr)))"

section \<open>Frames: at most the current unit\<close>

definition currentUnit :: "UnitSet \<Rightarrow> string list \<Rightarrow> string" where
  "currentUnit us unitList =
     (if InUpdate (us_Status us) \<noteq> [] \<and> InUpdate (us_Status us) \<in> set unitList then InUpdate (us_Status us)
      else hd (sortUnitNamesByOrdinal unitList))"

lemma indexOf_None: "indexOf x ys = None \<longleftrightarrow> x \<notin> set ys"
  by (induction ys) auto

lemma indexOf_Some: "indexOf x ys = Some i \<Longrightarrow> i < length ys \<and> ys ! i = x"
  by (induction ys arbitrary: i) (auto split: if_splits)

lemma indexOf_nth: "distinct ys \<Longrightarrow> i < length ys \<Longrightarrow> indexOf (ys ! i) ys = Some i"
proof (induction ys arbitrary: i)
  case (Cons y ys)
  then show ?case by (cases i) auto
qed simp

lemma setInUpdate_simps [simp]:
  "us_meta (setInUpdate n us) = us_meta us" "us_Spec (setInUpdate n us) = us_Spec us"
  "InUpdate (us_Status (setInUpdate n us)) = n"
  by (simp_all add: setInUpdate_def)

text \<open>The four ways a rolling update starts, by the progress marker.\<close>

lemma performRollingUpdate_eqs:
  fixes us units
  defines "xs \<equiv> sortUnitNamesByOrdinal units" and "cur \<equiv> InUpdate (us_Status us)"
  shows "cur = [] \<Longrightarrow> units = [] \<Longrightarrow> performRollingUpdate K ns us units f = ret True"
    and "cur = [] \<Longrightarrow> units \<noteq> [] \<Longrightarrow> performRollingUpdate K ns us units f =
      thenA (mapErr (Wrap ''failed to start upgrade for unit'') (updateInUpdateStatus K ns us (hd xs)))
        (rollAt K ns us xs f 0 (hd xs))"
    and "cur \<noteq> [] \<Longrightarrow> indexOf cur xs = Some i \<Longrightarrow> performRollingUpdate K ns us units f = rollAt K ns us xs f i cur"
    and "cur \<noteq> [] \<Longrightarrow> cur \<notin> set units \<Longrightarrow> units \<noteq> [] \<Longrightarrow> performRollingUpdate K ns us units f =
      thenA (mapErr (Wrap ''failed to reset upgrade for unit'') (updateInUpdateStatus K ns us (hd xs)))
        (rollAt K ns us xs f 0 (hd xs))"
    and "cur \<noteq> [] \<Longrightarrow> units = [] \<Longrightarrow> performRollingUpdate K ns us units f = fail (Panic ''index out of range'')"
proof -
  have nil: "xs = [] \<longleftrightarrow> units = []" unfolding xs_def by (metis length_0_conv length_sort)
  have hd0: "xs \<noteq> [] \<Longrightarrow> indexOf (hd xs) xs = Some 0" by (cases xs) auto
  have set: "set xs = set units" by (simp add: xs_def)
  note d = performRollingUpdate_def [of K ns us units f, folded xs_def cur_def, unfolded Let_def]
  show "cur = [] \<Longrightarrow> units = [] \<Longrightarrow> performRollingUpdate K ns us units f = ret True"
    unfolding d nil by simp
  show "cur = [] \<Longrightarrow> units \<noteq> [] \<Longrightarrow> performRollingUpdate K ns us units f =
      thenA (mapErr (Wrap ''failed to start upgrade for unit'') (updateInUpdateStatus K ns us (hd xs)))
        (rollAt K ns us xs f 0 (hd xs))"
    unfolding d using nil hd0 by (simp add: bindA_thenA_ret del: ret_apply)
  show "cur \<noteq> [] \<Longrightarrow> indexOf cur xs = Some i \<Longrightarrow> performRollingUpdate K ns us units f = rollAt K ns us xs f i cur"
    unfolding d by (simp del: ret_apply)
  show "cur \<noteq> [] \<Longrightarrow> cur \<notin> set units \<Longrightarrow> units \<noteq> [] \<Longrightarrow> performRollingUpdate K ns us units f =
      thenA (mapErr (Wrap ''failed to reset upgrade for unit'') (updateInUpdateStatus K ns us (hd xs)))
        (rollAt K ns us xs f 0 (hd xs))"
    unfolding d using nil set indexOf_None [of cur xs] by (simp del: ret_apply)
  show "cur \<noteq> [] \<Longrightarrow> units = [] \<Longrightarrow> performRollingUpdate K ns us units f = fail (Panic ''index out of range'')"
    unfolding d using nil by (simp del: ret_apply fail_apply)
qed

context kube_api
begin

lemma keeps_orderA [triple_rules]: "keeps (frame view A v) (orderA K n)"
  by (rule keepsI) (auto simp: orderA_def frame_def order_view split: prod.split)

lemma keeps_updateInUpdate [triple_rules]:
  "unitSetKey ns (us_Name us) \<in> A \<Longrightarrow> keeps (frame view A v) (updateInUpdateStatus K ns us n)"
  unfolding updateInUpdateStatus_def
  by (intro keeps_retry keeps_getUnitSet_then keeps_if keeps_ret keeps_thenA keeps_mapErr keeps_frame_writes)
    auto

lemma keeps_check [triple_rules]: "keeps (frame view A v) (checkUnitNeedsUpgrade K ns us n)"
  unfolding checkUnitNeedsUpgrade_def
  by (intro keeps_bindA keeps_mapErr keeps_frame_reads keeps_ret)

lemma keeps_updateUnitImageVersion [triple_rules]:
  assumes "unitKey ns n \<in> A"
  shows "keeps (frame view A v) (updateUnitImageVersion K X ns us pt ms vs es n)"
  unfolding updateUnitImageVersion_def Let_def
  using assms
  by (intro keeps_getUnit_then keeps_bindA keeps_thenA keeps_mapErr keeps_retry keeps_orderA keeps_frame_writes
      keeps_asks keeps_if keeps_fail keeps_ret)
    (auto simp: mergePodTemplate_def Let_def setVersion_def)

lemma keeps_rollAt:
  assumes "keeps (frame view A v) (f c)" and "unitSetKey ns (us_Name us) \<in> A"
  shows "keeps (frame view A v) (rollAt K ns us units f i c)"
  unfolding rollAt_def using assms
  by (intro keeps_bindA keeps_thenA keeps_mapErr keeps_check keeps_if keeps_asks keeps_fail keeps_ret keeps_updateInUpdate)

lemma keeps_performRollingUpdate:
  assumes f: "keeps (frame view A v) (f (currentUnit us units))" and k: "unitSetKey ns (us_Name us) \<in> A"
  shows "keeps (frame view A v) (performRollingUpdate K ns us units f)"
proof -
  let ?xs = "sortUnitNamesByOrdinal units" and ?cur = "InUpdate (us_Status us)"
  have start: "keeps (frame view A v) (thenA (mapErr g (updateInUpdateStatus K ns us (hd ?xs))) (rollAt K ns us ?xs f 0 (hd ?xs)))"
    if "?cur = [] \<or> ?cur \<notin> set units" for g
    using that f k
    by (intro keeps_thenA keeps_mapErr keeps_updateInUpdate keeps_rollAt) (auto simp: currentUnit_def split: if_splits)
  consider "?cur = []" "units = []" | "?cur = []" "units \<noteq> []" | "?cur \<in> set units" "?cur \<noteq> []"
    | "?cur \<noteq> []" "?cur \<notin> set units" "units \<noteq> []" | "?cur \<noteq> []" "units = []" by blast
  then show ?thesis
  proof cases
    case 3
    then obtain i where "indexOf ?cur ?xs = Some i" using indexOf_None [of ?cur ?xs] by auto
    with 3 f k show ?thesis by (simp add: performRollingUpdate_eqs(3) keeps_rollAt currentUnit_def)
  qed (use start in \<open>auto simp: performRollingUpdate_eqs keeps_ret keeps_fail\<close>)
qed

lemma keeps_getPodTemplate_then:
  assumes "\<And>u. Namespace (pt_meta u) = ns \<Longrightarrow> Name (pt_meta u) = n \<Longrightarrow> keeps (frame view A v) (f u)"
  shows "keeps (frame view A v) (bindA (mapErr g (getPodTemplateObj K ns n)) f)"
proof (rule keeps_bind_if [where P = "\<lambda>u. Namespace (pt_meta u) = ns \<and> Name (pt_meta u) = n"])
  show "triple (frame view A v) (mapErr g (getPodTemplateObj K ns n))
     (\<lambda>u s. (Namespace (pt_meta u) = ns \<and> Name (pt_meta u) = n) \<and> frame view A v s) (\<lambda>_. frame view A v)"
  proof (rule triple_mapErr, rule tripleI)
    fix s x s' assume "frame view A v s" and q: "getPodTemplateObj K ns n s = (Inr x, s')"
    with keepsD' [OF keeps_frame_reads(4)] getAs_Inr(1) [OF q [unfolded getPodTemplateObj_def]] view_names
    show "(Namespace (pt_meta x) = ns \<and> Name (pt_meta x) = n) \<and> frame view A v s'" by fastforce
  qed (rule keepsD' [OF keeps_frame_reads(4)])
qed (use assms in auto)

lemma keeps_reconcileImageVersion_rolling:
  assumes "isRolling us"
    and "{unitKey ns (currentUnit us (unitNames us)), unitSetKey ns (us_Name us), (KPodTemplate, ns, PodTemplateName us)} \<subseteq> A"
  shows "keeps (frame view A v) (reconcileImageVersion K X V ns us pt)"
proof -
  have cur: "currentUnit us (sortUnitNamesByOrdinal (unitNames us)) = currentUnit us (unitNames us)"
    by (simp add: currentUnit_def)
  show ?thesis
    unfolding reconcileImageVersion_def Let_def split_def
    using assms
    by (intro keeps_getPodTemplate_then keeps_if keeps_ret keeps_bindA keeps_liftE keeps_mapErr keeps_thenA
        keeps_frame_writes keeps_observedGeneration keeps_performRollingUpdate keeps_updateUnitImageVersion)
      (auto simp: cur keyOf_def)
qed

end

text \<open>
  C6 (\<open>reconcileImageVersion\<close>, \<open>performRollingUpdate\<close>): one reconciliation of a rolling
  update changes no object but the current unit (the one \<open>status.inUpdate\<close> names, or the first in
  update order), the UnitSet and the set's own pod template, whatever the API server answers.
\<close>

theorem rolling_update_one_unit:
  assumes "kube_api K view wire" and "isRolling us"
    and "k \<notin> {unitKey ns (currentUnit us (unitNames us)), unitSetKey ns (us_Name us), (KPodTemplate, ns, PodTemplateName us)}"
  shows "view (snd (reconcileImageVersion K X V ns us pt s)) k = view s k"
  by (rule frame_apply [OF kube_api.keeps_reconcileImageVersion_rolling [OF assms(1,2) subset_refl] assms(3)])

section \<open>Progress: one reconciliation per unit\<close>

text \<open>
  A rolling update as the controller runs it: every reconciliation reads the UnitSet again and does
  one step, until a step reports that all units are done.
\<close>

definition rollingStep ::
  "'s kube \<Rightarrow> ext \<Rightarrow> string \<Rightarrow> string \<Rightarrow> podTemplate \<Rightarrow> volumeMount list \<Rightarrow> volume list \<Rightarrow> envVar list
    \<Rightarrow> ('s, bool) act" where
  "rollingStep K X ns name pt ms vs es =
     bindA (getUnitSet K ns name) (\<lambda>us. performRollingUpdate K ns us (unitNames us)
       (updateUnitImageVersion K X ns us pt ms vs es))"

fun rollingSteps ::
  "'s kube \<Rightarrow> ext \<Rightarrow> string \<Rightarrow> string \<Rightarrow> podTemplate \<Rightarrow> volumeMount list \<Rightarrow> volume list \<Rightarrow> envVar list
    \<Rightarrow> nat \<Rightarrow> ('s, bool) act" where
  "rollingSteps K X ns name pt ms vs es 0 = ret False"
| "rollingSteps K X ns name pt ms vs es (Suc n) =
     bindA (rollingStep K X ns name pt ms vs es) (\<lambda>done.
       if done then ret True else rollingSteps K X ns name pt ms vs es n)"

lemma unitNames_cong: "us_Spec l = us_Spec us \<Longrightarrow> us_Name l = us_Name us \<Longrightarrow> unitNames l = unitNames us"
  by (simp add: unitNames_eq unitNameAt_def [abs_def])

lemma unitNames_nonempty: "n \<in> set (unitNames us) \<Longrightarrow> n \<noteq> []"
  by (auto simp: unitNames_eq unitNameAt_def)

lemma meta_merge: "u_meta (mergePodTemplate X ord ns u us pt ms vs es) = u_meta u"
  by (simp add: mergePodTemplate_def Let_def)

lemma versionMatches_setVersion: "metaEq (u_meta (setVersion us u)) (u_meta u') \<Longrightarrow> versionMatches us u'"
  by (simp add: versionMatches_def setVersion_def metaEq_def mfind_def)

definition alive :: "objview \<Rightarrow> okey \<Rightarrow> Unit \<Rightarrow> bool" where
  "alive v k u \<longleftrightarrow> v k = Some (OUnit u) \<and> DeletionTimestamp (u_meta u) = None"

context kube_live
begin

lemma updateInUpdate_live:
  assumes ok: "ok s" and l: "view s (unitSetKey ns (us_Name us)) = Some (OUnitSet latest)"
  shows "\<exists>s' l'. updateInUpdateStatus K ns us n s = (Inr (), s') \<and> ok s' \<and>
    view s' = (view s)(unitSetKey ns (us_Name us) \<mapsto> OUnitSet l') \<and> us_Spec l' = us_Spec latest \<and>
    InUpdate (us_Status l') = n"
proof -
  from getUnitSet_live [OF ok l] obtain t where
    t: "getUnitSet K ns (us_Name us) s = (Inr latest, t)" "ok t" "view t = view s" by blast
  show ?thesis
  proof (cases "InUpdate (us_Status latest) = n")
    case True
    then have "updateInUpdateStatus K ns us n s = (Inr (), t)"
      unfolding updateInUpdateStatus_def by (simp add: t)
    with True t l show ?thesis by (intro exI [of _ t] exI [of _ latest]) (auto simp: fun_upd_idem)
  next
    case False
    let ?ob = "OUnitSet (setInUpdate n latest)"
    have k: "keyOf ?ob = unitSetKey ns (us_Name us)" using view_names [OF l] by simp
    have "view t (keyOf ?ob) = Some (OUnitSet latest)" using l t(3) k by simp
    from status_total [OF t(2) this] obtain ob' s' where
      s': "statusUpdate K ?ob t = (Inr ob', s')" "ok s'" "statusEff ?ob ob' (view t) (view s')"
      by (auto simp: versionOk_def)
    from s'(3) k l t(3) obtain l' where
      "ob' = OUnitSet l'" and st: "statusStored (OUnitSet latest) ?ob ob'" and
      v: "view s' = (view s)(unitSetKey ns (us_Name us) \<mapsto> ob')"
      by (cases ob') (auto simp: statusEff_def keyOf_def)
    moreover have "updateInUpdateStatus K ns us n s = (Inr (), s')"
      unfolding updateInUpdateStatus_def using False by (simp add: t s')
    ultimately show ?thesis using s'(2) by (auto simp: unitSetStatusEq_def)
  qed
qed

lemma updateUnit_total:
  assumes ok: "ok s" and u: "alive (view s) (unitKey ns n) u"
    and w: "Name (u_meta w) = n" "Namespace (u_meta w) = ns" "ResourceVersion (u_meta w) = ResourceVersion (u_meta u)"
  shows "\<exists>ob' s' u'. updateObj K (OUnit w) s = (Inr ob', s') \<and> ok s' \<and>
    view s' = (view s)(unitKey ns n \<mapsto> OUnit u') \<and> alive (view s') (unitKey ns n) u' \<and> metaEq (u_meta w) (u_meta u')"
proof -
  have k: "keyOf (OUnit w) = unitKey ns n" using w by simp
  have "view s (keyOf (OUnit w)) = Some (OUnit u)" using u k by (simp add: alive_def)
  moreover have "versionOk (objMeta (OUnit w)) (objMeta (OUnit u))" using w by (simp add: versionOk_def)
  ultimately obtain ob' s' where
    s': "updateObj K (OUnit w) s = (Inr ob', s')" "ok s'" "updateEff wire (OUnit w) ob' (view s) (view s')"
    using update_total [OF ok] by blast
  from s'(3) u k obtain u' where "ob' = OUnit u'" "metaEq (u_meta w) (u_meta u')" "DeletionTimestamp (u_meta u') = None"
    "view s' = (view s)(unitKey ns n \<mapsto> OUnit u')"
    by (cases ob') (auto simp: updateEff_def keyOf_def alive_def)
  with s' show ?thesis by (auto simp: alive_def)
qed

lemma updateUnitImageVersion_live:
  assumes ok: "ok s" and u: "alive (view s) (unitKey ns n) u"
  shows "\<exists>s' u'. updateUnitImageVersion K X ns us pt ms vs es n s = (Inr (), s') \<and> ok s' \<and>
    view s' = (view s)(unitKey ns n \<mapsto> OUnit u') \<and> alive (view s') (unitKey ns n) u' \<and> versionMatches us u'"
proof -
  have v: "view s (unitKey ns n) = Some (OUnit u)" using u by (simp add: alive_def)
  from getUnit_live [OF ok v] obtain s1 where
    1: "getUnit K ns n s = (Inr u, s1)" "ok s1" "view s1 = view s" by blast
  from orderA_total [OF 1(2)] obtain ord s2 where
    2: "orderA K (length (mountsByName ms)) s1 = (Inr ord, s2)" "ok s2" "view s2 = view s1" by blast
  let ?w = "mergePodTemplate X ord ns u us pt ms vs es"
  have n: "Name (u_meta u) = n" "Namespace (u_meta u) = ns" using view_names [OF v] by auto
  have "alive (view s2) (unitKey ns n) u" using u 1 2 by (simp add: alive_def)
  from updateUnit_total [OF 2(2) this, of ?w] n obtain ob s3 u3 where
    3: "updateObj K (OUnit ?w) s2 = (Inr ob, s3)" "ok s3" "view s3 = (view s2)(unitKey ns n \<mapsto> OUnit u3)"
      "alive (view s3) (unitKey ns n) u3" by (auto simp: meta_merge)
  have v3: "view s3 (unitKey ns n) = Some (OUnit u3)" using 3(4) by (simp add: alive_def)
  from getUnit_live [OF 3(2) v3] obtain s4 where
    4: "getUnit K ns n s3 = (Inr u3, s4)" "ok s4" "view s4 = view s3" by blast
  have n3: "Name (u_meta u3) = n" "Namespace (u_meta u3) = ns" using view_names [OF v3] by auto
  have "alive (view s4) (unitKey ns n) u3" using 3(4) 4(3) by simp
  from updateUnit_total [OF 4(2) this, of "setVersion us u3"] n3 obtain ob5 s5 u5 where
    5: "updateObj K (OUnit (setVersion us u3)) s4 = (Inr ob5, s5)" "ok s5"
      "view s5 = (view s4)(unitKey ns n \<mapsto> OUnit u5)" "alive (view s5) (unitKey ns n) u5"
      "metaEq (u_meta (setVersion us u3)) (u_meta u5)" by (auto simp: setVersion_def)
  have "updateUnitImageVersion K X ns us pt ms vs es n s = (Inr (), s5)"
    unfolding updateUnitImageVersion_def Let_def using not_done [OF 3(2)] by (simp add: 1 2 3 4 5)
  with 5 1 2 3 4 versionMatches_setVersion [OF 5(5)] show ?thesis by auto
qed

lemma check_live:
  assumes "ok s" and "view s (unitKey ns n) = Some (OUnit u)"
  shows "\<exists>s'. checkUnitNeedsUpgrade K ns us n s = (Inr (\<not> versionMatches us u), s') \<and> ok s' \<and> view s' = view s"
  using getUnit_live [OF assms]
  by (auto simp: checkUnitNeedsUpgrade_def versionMatches_def bindA_def mapErr_def split: option.split)

lemma upgradeStep_live:
  assumes ok: "ok s" and u: "alive (view s) (unitKey ns n) u"
  shows "\<exists>s' u'. (if \<not> versionMatches us u then bindA (asks (kCtxDone K)) (\<lambda>done.
           if done then fail (Wrap ''rolling update cancelled while upgrading unit'' (Msg ''context''))
           else mapErr (Wrap ''rolling update failed for unit'')
             (updateUnitImageVersion K X ns us pt ms vs es n)) else ret ()) s = (Inr (), s') \<and> ok s' \<and>
      view s' = (view s)(unitKey ns n \<mapsto> OUnit u') \<and> DeletionTimestamp (u_meta u') = None \<and> versionMatches us u'"
proof (cases "versionMatches us u")
  case True
  with ok u show ?thesis by (intro exI [of _ s] exI [of _ u]) (auto simp: alive_def fun_upd_idem)
next
  case False
  from updateUnitImageVersion_live [OF assms, of X us pt ms vs es] obtain s' u' where
    "updateUnitImageVersion K X ns us pt ms vs es n s = (Inr (), s')" "ok s'"
    "view s' = (view s)(unitKey ns n \<mapsto> OUnit u')" "alive (view s') (unitKey ns n) u'" "versionMatches us u'" by blast
  with False not_done [OF ok] show ?thesis
    by (intro exI [of _ s'] exI [of _ u']) (auto simp: alive_def bindA_def mapErr_def)
qed

lemma rollAt_live:
  assumes ok: "ok s" and u: "alive (view s) (unitKey ns (xs ! i)) u"
    and l: "view s (unitSetKey ns (us_Name us)) = Some (OUnitSet latest)"
  shows "\<exists>s' u' l'. rollAt K ns us xs (updateUnitImageVersion K X ns us pt ms vs es) i (xs ! i) s =
       (Inr (\<not> i + 1 < length xs), s') \<and> ok s' \<and>
     view s' = (view s)(unitKey ns (xs ! i) \<mapsto> OUnit u', unitSetKey ns (us_Name us) \<mapsto> OUnitSet l') \<and>
     DeletionTimestamp (u_meta u') = None \<and> versionMatches us u' \<and> us_Spec l' = us_Spec latest \<and>
     InUpdate (us_Status l') = (if i + 1 < length xs then xs ! (i + 1) else [])"
proof -
  let ?f = "updateUnitImageVersion K X ns us pt ms vs es" and ?next = "if i + 1 < length xs then xs ! (i + 1) else []"
  have v: "view s (unitKey ns (xs ! i)) = Some (OUnit u)" using u by (simp add: alive_def)
  from check_live [OF ok v] obtain s1 where
    1: "checkUnitNeedsUpgrade K ns us (xs ! i) s = (Inr (\<not> versionMatches us u), s1)" "ok s1" "view s1 = view s" by blast
  have "alive (view s1) (unitKey ns (xs ! i)) u" using u 1 by simp
  from upgradeStep_live [OF 1(2) this, of us X pt ms vs es] obtain s2 u2 where
    2: "(if \<not> versionMatches us u then bindA (asks (kCtxDone K)) (\<lambda>done.
           if done then fail (Wrap ''rolling update cancelled while upgrading unit'' (Msg ''context''))
           else mapErr (Wrap ''rolling update failed for unit'') (?f (xs ! i))) else ret ()) s1 = (Inr (), s2)" "ok s2"
      "view s2 = (view s)(unitKey ns (xs ! i) \<mapsto> OUnit u2)" "DeletionTimestamp (u_meta u2) = None" "versionMatches us u2"
    unfolding 1(3) by blast
  have "view s2 (unitSetKey ns (us_Name us)) = Some (OUnitSet latest)" using l 2(3) by simp
  from updateInUpdate_live [OF 2(2) this, of ?next] obtain s3 l3 where
    3: "updateInUpdateStatus K ns us ?next s2 = (Inr (), s3)" "ok s3"
      "view s3 = (view s2)(unitSetKey ns (us_Name us) \<mapsto> OUnitSet l3)" "us_Spec l3 = us_Spec latest"
      "InUpdate (us_Status l3) = ?next" by blast
  have "rollAt K ns us xs ?f i (xs ! i) s = (Inr (\<not> i + 1 < length xs), s3)"
    unfolding rollAt_def using 1 2(1) 3(1)
    by (cases "i + 1 < length xs") (simp_all add: bindA_def thenA_def mapErr_def)
  with 2 3 show ?thesis by (intro exI [of _ s3] exI [of _ u2] exI [of _ l3]) simp
qed

end

section \<open>The rolling update refines an abstract rollout\<close>

text \<open>
  The abstract state of a rollout: the unit the marker names and the units that do not have the
  version of the spec. A step brings the unit at the cursor up to date, the first one if the cursor
  is no unit of the set, and moves the cursor to the next; it tells whether that was the last.
\<close>

record roll =
  cursor :: string
  outdated :: "string set"

definition atCursor :: "string list \<Rightarrow> string \<Rightarrow> nat \<Rightarrow> bool" where
  "atCursor xs c i \<longleftrightarrow> c = xs ! i \<or> c \<notin> set xs \<and> i = 0"

definition rollNext :: "string list \<Rightarrow> nat \<Rightarrow> roll \<Rightarrow> roll" where
  "rollNext xs i a = \<lparr>cursor = (if Suc i < length xs then xs ! Suc i else []), outdated = outdated a - {xs ! i}\<rparr>"

inductive rollStep :: "string list \<Rightarrow> roll \<Rightarrow> bool \<Rightarrow> roll \<Rightarrow> bool" for xs where
  step: "i < length xs \<Longrightarrow> atCursor xs (cursor a) i \<Longrightarrow> rollStep xs a (\<not> Suc i < length xs) (rollNext xs i a)"

text \<open>A run ends with the step that reports completion.\<close>

inductive rollRun :: "string list \<Rightarrow> roll \<Rightarrow> nat \<Rightarrow> roll \<Rightarrow> bool" for xs where
  last: "rollStep xs a True a' \<Longrightarrow> rollRun xs a (Suc 0) a'"
| more: "rollStep xs a False b \<Longrightarrow> rollRun xs b n a' \<Longrightarrow> rollRun xs a (Suc n) a'"

inductive_cases rollStepE: "rollStep xs a b a'"

lemma atCursor_unique:
  assumes "atCursor xs c i" "atCursor xs c j" "i < length xs" "j < length xs" "distinct xs"
  shows "i = j"
  using assms by (auto simp: atCursor_def nth_eq_iff_index_eq)

lemma rollRun_result:
  assumes "rollRun xs a n a'" "distinct xs" "atCursor xs (cursor a) i" "i < length xs"
  shows "n = length xs - i \<and> cursor a' = [] \<and> outdated a' = outdated a - set (drop i xs)"
  using assms
proof (induction arbitrary: i rule: rollRun.induct)
  case (last a a')
  from last.hyps obtain j where j: "j < length xs" "atCursor xs (cursor a) j" "\<not> Suc j < length xs" "a' = rollNext xs j a"
    by (auto elim: rollStepE)
  with last.prems have "j = i" using atCursor_unique by blast
  moreover from this j have "drop i xs = [xs ! i]" using Cons_nth_drop_Suc [of i xs] by simp
  ultimately show ?case using j by (simp add: rollNext_def)
next
  case (more a b n a')
  from more.hyps(1) obtain j where j: "j < length xs" "atCursor xs (cursor a) j" "Suc j < length xs" "b = rollNext xs j a"
    by (auto elim: rollStepE)
  with more.prems have ij: "j = i" using atCursor_unique by blast
  have "atCursor xs (cursor b) (Suc i)" using j ij by (simp add: rollNext_def atCursor_def)
  from more.IH [OF more.prems(1) this] j ij
  have "n = length xs - Suc i" "cursor a' = []" "outdated a' = outdated a - {xs ! i} - set (drop (Suc i) xs)"
    by (simp_all add: rollNext_def)
  moreover have "set (drop i xs) = insert (xs ! i) (set (drop (Suc i) xs))"
    using Cons_nth_drop_Suc [OF more.prems(3)] by (metis list.simps(15))
  moreover have "Suc (length xs - Suc i) = length xs - i" using more.prems(3) by simp
  ultimately show ?case by (simp add: Diff_insert2 [symmetric])
qed

text \<open>What a cluster says of the rollout.\<close>

definition atVersionSpec :: "UnitSet \<Rightarrow> objview \<Rightarrow> okey \<Rightarrow> bool" where
  "atVersionSpec us v k \<longleftrightarrow> (case v k of Some (OUnit u) \<Rightarrow> versionMatches us u | _ \<Rightarrow> False)"

definition absRoll :: "string \<Rightarrow> UnitSet \<Rightarrow> objview \<Rightarrow> roll" where
  "absRoll ns us v =
     \<lparr>cursor = (case v (unitSetKey ns (us_Name us)) of Some (OUnitSet l) \<Rightarrow> InUpdate (us_Status l) | _ \<Rightarrow> []),
      outdated = {n \<in> set (unitNames us). \<not> atVersionSpec us v (unitKey ns n)}\<rparr>"

definition rollReady :: "string \<Rightarrow> UnitSet \<Rightarrow> objview \<Rightarrow> bool" where
  "rollReady ns us v \<longleftrightarrow>
     (\<exists>l. v (unitSetKey ns (us_Name us)) = Some (OUnitSet l) \<and> us_Spec l = us_Spec us) \<and>
     (\<forall>n \<in> set (unitNames us). \<exists>u. alive v (unitKey ns n) u)"

context kube_live
begin

text \<open>However the marker stands, a step reaches \<open>rollAt\<close> for the unit it names or the first one.\<close>

lemma performRollingUpdate_at:
  assumes ok: "ok s" and l: "view s (unitSetKey ns (us_Name l)) = Some (OUnitSet l)" and ne: "unitNames l \<noteq> []"
  shows "\<exists>i s' l'. i < length (sortUnitNamesByOrdinal (unitNames l)) \<and>
    atCursor (sortUnitNamesByOrdinal (unitNames l)) (InUpdate (us_Status l)) i \<and>
    performRollingUpdate K ns l (unitNames l) f s =
      rollAt K ns l (sortUnitNamesByOrdinal (unitNames l)) f i (sortUnitNamesByOrdinal (unitNames l) ! i) s' \<and>
    ok s' \<and> view s' = (view s)(unitSetKey ns (us_Name l) \<mapsto> OUnitSet l') \<and> us_Spec l' = us_Spec l"
proof -
  let ?xs = "sortUnitNamesByOrdinal (unitNames l)" and ?c = "InUpdate (us_Status l)"
  have xs: "?xs \<noteq> []" using ne by (metis length_0_conv length_sort)
  have nil: "[] \<notin> set ?xs" using unitNames_nonempty [of "[]" l] by auto
  show ?thesis
  proof (cases "indexOf ?c ?xs")
    case (Some i)
    with nil have "?c \<noteq> []" by (metis indexOf_Some nth_mem)
    with Some have "performRollingUpdate K ns l (unitNames l) f s = rollAt K ns l ?xs f i (?xs ! i) s"
      using performRollingUpdate_eqs(3) indexOf_Some [OF Some] by metis
    with indexOf_Some [OF Some] ok l show ?thesis
      by (intro exI [of _ i] exI [of _ s] exI [of _ l]) (auto simp: fun_upd_idem atCursor_def)
  next
    case None
    then have c: "?c \<notin> set (unitNames l)" by (simp add: indexOf_None)
    from updateInUpdate_live [OF ok l, of "hd ?xs"] obtain s2 l2 where
      2: "updateInUpdateStatus K ns l (hd ?xs) s = (Inr (), s2)" "ok s2"
        "view s2 = (view s)(unitSetKey ns (us_Name l) \<mapsto> OUnitSet l2)" "us_Spec l2 = us_Spec l" by blast
    have "performRollingUpdate K ns l (unitNames l) f s = rollAt K ns l ?xs f 0 (hd ?xs) s2"
      using performRollingUpdate_eqs(2) [of l "unitNames l" K ns f] performRollingUpdate_eqs(4) [of l "unitNames l" K ns f] ne c 2(1)
      by (cases "?c = []") (simp_all add: thenA_def bindA_def mapErr_def)
    with c xs ne 2 show ?thesis
      by (intro exI [of _ 0] exI [of _ s2] exI [of _ l2]) (auto simp: hd_conv_nth atCursor_def)
  qed
qed

lemma rollingStep_at:
  assumes us: "0 < Units (us_Spec us)" and ok: "ok s"
    and l: "view s (unitSetKey ns (us_Name us)) = Some (OUnitSet l)" "us_Spec l = us_Spec us"
    and units: "\<forall>n \<in> set (unitNames us). \<exists>u. alive (view s) (unitKey ns n) u"
  defines "xs \<equiv> sortUnitNamesByOrdinal (unitNames us)"
  shows "\<exists>i s' u' l'. i < length xs \<and> atCursor xs (InUpdate (us_Status l)) i \<and>
    rollingStep K X ns (us_Name us) pt ms vs es s = (Inr (\<not> Suc i < length xs), s') \<and> ok s' \<and>
    view s' = (view s)(unitKey ns (xs ! i) \<mapsto> OUnit u', unitSetKey ns (us_Name us) \<mapsto> OUnitSet l') \<and>
    DeletionTimestamp (u_meta u') = None \<and> versionMatches us u' \<and> us_Spec l' = us_Spec us \<and>
    InUpdate (us_Status l') = (if Suc i < length xs then xs ! Suc i else [])"
proof -
  have nl: "us_Name l = us_Name us" using view_names [OF l(1)] by (simp add: us_Name_def)
  have names: "unitNames l = unitNames us" using l(2) nl by (rule unitNames_cong)
  have vm: "versionMatches l = versionMatches us" by (rule ext) (simp add: versionMatches_def l(2))
  have "unitNames us \<noteq> []" using us by (simp add: unitNames_eq)
  then have ne: "unitNames l \<noteq> []" by (simp add: names)
  let ?f = "updateUnitImageVersion K X ns l pt ms vs es"
  from getUnitSet_live [OF ok l(1)] obtain s1 where
    1: "getUnitSet K ns (us_Name us) s = (Inr l, s1)" "ok s1" "view s1 = view s" by blast
  have "view s1 (unitSetKey ns (us_Name l)) = Some (OUnitSet l)" using l 1 nl by simp
  from performRollingUpdate_at [OF 1(2) this ne, of ?f] obtain i s2 l2 where
    2: "i < length xs" "atCursor xs (InUpdate (us_Status l)) i"
      "performRollingUpdate K ns l (unitNames l) ?f s1 = rollAt K ns l xs ?f i (xs ! i) s2" "ok s2"
      "view s2 = (view s)(unitSetKey ns (us_Name us) \<mapsto> OUnitSet l2)" "us_Spec l2 = us_Spec us"
    unfolding names nl 1(3) l(2) xs_def [symmetric] by blast
  from 2(1) have "xs ! i \<in> set (unitNames us)" unfolding xs_def by (metis nth_mem set_sort)
  with units obtain u where "alive (view s) (unitKey ns (xs ! i)) u" by blast
  then have "alive (view s2) (unitKey ns (xs ! i)) u" by (simp add: alive_def 2(5))
  from rollAt_live [OF 2(4) this, of l l2 X pt ms vs es] 2(5) nl obtain s3 u3 l3 where
    3: "rollAt K ns l xs ?f i (xs ! i) s2 = (Inr (\<not> i + 1 < length xs), s3)" "ok s3"
      "view s3 = (view s2)(unitKey ns (xs ! i) \<mapsto> OUnit u3, unitSetKey ns (us_Name us) \<mapsto> OUnitSet l3)"
      "DeletionTimestamp (u_meta u3) = None" "versionMatches us u3" "us_Spec l3 = us_Spec us"
      "InUpdate (us_Status l3) = (if i + 1 < length xs then xs ! (i + 1) else [])"
    by (auto simp: vm 2(6))
  have "rollingStep K X ns (us_Name us) pt ms vs es s = (Inr (\<not> Suc i < length xs), s3)"
    unfolding rollingStep_def using 1(1) 2(3) 3(1) by simp
  moreover have "view s3 = (view s)(unitKey ns (xs ! i) \<mapsto> OUnit u3, unitSetKey ns (us_Name us) \<mapsto> OUnitSet l3)"
    unfolding 3(3) 2(5) by (simp add: fun_upd_twist)
  ultimately show ?thesis using 2 3 by (intro exI [of _ i] exI [of _ s3] exI [of _ u3] exI [of _ l3]) auto
qed

lemma rollingStep_sim:
  assumes us: "0 < Units (us_Spec us)" and ok: "ok s" and ready: "rollReady ns us (view s)"
  shows "\<exists>b s'. rollingStep K X ns (us_Name us) pt ms vs es s = (Inr b, s') \<and> ok s' \<and> rollReady ns us (view s') \<and>
    rollStep (sortUnitNamesByOrdinal (unitNames us)) (absRoll ns us (view s)) b (absRoll ns us (view s'))"
proof -
  let ?xs = "sortUnitNamesByOrdinal (unitNames us)"
  from ready obtain l where l: "view s (unitSetKey ns (us_Name us)) = Some (OUnitSet l)" "us_Spec l = us_Spec us"
    and units: "\<forall>n \<in> set (unitNames us). \<exists>u. alive (view s) (unitKey ns n) u" unfolding rollReady_def by blast
  from rollingStep_at [OF us ok l units, of X pt ms vs es] obtain i s' u' l' where
    i: "i < length ?xs" "atCursor ?xs (InUpdate (us_Status l)) i" and
    r: "rollingStep K X ns (us_Name us) pt ms vs es s = (Inr (\<not> Suc i < length ?xs), s')" "ok s'"
      "view s' = (view s)(unitKey ns (?xs ! i) \<mapsto> OUnit u', unitSetKey ns (us_Name us) \<mapsto> OUnitSet l')" and
    u': "DeletionTimestamp (u_meta u') = None" "versionMatches us u'" and l': "us_Spec l' = us_Spec us"
      "InUpdate (us_Status l') = (if Suc i < length ?xs then ?xs ! Suc i else [])" by blast
  have "rollReady ns us (view s')" unfolding rollReady_def using units u'(1) l'(1) by (auto simp: r(3) alive_def [abs_def])
  moreover have "absRoll ns us (view s') = rollNext ?xs i (absRoll ns us (view s))"
    using u'(2) l'(2) by (auto simp: absRoll_def rollNext_def r(3) atVersionSpec_def)
  moreover have "atCursor ?xs (cursor (absRoll ns us (view s))) i" using i(2) l(1) by (simp add: absRoll_def)
  ultimately show ?thesis using r(1,2) rollStep.step [OF i(1), of "absRoll ns us (view s)"] by auto
qed

lemma rollingSteps_sim:
  assumes us: "0 < Units (us_Spec us)" and "ok s" "rollReady ns us (view s)"
    and i: "i < length (sortUnitNamesByOrdinal (unitNames us))"
      "atCursor (sortUnitNamesByOrdinal (unitNames us)) (cursor (absRoll ns us (view s))) i"
    and d: "distinct (sortUnitNamesByOrdinal (unitNames us))"
    and n: "n = length (sortUnitNamesByOrdinal (unitNames us)) - i"
  shows "\<exists>s'. rollingSteps K X ns (us_Name us) pt ms vs es n s = (Inr True, s') \<and> ok s' \<and> rollReady ns us (view s') \<and>
    rollRun (sortUnitNamesByOrdinal (unitNames us)) (absRoll ns us (view s)) n (absRoll ns us (view s'))"
  using assms(2,3) i n
proof (induction n arbitrary: i s)
  case (Suc n)
  let ?xs = "sortUnitNamesByOrdinal (unitNames us)"
  from rollingStep_sim [OF us Suc.prems(1,2), of X pt ms vs es] obtain b s1 where
    1: "rollingStep K X ns (us_Name us) pt ms vs es s = (Inr b, s1)" "ok s1" "rollReady ns us (view s1)"
      "rollStep ?xs (absRoll ns us (view s)) b (absRoll ns us (view s1))" by blast
  from 1(4) obtain j where j: "j < length ?xs" "atCursor ?xs (cursor (absRoll ns us (view s))) j" "b = (\<not> Suc j < length ?xs)"
    "absRoll ns us (view s1) = rollNext ?xs j (absRoll ns us (view s))" by (rule rollStepE) blast
  have "j = i" using atCursor_unique [OF j(2) Suc.prems(4) j(1) Suc.prems(3) d] .
  with j have b: "b = (\<not> Suc i < length ?xs)" "absRoll ns us (view s1) = rollNext ?xs i (absRoll ns us (view s))" by simp_all
  show ?case
  proof (cases b)
    case True
    with b(1) Suc.prems(5) have "n = 0" by simp
    with True 1 show ?thesis by (auto intro: rollRun.last simp: bindA_def)
  next
    case False
    then have "atCursor ?xs (cursor (absRoll ns us (view s1))) (Suc i)" using b by (simp add: rollNext_def atCursor_def)
    moreover have "Suc i < length ?xs" "n = length ?xs - Suc i" using False b(1) Suc.prems(5) by simp_all
    ultimately obtain s' where
      "rollingSteps K X ns (us_Name us) pt ms vs es n s1 = (Inr True, s')" "ok s'" "rollReady ns us (view s')"
      "rollRun ?xs (absRoll ns us (view s1)) n (absRoll ns us (view s'))" using Suc.IH [OF 1(2,3)] by blast
    with False 1 show ?thesis by (auto intro: rollRun.more simp: bindA_def)
  qed
qed simp

end

text \<open>
  C16 (\<open>performRollingUpdate\<close>, \<open>updateUnitImageVersion\<close>, \<open>updateInUpdateStatus\<close>): a
  rolling update ends. With an API server that answers and every unit of the set present, as many
  steps as the set has units report completion, leave every unit at the version of the spec and
  clear the progress marker.
\<close>

theorem rolling_update_completes:
  assumes live: "kube_live K view wire ok" and "ok s"
    and us: "is_int64 (Units (us_Spec us))" "0 < Units (us_Spec us)" "InUpdate (us_Status us) = []"
    and set: "view s (unitSetKey ns (us_Name us)) = Some (OUnitSet us)"
    and units: "\<And>n. n \<in> set (unitNames us) \<Longrightarrow> \<exists>u. alive (view s) (unitKey ns n) u"
  shows "\<exists>s' l. rollingSteps K X ns (us_Name us) pt ms vs es (nat (Units (us_Spec us))) s = (Inr True, s') \<and>
    view s' (unitSetKey ns (us_Name us)) = Some (OUnitSet l) \<and> InUpdate (us_Status l) = [] \<and> us_Spec l = us_Spec us \<and>
    (\<forall>n \<in> set (unitNames us). \<exists>u. view s' (unitKey ns n) = Some (OUnit u) \<and> versionMatches us u)"
proof -
  let ?xs = "sortUnitNamesByOrdinal (unitNames us)"
  have ready: "rollReady ns us (view s)" using set units by (auto simp: rollReady_def)
  have pos: "0 < length ?xs" and len: "nat (Units (us_Spec us)) = length ?xs - 0" using us(2) by (simp_all add: unitNames_eq)
  have d: "distinct ?xs" using us(1) by (simp add: distinct_unitNames)
  have c: "atCursor ?xs (cursor (absRoll ns us (view s))) 0"
    using set us(3) unitNames_nonempty [of "[]" us] by (auto simp: absRoll_def atCursor_def)
  from kube_live.rollingSteps_sim [OF live us(2) assms(2) ready pos c d len] obtain s' where
    s': "rollingSteps K X ns (us_Name us) pt ms vs es (nat (Units (us_Spec us))) s = (Inr True, s')" "rollReady ns us (view s')"
      "rollRun ?xs (absRoll ns us (view s)) (nat (Units (us_Spec us))) (absRoll ns us (view s'))" by blast
  from rollRun_result [OF s'(3) d c pos] have
    e: "cursor (absRoll ns us (view s')) = []" "outdated (absRoll ns us (view s')) = {}" by (auto simp: absRoll_def)
  from s'(2) obtain l where "view s' (unitSetKey ns (us_Name us)) = Some (OUnitSet l)" "us_Spec l = us_Spec us"
    and a: "\<forall>n \<in> set (unitNames us). \<exists>u. alive (view s') (unitKey ns n) u" unfolding rollReady_def by blast
  moreover from this e(1) have "InUpdate (us_Status l) = []" by (simp add: absRoll_def)
  moreover have "\<exists>u. view s' (unitKey ns n) = Some (OUnit u) \<and> versionMatches us u" if n: "n \<in> set (unitNames us)" for n
  proof -
    from a n obtain u where "view s' (unitKey ns n) = Some (OUnit u)" by (auto simp: alive_def)
    with e(2) n show ?thesis by (auto simp: absRoll_def atVersionSpec_def)
  qed
  ultimately show ?thesis using s'(1) by blast
qed

text \<open>
  C7 (\<open>performRollingUpdate\<close>): a reconciliation of the rolling update refines a step of the
  abstract rollout, whatever the marker holds: the unit it names, or the first unit in update order
  if it names none, gets the version of the spec, the marker moves to the next unit or is cleared,
  and completion is reported exactly after the last unit.
\<close>

theorem rolling_step_refines:
  assumes "kube_live K view wire ok" and "ok s" and "0 < Units (us_Spec us)" and "rollReady ns us (view s)"
  shows "\<exists>b s'. rollingStep K X ns (us_Name us) pt ms vs es s = (Inr b, s') \<and> ok s' \<and> rollReady ns us (view s') \<and>
    rollStep (sortUnitNamesByOrdinal (unitNames us)) (absRoll ns us (view s)) b (absRoll ns us (view s'))"
  by (rule kube_live.rollingStep_sim [OF assms(1,3,2,4)])

text \<open>
  C32 (\<open>performRollingUpdate\<close>): a rolling update that finds the marker at a unit, as after the
  version of the spec changed during an update, goes on from there. When it reports completion the
  marker is cleared, and the units before that one in update order still lack the version of the spec
  if they lacked it before.
\<close>

theorem resumed_update_skips:
  assumes live: "kube_live K view wire ok" and ok: "ok s" and us: "is_int64 (Units (us_Spec us))" "0 < Units (us_Spec us)"
    and ready: "rollReady ns us (view s)" and i: "i < length (sortUnitNamesByOrdinal (unitNames us))"
    and c: "cursor (absRoll ns us (view s)) = sortUnitNamesByOrdinal (unitNames us) ! i"
  shows "\<exists>s'. rollingSteps K X ns (us_Name us) pt ms vs es (length (unitNames us) - i) s = (Inr True, s') \<and>
    cursor (absRoll ns us (view s')) = [] \<and>
    outdated (absRoll ns us (view s')) =
      outdated (absRoll ns us (view s)) \<inter> set (take i (sortUnitNamesByOrdinal (unitNames us)))"
proof -
  let ?xs = "sortUnitNamesByOrdinal (unitNames us)"
  have d: "distinct ?xs" using us(1) by (simp add: distinct_unitNames)
  have len: "length (unitNames us) - i = length ?xs - i" by simp
  have at: "atCursor ?xs (cursor (absRoll ns us (view s))) i" using c by (simp add: atCursor_def)
  from kube_live.rollingSteps_sim [OF live us(2) ok ready i at d len] obtain s' where
    s': "rollingSteps K X ns (us_Name us) pt ms vs es (length (unitNames us) - i) s = (Inr True, s')"
      "rollRun ?xs (absRoll ns us (view s)) (length (unitNames us) - i) (absRoll ns us (view s'))" by blast
  have "outdated (absRoll ns us (view s)) \<subseteq> set ?xs" by (auto simp: absRoll_def)
  also have "set ?xs = set (take i ?xs) \<union> set (drop i ?xs)" unfolding set_append [symmetric] append_take_drop_id ..
  finally have "outdated (absRoll ns us (view s)) \<subseteq> set (take i ?xs) \<union> set (drop i ?xs)" .
  moreover have "set (take i ?xs) \<inter> set (drop i ?xs) = {}" using d by (rule set_take_disj_set_drop_if_distinct) simp
  ultimately have "outdated (absRoll ns us (view s)) - set (drop i ?xs) = outdated (absRoll ns us (view s)) \<inter> set (take i ?xs)"
    by auto
  with rollRun_result [OF s'(2) d at i] s'(1) show ?thesis by auto
qed

text \<open>Witnesses: a set of two units of which none has a version yet.\<close>

definition sampleRoll :: UnitSet where
  "sampleRoll = (sampleUnitSet ''db'' 2)\<lparr>us_Spec := (us_Spec (sampleUnitSet ''db'' 2))\<lparr>UpdateStrategy :=
     \<lparr>us_Type = ''rollingUpdate'', Partition = 0, MaxUnavailable = 0\<rparr>\<rparr>\<rparr>"

definition sampleRollCluster :: mem where
  "sampleRollCluster = \<lparr>m_store = [OUnitSet sampleRoll, OUnit (sampleUnit sampleRoll 0), OUnit (sampleUnit sampleRoll 1)],
     m_rv = 1, m_faults = []\<rparr>"

lemma sampleRollCluster_unit:
  "memView sampleRollCluster (unitKey ''ns'' ''db-0'') = Some (OUnit (sampleUnit sampleRoll 0))"
proof -
  have "Name (u_meta (sampleUnit sampleRoll 0)) = ''db-0''" "Namespace (u_meta (sampleUnit sampleRoll 0)) = ''ns''" by code_simp+
  then show ?thesis by (simp add: memView_def sampleRollCluster_def)
qed

theorem rolling_update_one_unit_witness:
  "memView (snd (reconcileImageVersion memKube plainExt sampleVars ''ns'' sampleRoll sampleTemplate sampleRollCluster))
     (unitKey ''ns'' ''db-0'') = Some (OUnit (sampleUnit sampleRoll 0))"
proof -
  have "isRolling sampleRoll" "currentUnit sampleRoll (unitNames sampleRoll) = ''db-1''" by code_simp+
  then have "memView (snd (reconcileImageVersion memKube plainExt sampleVars ''ns'' sampleRoll sampleTemplate sampleRollCluster))
     (unitKey ''ns'' ''db-0'') = memView sampleRollCluster (unitKey ''ns'' ''db-0'')"
    by (intro rolling_update_one_unit [OF mem.kube_api_axioms]) auto
  also have "\<dots> = Some (OUnit (sampleUnit sampleRoll 0))" by (rule sampleRollCluster_unit)
  finally show ?thesis .
qed

lemma sampleRoll_facts:
  "us_Name sampleRoll = ''db''" "Units (us_Spec sampleRoll) = 2" "InUpdate (us_Status sampleRoll) = []"
  "unitNames sampleRoll = [''db-0'', ''db-1'']" "is_int64 (Units (us_Spec sampleRoll))"
  "Namespace (us_meta sampleRoll) = ''ns''" "Name (us_meta sampleRoll) = ''db''"
  "Name (u_meta (sampleUnit sampleRoll 0)) = ''db-0''" "Namespace (u_meta (sampleUnit sampleRoll 0)) = ''ns''"
  "Name (u_meta (sampleUnit sampleRoll 1)) = ''db-1''" "Namespace (u_meta (sampleUnit sampleRoll 1)) = ''ns''"
  "DeletionTimestamp (u_meta (sampleUnit sampleRoll 0)) = None" "DeletionTimestamp (u_meta (sampleUnit sampleRoll 1)) = None"
  by code_simp+

theorem rolling_update_completes_witness:
  "\<exists>s' l. rollingSteps memKube plainExt ''ns'' ''db'' sampleTemplate [] [] [] 2 sampleRollCluster = (Inr True, s') \<and>
    memView s' (unitSetKey ''ns'' ''db'') = Some (OUnitSet l) \<and> InUpdate (us_Status l) = [] \<and>
    (\<exists>u. memView s' (unitKey ''ns'' ''db-0'') = Some (OUnit u) \<and> versionMatches sampleRoll u) \<and>
    (\<exists>u. memView s' (unitKey ''ns'' ''db-1'') = Some (OUnit u) \<and> versionMatches sampleRoll u)"
proof -
  have "memOk sampleRollCluster" by (simp add: memOk_def sampleRollCluster_def)
  from rolling_update_completes [OF mem.kube_live_axioms this sampleRoll_facts(5), of "''ns''" plainExt sampleTemplate "[]" "[]" "[]"]
  show ?thesis by (force simp: sampleRoll_facts memView_def sampleRollCluster_def alive_def)
qed

text \<open>The same set with the marker at its last unit, as left by an update to another version.\<close>

definition resumedRoll :: UnitSet where
  "resumedRoll = setInUpdate ''db-0'' sampleRoll"

definition resumedCluster :: mem where
  "resumedCluster = sampleRollCluster\<lparr>m_store := [OUnitSet resumedRoll, OUnit (sampleUnit sampleRoll 0), OUnit (sampleUnit sampleRoll 1)]\<rparr>"

lemma resumedRoll_facts:
  "us_Name resumedRoll = ''db''" "us_Spec resumedRoll = us_Spec sampleRoll" "unitNames resumedRoll = [''db-0'', ''db-1'']"
  "sortUnitNamesByOrdinal [''db-0'', ''db-1''] = [''db-1'', ''db-0'']"
  "versionMatches resumedRoll (sampleUnit sampleRoll 0) = False" "versionMatches resumedRoll (sampleUnit sampleRoll 1) = False"
  by code_simp+

lemma resumedView:
  "memView resumedCluster (unitSetKey ''ns'' ''db'') = Some (OUnitSet resumedRoll)"
  "memView resumedCluster (unitKey ''ns'' ''db-0'') = Some (OUnit (sampleUnit sampleRoll 0))"
  "memView resumedCluster (unitKey ''ns'' ''db-1'') = Some (OUnit (sampleUnit sampleRoll 1))"
  by (simp_all add: memView_def resumedCluster_def resumedRoll_def sampleRoll_facts)

lemma resumedOk: "memOk resumedCluster"
  by (simp add: memOk_def resumedCluster_def sampleRollCluster_def)

lemma resumedReady: "rollReady ''ns'' resumedRoll (memView resumedCluster)"
  by (simp add: rollReady_def alive_def resumedRoll_facts resumedView sampleRoll_facts)

lemma resumedAbs: "absRoll ''ns'' resumedRoll (memView resumedCluster) = \<lparr>cursor = ''db-0'', outdated = {''db-0'', ''db-1''}\<rparr>"
  by (auto simp: absRoll_def atVersionSpec_def resumedRoll_facts resumedView) (simp add: resumedRoll_def)

theorem rolling_step_refines_witness:
  "\<exists>b s'. rollingStep memKube plainExt ''ns'' ''db'' sampleTemplate [] [] [] resumedCluster = (Inr b, s') \<and>
    rollStep [''db-1'', ''db-0''] \<lparr>cursor = ''db-0'', outdated = {''db-0'', ''db-1''}\<rparr> b (absRoll ''ns'' resumedRoll (memView s'))"
proof -
  have "0 < Units (us_Spec resumedRoll)" by (simp add: resumedRoll_facts sampleRoll_facts)
  from rolling_step_refines [OF mem.kube_live_axioms resumedOk this resumedReady, of plainExt sampleTemplate "[]" "[]" "[]"]
  show ?thesis by (auto simp: resumedRoll_facts resumedAbs)
qed

theorem resumed_update_skips_witness:
  "\<exists>s'. rollingSteps memKube plainExt ''ns'' ''db'' sampleTemplate [] [] [] 1 resumedCluster = (Inr True, s') \<and>
    absRoll ''ns'' resumedRoll (memView s') = \<lparr>cursor = [], outdated = {''db-1''}\<rparr>"
proof -
  have "is_int64 (Units (us_Spec resumedRoll))" "0 < Units (us_Spec resumedRoll)"
    "1 < length (sortUnitNamesByOrdinal (unitNames resumedRoll))"
    "cursor (absRoll ''ns'' resumedRoll (memView resumedCluster)) = sortUnitNamesByOrdinal (unitNames resumedRoll) ! 1"
    using sampleRoll_facts(5) by (simp_all add: resumedRoll_facts sampleRoll_facts(2) resumedAbs)
  from resumed_update_skips [OF mem.kube_live_axioms resumedOk this(1,2) resumedReady this(3,4), of plainExt sampleTemplate "[]" "[]" "[]"]
  obtain s' where "rollingSteps memKube plainExt ''ns'' ''db'' sampleTemplate [] [] [] 1 resumedCluster = (Inr True, s')"
    "cursor (absRoll ''ns'' resumedRoll (memView s')) = []" "outdated (absRoll ''ns'' resumedRoll (memView s')) = {''db-1''}"
    unfolding resumedAbs resumedRoll_facts by (auto simp del: rollingSteps.simps)
  then show ?thesis by (intro exI [of _ s'] conjI roll.equality) simp_all
qed

end
