(* ===== verification/SpecSync.thy ===== *)
theory SpecSync
  imports RollingUpdate
begin

text \<open>
  Keeping existing units in line with the UnitSet (\<open>unitset_unit_update.go\<close>): resources,
  resize policy, storage requests, labels and annotations. Resources and resize policy share the
  phases of a rolling change (mark a unit, wait until it is ready, change it, wait, advance).
\<close>

section \<open>Resources and resize policy of one unit\<close>

definition resourcesDiffer :: "ext \<Rightarrow> resourceRequirements \<Rightarrow> resourceRequirements \<Rightarrow> bool" where
  "resourcesDiffer X cur desired \<longleftrightarrow>
     qcmp X (Cpu X (Limits cur)) (Cpu X (Limits desired)) \<noteq> 0 \<or>
     qcmp X (Memory X (Limits cur)) (Memory X (Limits desired)) \<noteq> 0 \<or>
     qcmp X (Cpu X (Requests cur)) (Cpu X (Requests desired)) \<noteq> 0 \<or>
     qcmp X (Memory X (Requests cur)) (Memory X (Requests desired)) \<noteq> 0"

definition needsResourceUpdate :: "ext \<Rightarrow> UnitSet \<Rightarrow> Unit \<Rightarrow> bool" where
  "needsResourceUpdate X unitset unit =
     list_ex (\<lambda>c. c_Name c = Type (us_Spec unitset) \<and> resourcesDiffer X (c_Resources c) (Resources (us_Spec unitset)))
       (Containers (podSpecOf unit))"

definition mergeResources :: "UnitSet \<Rightarrow> Unit \<Rightarrow> Unit" where
  "mergeResources unitset kUnit =
     overPodSpec (\<lambda>ps. ps\<lparr>Containers := map (\<lambda>c.
       if c_Name c = Type (us_Spec unitset) then c\<lparr>c_Resources := Resources (us_Spec unitset)\<rparr> else c) (Containers ps)\<rparr>) kUnit"

definition needsResizePolicyUpdate :: "ext \<Rightarrow> UnitSet \<Rightarrow> Unit \<Rightarrow> bool" where
  "needsResizePolicyUpdate X unitset unit =
     (case List.find (\<lambda>c. c_Name c = Type (us_Spec unitset)) (Containers (podSpecOf unit)) of
        None \<Rightarrow> False
      | Some c \<Rightarrow> \<not> semEqResize X (c_ResizePolicy c) (ResizePolicy (us_Spec unitset)))"

fun updateFirst :: "('a \<Rightarrow> bool) \<Rightarrow> ('a \<Rightarrow> 'a) \<Rightarrow> 'a list \<Rightarrow> 'a list" where
  "updateFirst P f [] = []"
| "updateFirst P f (x # xs) = (if P x then f x # xs else x # updateFirst P f xs)"

definition mergeResizePolicy :: "UnitSet \<Rightarrow> Unit \<Rightarrow> Unit" where
  "mergeResizePolicy unitset kUnit =
     overPodSpec (\<lambda>ps. ps\<lparr>Containers := updateFirst (\<lambda>c. c_Name c = Type (us_Spec unitset))
       (\<lambda>c. c\<lparr>c_ResizePolicy := ResizePolicy (us_Spec unitset)\<rparr>) (Containers ps)\<rparr>) kUnit"

definition updateResourceInUpdateStatus :: "'s kube \<Rightarrow> string \<Rightarrow> UnitSet \<Rightarrow> string \<Rightarrow> ('s, unit) act" where
  "updateResourceInUpdateStatus K reqNamespace unitset unitName =
     retryOnConflict DefaultBackoff
       (bindA (mapErr (Wrap ''failed to get latest unitset'') (getUnitSet K reqNamespace (us_Name unitset))) (\<lambda>latest.
          thenA (mapErr (Wrap ''failed to update ResourceInUpdate status'')
                  (statusUpdate K (OUnitSet (setInUpdate unitName latest)))) (ret ())))"

definition updateUnitResources :: "'s kube \<Rightarrow> ext \<Rightarrow> string \<Rightarrow> UnitSet \<Rightarrow> string \<Rightarrow> ('s, unit) act" where
  "updateUnitResources K X reqNamespace unitset unitName =
     mapErr (Wrap ''[reconcileResources] update unit err'')
       (retryOnConflict DefaultBackoff
         (bindA (getUnit K reqNamespace unitName) (\<lambda>current.
            if \<not> needsResourceUpdate X unitset current then ret ()
            else thenA (updateObj K (OUnit (mergeResources unitset current))) (ret ()))))"

definition updateUnitResizePolicy :: "'s kube \<Rightarrow> string \<Rightarrow> UnitSet \<Rightarrow> string \<Rightarrow> ('s, unit) act" where
  "updateUnitResizePolicy K reqNamespace unitset unitName =
     mapErr (Wrap ''[reconcileResizePolicy] update unit error'')
       (retryOnConflict DefaultBackoff
         (bindA (getUnit K reqNamespace unitName) (\<lambda>current.
            thenA (updateObj K (OUnit (mergeResizePolicy unitset current))) (ret ()))))"

section \<open>The phases of a rolling change\<close>

text \<open>\<open>unitMap\<close>: from names to units, the last one of a name.\<close>

definition unitMap :: "Unit list \<Rightarrow> string \<Rightarrow> Unit option" where
  "unitMap kUnits n = map_of (rev (map (\<lambda>u. (u_Name u, u)) kUnits)) n"

definition needing :: "(Unit \<Rightarrow> bool) \<Rightarrow> (string \<Rightarrow> Unit option) \<Rightarrow> string \<Rightarrow> bool" where
  "needing needs m n = (case m n of None \<Rightarrow> False | Some u \<Rightarrow> needs u)"

text \<open>The loop with the flag \<open>foundCurrent\<close>; the empty name is the result when no unit is left.\<close>

fun findNext :: "(Unit \<Rightarrow> bool) \<Rightarrow> (string \<Rightarrow> Unit option) \<Rightarrow> string \<Rightarrow> bool \<Rightarrow> string list \<Rightarrow> string" where
  "findNext needs m current foundCurrent [] = []"
| "findNext needs m current foundCurrent (name # names) =
     (if name = current then findNext needs m current True names
      else if foundCurrent \<and> needing needs m name then name
      else findNext needs m current foundCurrent names)"

definition findNextUnitNeedsResizePolicy ::
  "ext \<Rightarrow> string list \<Rightarrow> string \<Rightarrow> (string \<Rightarrow> Unit option) \<Rightarrow> UnitSet \<Rightarrow> string" where
  "findNextUnitNeedsResizePolicy X names current m unitset =
     findNext (needsResizePolicyUpdate X unitset) m current False names"

text \<open>
  Phases 1 to 6, for a test whether a unit needs the change, the change of one unit, and what is
  done while a unit that needs the change is not ready (\<open>reconcileResources\<close> waits silently,
  \<open>reconcileResizePolicy\<close> returns an error).
\<close>

definition rollingPhases ::
  "'s kube \<Rightarrow> string \<Rightarrow> UnitSet \<Rightarrow> (string \<Rightarrow> Unit option) \<Rightarrow> string list \<Rightarrow> (Unit \<Rightarrow> bool)
    \<Rightarrow> (string \<Rightarrow> ('s, unit) act) \<Rightarrow> ('s, unit) act \<Rightarrow> ('s, unit) act" where
  "rollingPhases K reqNamespace unitset m names needs updateUnit notReady =
     (let current = InUpdate (us_Status unitset) in
      if current = [] then
        (case List.find (needing needs m) names of
           None \<Rightarrow> ret ()
         | Some unitName \<Rightarrow> mapErr (Wrap ''failed to start update for unit'')
             (updateInUpdateStatus K reqNamespace unitset unitName))
      else
        (case m current of
           None \<Rightarrow> mapErr (Wrap ''failed to clear invalid update status'') (updateInUpdateStatus K reqNamespace unitset [])
         | Some unit \<Rightarrow>
             if \<not> needs unit then
               (if Phase (u_Status unit) = UnitReady then
                  (let next = findNext needs m current False names in
                   thenA (mapErr (Wrap ''failed to advance update status'')
                            (updateInUpdateStatus K reqNamespace unitset next))
                     (whenA (next = []) (mapErr (Wrap ''update unitset status error'')
                            (reconcileUnitsetObservedGeneration K reqNamespace unitset))))
                else ret ())
             else if Phase (u_Status unit) \<noteq> UnitReady then notReady
             else updateUnit current))"

definition parallelChange ::
  "'s kube \<Rightarrow> string \<Rightarrow> UnitSet \<Rightarrow> (string \<Rightarrow> Unit option) \<Rightarrow> string list \<Rightarrow> (Unit \<Rightarrow> bool)
    \<Rightarrow> (string \<Rightarrow> ('s, unit) act) \<Rightarrow> (string \<Rightarrow> error \<Rightarrow> error) \<Rightarrow> ('s, unit) act" where
  "parallelChange K reqNamespace unitset m names needs updateUnit wrapErr =
     (let todo = filter (needing needs m) names in
      thenA (mapErr (wrapErr ''errors'') (goAll K todo updateUnit))
        (whenA (todo \<noteq> []) (mapErr (wrapErr ''update unitset status error'')
           (reconcileUnitsetObservedGeneration K reqNamespace unitset))))"

definition reconcileResources :: "'s kube \<Rightarrow> ext \<Rightarrow> string \<Rightarrow> UnitSet \<Rightarrow> ('s, unit) act" where
  "reconcileResources K X reqNamespace unitset =
     bindA (mapErr (Fmt ''[reconcileResources] error getting units'') (unitsBelongUnitset K unitset)) (\<lambda>kUnits.
       if kUnits = [] then ret ()
       else let m = unitMap kUnits;
                names = sortUnitNamesByOrdinal (unitNames unitset);
                needs = needsResourceUpdate X unitset;
                updateUnit = updateUnitResources K X reqNamespace unitset
            in if isRolling unitset
               then rollingPhases K reqNamespace unitset m names needs updateUnit (ret ())
               else parallelChange K reqNamespace unitset m names needs updateUnit Fmt)"

definition reconcileResizePolicy :: "'s kube \<Rightarrow> ext \<Rightarrow> string \<Rightarrow> UnitSet \<Rightarrow> ('s, unit) act" where
  "reconcileResizePolicy K X reqNamespace unitset =
     bindA (mapErr (Wrap ''[reconcileResizePolicy] error getting units'') (unitsBelongUnitset K unitset)) (\<lambda>kUnits.
       if kUnits = [] then ret ()
       else let m = unitMap kUnits;
                names = sortUnitNamesByOrdinal (unitNames unitset);
                needs = needsResizePolicyUpdate X unitset;
                updateUnit = updateUnitResizePolicy K reqNamespace unitset
            in if \<not> list_ex (needing needs m) names then ret ()
               else if isRolling unitset
               then rollingPhases K reqNamespace unitset m names needs updateUnit
                      (fail (Msg ''[reconcileResizePolicy] waiting for unit to become Ready before updating''))
               else parallelChange K reqNamespace unitset m names needs updateUnit Wrap)"

section \<open>Storage\<close>

definition setStorage :: "ext \<Rightarrow> storageSpec \<Rightarrow> vctemplate \<Rightarrow> error + vctemplate" where
  "setStorage X st vct =
     (if vct_Name vct = st_Name st
      then bindE (parseSize X (Size st)) (\<lambda>q.
             case pvc_Requests (vct_Spec vct) of
               None \<Rightarrow> Inl (Panic ''assignment to entry in nil map'')
             | Some _ \<Rightarrow> Inr (vct\<lparr>vct_Spec := (vct_Spec vct)\<lparr>pvc_Requests :=
                               mput ''storage'' q (pvc_Requests (vct_Spec vct))\<rparr>\<rparr>))
      else Inr vct)"

definition mergeStorage :: "ext \<Rightarrow> UnitSet \<Rightarrow> Unit \<Rightarrow> error + Unit" where
  "mergeStorage X unitset kUnit =
     bindE (mapE (foldE (setStorage X) (Storage (us_Spec unitset))) (VolumeClaimTemplates (u_Spec kUnit))) (\<lambda>vcts.
       Inr (kUnit\<lparr>u_Spec := (u_Spec kUnit)\<lparr>VolumeClaimTemplates := vcts\<rparr>\<rparr>))"

definition storageMatches :: "UnitSet \<Rightarrow> Unit list \<Rightarrow> (vctemplate \<times> storageSpec) list" where
  "storageMatches unitset kUnits =
     concat (map (\<lambda>unit. concat (map (\<lambda>st. map (\<lambda>vct. (vct, st))
       (filter (\<lambda>vct. vct_Name vct = st_Name st) (VolumeClaimTemplates (u_Spec unit)))) (Storage (us_Spec unitset)))) kUnits)"

definition storageTooSmall :: "ext \<Rightarrow> UnitSet \<Rightarrow> Unit list \<Rightarrow> error + bool" where
  "storageTooSmall X unitset kUnits =
     bindE (mapE (\<lambda>(vct, st). bindE (parseSize X (Size st)) (\<lambda>q.
              Inr (qcmp X (StorageQ X (pvc_Requests (vct_Spec vct))) q < 0))) (storageMatches unitset kUnits)) (\<lambda>bs.
       Inr (list_ex (\<lambda>b. b) bs))"

definition reconcileStorage :: "'s kube \<Rightarrow> ext \<Rightarrow> string \<Rightarrow> UnitSet \<Rightarrow> ('s, unit) act" where
  "reconcileStorage K X reqNamespace unitset =
     bindA (mapErr (Fmt ''[reconcileStorage] error getting units'') (unitsBelongUnitset K unitset)) (\<lambda>kUnits.
       if kUnits = [] then ret ()
       else bindA (liftE (storageTooSmall X unitset kUnits)) (\<lambda>needUpdate.
         whenA needUpdate
           (thenA (mapErr (Fmt ''[reconcileStorage] error'') (goAll K kUnits (\<lambda>unit.
                mapErr (Fmt ''[reconcileStorage] update unit err'')
                  (retryOnConflict DefaultRetry
                    (bindA (liftE (mergeStorage X unitset unit)) (\<lambda>newUnit.
                       thenA (updateObj K (OUnit newUnit)) (ret ())))))))
             (mapErr (Fmt ''[reconcileStorage] error'') (reconcileUnitsetObservedGeneration K reqNamespace unitset)))))"

section \<open>Labels and annotations\<close>

definition withMetaMaps :: "string gomap \<Rightarrow> string gomap \<Rightarrow> Unit \<Rightarrow> Unit" where
  "withMetaMaps ls as u = u\<lparr>u_meta := (u_meta u)\<lparr>Labels := ls, Annotations := as\<rparr>\<rparr>"

text \<open>Some entry of the source differs from, or is missing in, the target.\<close>

definition entriesDiffer :: "string gomap \<Rightarrow> string gomap \<Rightarrow> bool" where
  "entriesDiffer src m \<longleftrightarrow> mbody (mputAll src m) \<noteq> mbody m"

text \<open>\<open>if m[k] != v { m[k] = v }\<close> on a map that is not nil.\<close>

definition ensureEntry :: "string \<Rightarrow> string \<Rightarrow> string gomap \<Rightarrow> string gomap" where
  "ensureEntry k v m = (if mstr m k \<noteq> v then mput k v m else m)"

definition mergeLabelsAnnotations :: "UnitSet \<Rightarrow> Unit \<Rightarrow> Unit \<times> bool" where
  "mergeLabelsAnnotations unitset latest =
     (let count = Itoa (Units (us_Spec unitset));
          l0 = minit (Labels (u_meta latest));
          a0 = minit (Annotations (u_meta latest));
          l1 = ensureEntry UnitsetName (us_Name unitset) l0;
          l2 = ensureEntry LabelUnitsCount count l1;
          needUpdate = (Labels (u_meta latest) = None \<or> Annotations (u_meta latest) = None \<or>
             mstr l0 UnitsetName \<noteq> us_Name unitset \<or> mstr l1 LabelUnitsCount \<noteq> count \<or>
             entriesDiffer (Labels (us_meta unitset)) l2 \<or> entriesDiffer (Annotations (us_meta unitset)) a0)
      in (withMetaMaps (mputAll (Labels (us_meta unitset)) l2) (mputAll (Annotations (us_meta unitset)) a0) latest, needUpdate))"

definition reconcileUnitLabelsAnnotations :: "'s kube \<Rightarrow> string \<Rightarrow> UnitSet \<Rightarrow> ('s, unit) act" where
  "reconcileUnitLabelsAnnotations K reqNamespace unitset =
     bindA (mapErr (Fmt ''[reconcileUnitLabelsAnnotations] error getting units'') (unitsBelongUnitset K unitset)) (\<lambda>kUnits.
       if kUnits = [] then ret ()
       else bindA (withLocal False (mapErr (Fmt ''[reconcileUnitLabelsAnnotations] error'')
              (goAllL K kUnits (\<lambda>unit. mapErr (Fmt ''[reconcileUnitLabelsAnnotations] update unit err'')
                 (retryOnConflict DefaultRetry
                   (bindA (liftW (getUnit K (Namespace (u_meta unit)) (u_Name unit))) (\<lambda>latest.
                      case mergeLabelsAnnotations unitset latest of (merged, needUpdate) \<Rightarrow>
                        if \<not> needUpdate then ret ()
                        else thenA (putL True) (thenA (liftW (updateObj K (OUnit merged))) (ret ())))))))))
            (\<lambda>(_, needUpdateObservedGeneration).
              whenA needUpdateObservedGeneration (mapErr (Fmt ''[reconcileUnitLabelsAnnotations] error'')
                (reconcileUnitsetObservedGeneration K reqNamespace unitset))))"

section \<open>One unit: the change is what the test asks for\<close>

lemma updateFirst_find:
  "List.find P xs = Some x \<Longrightarrow> P (f x) \<Longrightarrow> List.find P (updateFirst P f xs) = Some (f x)"
  by (induction xs) (auto split: if_splits)

lemma updateFirst_none: "List.find P xs = None \<Longrightarrow> updateFirst P f xs = xs"
  by (induction xs) (auto split: if_splits)

lemma updateFirst_idem: "(\<And>x. P x \<Longrightarrow> P (f x) \<and> f (f x) = f x) \<Longrightarrow> updateFirst P f (updateFirst P f xs) = updateFirst P f xs"
  by (induction xs) auto

lemma updateFirst_others: "(\<And>x. P x \<Longrightarrow> P (f x)) \<Longrightarrow> filter (\<lambda>x. \<not> P x) (updateFirst P f xs) = filter (\<lambda>x. \<not> P x) xs"
  by (induction xs) auto

context ext_laws
begin

lemma resources_merged: "\<not> needsResourceUpdate X us (mergeResources us u)"
  by (auto simp: needsResourceUpdate_def mergeResources_def list_ex_iff resourcesDiffer_def qcmp_refl)

lemma resize_merged: "\<not> needsResizePolicyUpdate X us (mergeResizePolicy us u)"
proof (cases "List.find (\<lambda>c. c_Name c = Type (us_Spec us)) (Containers (podSpecOf u))")
  case None
  then show ?thesis by (simp add: needsResizePolicyUpdate_def mergeResizePolicy_def updateFirst_none)
next
  case (Some c)
  then have "c_Name c = Type (us_Spec us)" by (auto simp: find_Some_iff)
  with Some show ?thesis
    by (simp add: needsResizePolicyUpdate_def mergeResizePolicy_def updateFirst_find semEqResize_refl)
qed

end

lemma overPodSpec_idem: "(\<And>p. f (f p) = f p) \<Longrightarrow> overPodSpec f (overPodSpec f u) = overPodSpec f u"
  by (simp add: overPodSpec_def comp_def)

lemma mergeResources_idem: "mergeResources us (mergeResources us u) = mergeResources us u"
  unfolding mergeResources_def by (rule overPodSpec_idem) (simp add: comp_def cong: if_cong)

lemma mergeResizePolicy_idem: "mergeResizePolicy us (mergeResizePolicy us u) = mergeResizePolicy us u"
  unfolding mergeResizePolicy_def by (rule overPodSpec_idem) (simp add: updateFirst_idem)

text \<open>
  \<open>mergeResources\<close>, \<open>needsResourceUpdate\<close>, \<open>mergeResizePolicy\<close>,
  \<open>needsResizePolicyUpdate\<close>: a unit whose resources (resize policy) were merged no longer needs
  the update, merging again changes nothing, and neither merge touches another container, the metadata
  or the status.
\<close>

theorem spec_merge_converges:
  assumes "ext_laws X"
  shows "\<not> needsResourceUpdate X us (mergeResources us u) \<and> mergeResources us (mergeResources us u) = mergeResources us u \<and>
    \<not> needsResizePolicyUpdate X us (mergeResizePolicy us u) \<and>
    mergeResizePolicy us (mergeResizePolicy us u) = mergeResizePolicy us u \<and>
    (\<forall>w \<in> {mergeResources us u, mergeResizePolicy us u}. u_meta w = u_meta u \<and> u_Status w = u_Status u \<and>
       filter (\<lambda>c. c_Name c \<noteq> Type (us_Spec us)) (Containers (podSpecOf w)) =
       filter (\<lambda>c. c_Name c \<noteq> Type (us_Spec us)) (Containers (podSpecOf u)))"
proof -
  have "filter (\<lambda>c. c_Name c \<noteq> Type (us_Spec us)) (Containers (podSpecOf (mergeResources us u))) =
       filter (\<lambda>c. c_Name c \<noteq> Type (us_Spec us)) (Containers (podSpecOf u))"
    unfolding mergeResources_def
    by (simp add: filter_map comp_def) (rule map_idI, simp)
  moreover have "filter (\<lambda>c. c_Name c \<noteq> Type (us_Spec us)) (Containers (podSpecOf (mergeResizePolicy us u))) =
       filter (\<lambda>c. c_Name c \<noteq> Type (us_Spec us)) (Containers (podSpecOf u))"
    unfolding mergeResizePolicy_def by (simp add: updateFirst_others)
  moreover have "\<forall>w \<in> {mergeResources us u, mergeResizePolicy us u}. u_meta w = u_meta u \<and> u_Status w = u_Status u"
    by (simp add: mergeResources_def mergeResizePolicy_def)
  ultimately show ?thesis
    using ext_laws.resources_merged [OF assms] ext_laws.resize_merged [OF assms]
    by (simp add: mergeResources_idem mergeResizePolicy_idem)
qed

theorem spec_merge_converges_witness:
  "\<not> needsResourceUpdate plainExt (sampleUnitSet ''db'' 1)
     (mergeResources (sampleUnitSet ''db'' 1) (sampleUnit (sampleUnitSet ''db'' 1) 0))"
  using spec_merge_converges [OF plain.ext_laws_axioms] by blast

section \<open>Rolling change: only the marked unit, only when it is ready\<close>

lemma findNext_found: "findNext needs m current True names =
    (case List.find (\<lambda>n. n \<noteq> current \<and> needing needs m n) names of None \<Rightarrow> [] | Some n \<Rightarrow> n)"
  by (induction names) auto

lemma findNext_dropWhile: "findNext needs m current False names =
    (case List.find (\<lambda>n. n \<noteq> current \<and> needing needs m n) (tl (dropWhile (\<lambda>n. n \<noteq> current) names)) of
       None \<Rightarrow> [] | Some n \<Rightarrow> n)"
  by (induction names) (auto simp: findNext_found)

lemma unitMap_Some:
  assumes "unitMap ks n = Some u"
  shows "u \<in> set ks" and "u_Name u = n"
  using map_of_SomeD [OF assms [unfolded unitMap_def]] by auto

context kube_api
begin

lemma keeps_updateUnitResources [triple_rules]:
  "unitKey ns n \<in> A \<Longrightarrow> keeps (frame view A v) (updateUnitResources K X ns us n)"
  unfolding updateUnitResources_def
  by (intro keeps_mapErr keeps_retry keeps_getUnit_then keeps_if keeps_thenA keeps_frame_writes keeps_ret)
    (auto simp: mergeResources_def)

lemma keeps_updateUnitResizePolicy [triple_rules]:
  "unitKey ns n \<in> A \<Longrightarrow> keeps (frame view A v) (updateUnitResizePolicy K ns us n)"
  unfolding updateUnitResizePolicy_def
  by (intro keeps_mapErr keeps_retry keeps_getUnit_then keeps_thenA keeps_frame_writes keeps_ret)
    (auto simp: mergeResizePolicy_def)

lemma keeps_rollingPhases:
  assumes k: "unitSetKey ns (us_Name us) \<in> A"
    and f: "\<And>u. InUpdate (us_Status us) \<noteq> [] \<Longrightarrow> m (InUpdate (us_Status us)) = Some u \<Longrightarrow> needs u \<Longrightarrow>
      Phase (u_Status u) = UnitReady \<Longrightarrow> keeps (frame view A v) (f (InUpdate (us_Status us)))"
    and w: "keeps (frame view A v) notReady"
  shows "keeps (frame view A v) (rollingPhases K ns us m names needs f notReady)"
  unfolding rollingPhases_def Let_def
  using k f w
  by (auto simp: keeps_ret keeps_mapErr keeps_thenA keeps_whenA keeps_updateInUpdate keeps_observedGeneration
      simp del: ret_apply split: option.split)

end

text \<open>The unit a rolling change may write in this state: marked, listed, in need of it, and ready.\<close>

definition mayChange :: "(Unit \<Rightarrow> bool) \<Rightarrow> UnitSet \<Rightarrow> objview \<Rightarrow> okey \<Rightarrow> bool" where
  "mayChange needs us v k \<longleftrightarrow> k = unitKey (Namespace (us_meta us)) (InUpdate (us_Status us)) \<and>
     (\<exists>u. v k = Some (OUnit u) \<and> needs u \<and> Phase (u_Status u) = UnitReady)"

context kube_api
begin

lemma rolling_safe:
  assumes ns: "Namespace (us_meta us) = ns" "ns \<noteq> []"
    and ks: "unitsBelongUnitset K us s = (Inr ks, t)"
    and f: "\<And>A v n. unitKey ns n \<in> A \<Longrightarrow> keeps (frame view A v) (f n)"
    and w: "\<And>A v. keeps (frame view A v) notReady"
    and k: "k \<noteq> unitSetKey ns (us_Name us)" "\<not> mayChange needs us (view s) k"
  shows "view (snd (rollingPhases K ns us (unitMap ks) names needs f notReady t)) k = view s k"
proof -
  let ?A = "{unitSetKey ns (us_Name us)} \<union> {k. mayChange needs us (view s) k}"
  have fr: "keeps (frame view ?A v) (rollingPhases K ns us (unitMap ks) names needs f notReady)" for v
  proof (rule keeps_rollingPhases)
    fix u assume u: "unitMap ks (InUpdate (us_Status us)) = Some u" "needs u" "Phase (u_Status u) = UnitReady"
    from unitMap_Some [OF u(1)] unitsBelong_Inr(1) [OF ks, of u] ns
    have "view s (unitKey ns (InUpdate (us_Status us))) = Some (OUnit u)" by (auto simp: inSet_def u_Name_def)
    with u ns show "keeps (frame view ?A v) (f (InUpdate (us_Status us)))"
      by (intro f) (auto simp: mayChange_def)
  qed (use w in auto)
  have "k \<notin> ?A" using k by simp
  from frame_apply [OF fr this, of t] unitsBelong_Inr(2) [OF ks] show ?thesis by simp
qed

lemma rolling_change_frame:
  assumes rolling: "isRolling us" and ns: "Namespace (us_meta us) = ns" "ns \<noteq> []"
    and k: "k \<noteq> unitSetKey ns (us_Name us)"
  shows "\<not> mayChange (needsResourceUpdate X us) us (view s) k \<Longrightarrow>
       view (snd (reconcileResources K X ns us s)) k = view s k"
    and "\<not> mayChange (needsResizePolicyUpdate X us) us (view s) k \<Longrightarrow>
       view (snd (reconcileResizePolicy K X ns us s)) k = view s k"
proof -
  obtain r t where l: "unitsBelongUnitset K us s = (r, t)" by fastforce
  have t: "view t k = view s k" using frame_apply [OF keeps_unitsBelong, of k "{}" us s] l by simp
  show "\<not> mayChange (needsResourceUpdate X us) us (view s) k \<Longrightarrow>
       view (snd (reconcileResources K X ns us s)) k = view s k"
    using rolling_safe [OF ns _ keeps_updateUnitResources keeps_ret k, of s _ t] l t rolling
    by (cases r) (auto simp: reconcileResources_def bindA_def mapErr_def Let_def)
  show "\<not> mayChange (needsResizePolicyUpdate X us) us (view s) k \<Longrightarrow>
       view (snd (reconcileResizePolicy K X ns us s)) k = view s k"
    using rolling_safe [OF ns _ keeps_updateUnitResizePolicy keeps_fail k, of s _ t] l t rolling
    by (cases r) (auto simp: reconcileResizePolicy_def bindA_def mapErr_def Let_def)
qed

end

text \<open>
  C18 (\<open>reconcileResources\<close>, \<open>reconcileResizePolicy\<close>): under the rolling strategy a
  reconciliation changes no object but the UnitSet and, at most, the one unit that \<open>status.inUpdate\<close>
  names, and that unit only if it needs the change and is in phase Ready. This holds whatever the API
  server answers.
\<close>

theorem rolling_change_safe:
  assumes "kube_api K view wire" and rolling: "isRolling us" and ns: "Namespace (us_meta us) = ns" "ns \<noteq> []"
    and k: "k \<noteq> unitSetKey ns (us_Name us)"
  shows "(\<not> mayChange (needsResourceUpdate X us) us (view s) k \<longrightarrow>
       view (snd (reconcileResources K X ns us s)) k = view s k) \<and>
    (\<not> mayChange (needsResizePolicyUpdate X us) us (view s) k \<longrightarrow>
       view (snd (reconcileResizePolicy K X ns us s)) k = view s k)"
  using kube_api.rolling_change_frame [OF assms] by blast

theorem rolling_change_safe_witness:
  "memView (snd (reconcileResources memKube plainExt ''ns'' sampleRoll sampleRollCluster)) (unitKey ''ns'' ''db-0'') =
     Some (OUnit (sampleUnit sampleRoll 0))"
proof -
  have s: "isRolling sampleRoll" "Namespace (us_meta sampleRoll) = ''ns''" "InUpdate (us_Status sampleRoll) = []" by code_simp+
  have "\<not> mayChange (needsResourceUpdate plainExt sampleRoll) sampleRoll (memView sampleRollCluster) (unitKey ''ns'' ''db-0'')"
    by (simp add: mayChange_def s)
  with rolling_change_safe [OF mem.kube_api_axioms s(1,2), of "unitKey ''ns'' ''db-0''" plainExt sampleRollCluster]
  show ?thesis by (simp add: sampleRollCluster_unit)
qed

text \<open>
  \<open>findNextUnitNeedsResizePolicy\<close>: the loop with its flag returns the first name after the
  current one, in update order, whose unit exists and needs the change, and the empty name if there is
  none; a name before the current one is never returned.
\<close>

theorem find_next_is_first_after:
  assumes "distinct names" and "i < length names"
  shows "findNextUnitNeedsResizePolicy X names (names ! i) m us =
    (case List.find (needing (needsResizePolicyUpdate X us) m) (drop (Suc i) names) of None \<Rightarrow> [] | Some n \<Rightarrow> n)"
proof -
  have n: "names ! i \<notin> set (take i names)" "names ! i \<notin> set (drop (Suc i) names)"
    using assms by (metis distinct_append id_take_nth_drop not_distinct_conv_prefix distinct.simps(2))+
  have "dropWhile (\<lambda>n. n \<noteq> names ! i) names = names ! i # drop (Suc i) names"
    using n(1) by (subst id_take_nth_drop [OF assms(2)]) (auto simp: dropWhile_append3 dropWhile_append)
  moreover have "List.find (\<lambda>n. n \<noteq> names ! i \<and> P n) xs = List.find P xs" if "names ! i \<notin> set xs" for P xs
    using that by (induction xs) auto
  ultimately show ?thesis using n(2) by (simp add: findNextUnitNeedsResizePolicy_def findNext_dropWhile)
qed

theorem find_next_is_first_after_witness:
  "findNextUnitNeedsResizePolicy plainExt [''db-1'', ''db-0''] ''db-1'' (\<lambda>_. None) sampleRoll = []"
  using find_next_is_first_after [of "[''db-1'', ''db-0'']" 0 plainExt "\<lambda>_. None" sampleRoll] by (simp add: needing_def)

section \<open>Labels and annotations\<close>

text \<open>The unit agrees with the UnitSet: its own labels and annotations, and the two forced ones.\<close>

lemma mputAll_idem: "mbody (mputAll src (mputAll src m)) = mbody (mputAll src m)"
  by (rule fmap_ext) (auto simp: fmlookup_dom_iff)

lemma entriesDiffer_mputAll: "\<not> entriesDiffer src (mputAll src m)"
  unfolding entriesDiffer_def by (simp only: mputAll_idem not_not)

lemma mstr_mputAll: "mstr (mputAll src m) k = (case mfind src k of Some v \<Rightarrow> v | None \<Rightarrow> mstr m k)"
  by (simp add: mstr_def split: option.split)

lemma mfind_ensureEntry:
  "mfind (ensureEntry k v m) k' = (if k' = k \<and> mstr m k \<noteq> v then Some v else mfind m k')"
  by (simp add: ensureEntry_def)

lemma mstr_ensureEntry: "mstr (ensureEntry k v m) k' = (if k' = k then v else mstr m k')"
  by (auto simp: ensureEntry_def)

lemma ensureEntry_id [simp]: "mstr m k = v \<Longrightarrow> ensureEntry k v m = m"
  by (simp add: ensureEntry_def)

lemma merged_maps:
  fixes us u
  defines "w \<equiv> fst (mergeLabelsAnnotations us u)"
  shows "mfind (Labels (u_meta w)) k = (case mfind (Labels (us_meta us)) k of Some v \<Rightarrow> Some v | None \<Rightarrow>
      mfind (ensureEntry LabelUnitsCount (Itoa (Units (us_Spec us))) (ensureEntry UnitsetName (us_Name us) (minit (Labels (u_meta u))))) k)"
    and "mstr (Labels (u_meta w)) k = (case mfind (Labels (us_meta us)) k of Some v \<Rightarrow> v | None \<Rightarrow>
      if k = LabelUnitsCount then Itoa (Units (us_Spec us)) else if k = UnitsetName then us_Name us else mstr (Labels (u_meta u)) k)"
    and "mfind (Annotations (u_meta w)) k = (case mfind (Annotations (us_meta us)) k of Some v \<Rightarrow> Some v | None \<Rightarrow> mfind (Annotations (u_meta u)) k)"
    and "Labels (u_meta w) \<noteq> None" "Annotations (u_meta w) \<noteq> None"
    and "\<not> entriesDiffer (Labels (us_meta us)) (Labels (u_meta w))" "\<not> entriesDiffer (Annotations (us_meta us)) (Annotations (u_meta w))"
  by (simp_all add: w_def mergeLabelsAnnotations_def Let_def withMetaMaps_def mstr_mputAll mstr_ensureEntry
      entriesDiffer_mputAll del: mfind_simps(4) split: option.split) (simp add: mfind_simps split: option.split)+

text \<open>
  \<open>reconcileUnitLabelsAnnotations\<close>: a UnitSet whose own labels do not contradict the two
  labels the operator forces brings a unit into line in one step: afterwards nothing is left to do,
  the unit carries the label of its set and every label and annotation of the set, entries the set does
  not name are kept, and spec and status are untouched.
\<close>

theorem labels_sync:
  assumes "mfind (Labels (us_meta us)) UnitsetName \<in> {None, Some (us_Name us)}"
    and "mfind (Labels (us_meta us)) LabelUnitsCount \<in> {None, Some (Itoa (Units (us_Spec us)))}"
    and "us_Name us \<noteq> []"
  shows "(let w = fst (mergeLabelsAnnotations us u) in
     \<not> snd (mergeLabelsAnnotations us w) \<and>
     mfind (Labels (u_meta w)) UnitsetName = Some (us_Name us) \<and>
     (\<forall>k v. mfind (Labels (us_meta us)) k = Some v \<longrightarrow> mfind (Labels (u_meta w)) k = Some v) \<and>
     (\<forall>k v. mfind (Annotations (us_meta us)) k = Some v \<longrightarrow> mfind (Annotations (u_meta w)) k = Some v) \<and>
     (\<forall>k. mfind (Labels (us_meta us)) k = None \<longrightarrow> k \<notin> {UnitsetName, LabelUnitsCount} \<longrightarrow>
        mfind (Labels (u_meta w)) k = mfind (Labels (u_meta u)) k) \<and>
     (\<forall>k. mfind (Annotations (us_meta us)) k = None \<longrightarrow>
        mfind (Annotations (u_meta w)) k = mfind (Annotations (u_meta u)) k) \<and>
     u_Spec w = u_Spec u \<and> u_Status w = u_Status u)"
proof -
  let ?w = "fst (mergeLabelsAnnotations us u)"
  have s: "mstr (Labels (u_meta ?w)) UnitsetName = us_Name us" "mstr (Labels (u_meta ?w)) LabelUnitsCount = Itoa (Units (us_Spec us))"
    using assms(1,2) merged_maps(2) [of us u] by auto
  have "\<not> snd (mergeLabelsAnnotations us ?w)"
  proof -
    have "minit (Labels (u_meta ?w)) = Labels (u_meta ?w)" "minit (Annotations (u_meta ?w)) = Annotations (u_meta ?w)"
      using merged_maps(4,5) [of us u] by (auto simp: minit_def)
    then show ?thesis
      unfolding mergeLabelsAnnotations_def [of us ?w] Let_def using s merged_maps(4-7) [of us u] by simp
  qed
  moreover have "mfind (Labels (u_meta ?w)) UnitsetName = Some (us_Name us)"
    using s(1) assms(3) by (auto simp: mstr_def split: option.splits)
  moreover have "u_Spec ?w = u_Spec u" "u_Status ?w = u_Status u"
    by (simp_all add: mergeLabelsAnnotations_def Let_def withMetaMaps_def)
  ultimately show ?thesis
    unfolding Let_def by (simp add: merged_maps(1,3) mfind_ensureEntry)
qed

theorem labels_sync_witness:
  "\<not> snd (mergeLabelsAnnotations sampleRoll (fst (mergeLabelsAnnotations sampleRoll (sampleUnit sampleRoll 0))))"
proof -
  have "mfind (Labels (us_meta sampleRoll)) UnitsetName = None" "mfind (Labels (us_meta sampleRoll)) LabelUnitsCount = None"
    "us_Name sampleRoll \<noteq> []" by code_simp+
  with labels_sync [of sampleRoll "sampleUnit sampleRoll 0"] show ?thesis by (simp add: Let_def)
qed

text \<open>
  \<open>reconcileUnitLabelsAnnotations\<close>: the comment says a unit is always labelled with the name
  of its UnitSet, but the labels of the UnitSet are merged afterwards. If they redefine
  \<open>unit-operator/unitset.name\<close>, the merged unit no longer belongs to the set, so it is not listed
  any more; if they redefine \<open>unit-operator/unitset.units.count\<close>, the unit is written again at
  every reconciliation.
\<close>

theorem label_override_orphans:
  shows "(mfind (Labels (us_meta us)) UnitsetName = Some v \<longrightarrow> v \<noteq> us_Name us \<longrightarrow>
       \<not> inSet us (fst (mergeLabelsAnnotations us u))) \<and>
    (mfind (Labels (us_meta us)) LabelUnitsCount = Some c \<longrightarrow> c \<noteq> Itoa (Units (us_Spec us)) \<longrightarrow>
       snd (mergeLabelsAnnotations us (fst (mergeLabelsAnnotations us u))))"
proof -
  let ?w = "fst (mergeLabelsAnnotations us u)"
  have "snd (mergeLabelsAnnotations us ?w)"
    if "mfind (Labels (us_meta us)) LabelUnitsCount = Some c" "c \<noteq> Itoa (Units (us_Spec us))"
    using merged_maps(2) [of us u LabelUnitsCount] that
    unfolding mergeLabelsAnnotations_def [of us ?w] Let_def by (simp add: mstr_ensureEntry)
  then show ?thesis by (auto simp: inSet_def merged_maps(1))
qed

definition sampleRelabelled :: UnitSet where
  "sampleRelabelled = sampleRoll\<lparr>us_meta := (us_meta sampleRoll)\<lparr>Labels := mput UnitsetName ''other'' None\<rparr>\<rparr>"

theorem label_override_orphans_witness:
  "\<not> inSet sampleRelabelled (fst (mergeLabelsAnnotations sampleRelabelled (sampleUnit sampleRelabelled 0)))"
proof -
  have "mfind (Labels (us_meta sampleRelabelled)) UnitsetName = Some ''other''" "''other'' \<noteq> us_Name sampleRelabelled" by code_simp+
  with label_override_orphans show ?thesis by blast
qed

section \<open>Storage\<close>

definition sizedAs :: "ext \<Rightarrow> UnitSet \<Rightarrow> vctemplate \<Rightarrow> bool" where
  "sizedAs X us vct \<longleftrightarrow> (\<forall>st \<in> set (Storage (us_Spec us)). vct_Name vct = st_Name st \<longrightarrow>
     (\<exists>q. MustParse X (Size st) = Some q \<and> mfind (pvc_Requests (vct_Spec vct)) ''storage'' = Some q))"

lemma foldE_setStorage_other:
  "vct_Name vct \<notin> st_Name ` set sts \<Longrightarrow> foldE (setStorage X) sts vct = Inr vct"
  by (induction sts) (auto simp: setStorage_def)

lemma foldE_setStorage:
  assumes "distinct (map st_Name sts)" and "\<And>st. st \<in> set sts \<Longrightarrow> MustParse X (Size st) \<noteq> None"
    and "pvc_Requests (vct_Spec vct) \<noteq> None"
  shows "\<exists>v. foldE (setStorage X) sts vct = Inr v \<and> vct_Name v = vct_Name vct \<and>
    (\<forall>st \<in> set sts. vct_Name v = st_Name st \<longrightarrow>
       (\<exists>q. MustParse X (Size st) = Some q \<and> mfind (pvc_Requests (vct_Spec v)) ''storage'' = Some q))"
  using assms
proof (induction sts arbitrary: vct)
  case (Cons st sts)
  show ?case
  proof (cases "vct_Name vct = st_Name st")
    case True
    from Cons.prems(2) [of st] obtain q where q: "MustParse X (Size st) = Some q" by auto
    let ?v = "vct\<lparr>vct_Spec := (vct_Spec vct)\<lparr>pvc_Requests := mput ''storage'' q (pvc_Requests (vct_Spec vct))\<rparr>\<rparr>"
    have "setStorage X st vct = Inr ?v"
      using True q Cons.prems(3) by (auto simp: setStorage_def parseSize_def)
    moreover have "foldE (setStorage X) sts ?v = Inr ?v"
      using True Cons.prems(1) by (intro foldE_setStorage_other) auto
    ultimately show ?thesis using q True Cons.prems(1) by force
  next
    case False
    then have "setStorage X st vct = Inr vct" by (simp add: setStorage_def)
    moreover from Cons.IH [of vct] Cons.prems obtain v where "foldE (setStorage X) sts vct = Inr v" "vct_Name v = vct_Name vct"
      "\<forall>st \<in> set sts. vct_Name v = st_Name st \<longrightarrow>
         (\<exists>q. MustParse X (Size st) = Some q \<and> mfind (pvc_Requests (vct_Spec v)) ''storage'' = Some q)" by force
    ultimately show ?thesis using False by auto
  qed
qed simp

lemma mapE_total:
  assumes "\<And>x. x \<in> set xs \<Longrightarrow> \<exists>y. f x = Inr y \<and> Q x y"
  shows "\<exists>ys. mapE f xs = Inr ys \<and> list_all2 Q xs ys"
  using assms
proof (induction xs)
  case (Cons x xs)
  then obtain y ys where "f x = Inr y" "Q x y" "mapE f xs = Inr ys" "list_all2 Q xs ys" by force
  then show ?case by simp
qed simp

lemma mergeStorage_total:
  assumes "distinct (map st_Name (Storage (us_Spec us)))"
    and "\<And>st. st \<in> set (Storage (us_Spec us)) \<Longrightarrow> MustParse X (Size st) \<noteq> None"
    and "\<And>vct. vct \<in> set (VolumeClaimTemplates (u_Spec u)) \<Longrightarrow> pvc_Requests (vct_Spec vct) \<noteq> None"
  shows "\<exists>vcts. mergeStorage X us u = Inr (u\<lparr>u_Spec := (u_Spec u)\<lparr>VolumeClaimTemplates := vcts\<rparr>\<rparr>) \<and>
    map vct_Name vcts = map vct_Name (VolumeClaimTemplates (u_Spec u)) \<and> list_all (sizedAs X us) vcts"
proof -
  let ?Q = "\<lambda>x y. vct_Name y = vct_Name x \<and> sizedAs X us y"
  have "\<exists>ys. mapE (foldE (setStorage X) (Storage (us_Spec us))) (VolumeClaimTemplates (u_Spec u)) = Inr ys \<and>
      list_all2 ?Q (VolumeClaimTemplates (u_Spec u)) ys"
    using foldE_setStorage [OF assms(1,2)] assms(3) by (intro mapE_total) (auto simp: sizedAs_def)
  then obtain ys where ys: "mapE (foldE (setStorage X) (Storage (us_Spec us))) (VolumeClaimTemplates (u_Spec u)) = Inr ys"
    "list_all2 ?Q (VolumeClaimTemplates (u_Spec u)) ys" by blast
  from ys(2) have "map vct_Name ys = map vct_Name (VolumeClaimTemplates (u_Spec u)) \<and> list_all (sizedAs X us) ys"
    by (induction rule: list_all2_induct) auto
  with ys(1) show ?thesis by (auto simp: mergeStorage_def)
qed

lemma storageMatches_set: "(vct, st) \<in> set (storageMatches us ks) \<longleftrightarrow>
    (\<exists>u \<in> set ks. vct \<in> set (VolumeClaimTemplates (u_Spec u))) \<and> st \<in> set (Storage (us_Spec us)) \<and> vct_Name vct = st_Name st"
  by (auto simp: storageMatches_def)

lemma sizedAs_not_small:
  assumes "ext_laws X" and "\<And>u. u \<in> set ks \<Longrightarrow> list_all (sizedAs X us) (VolumeClaimTemplates (u_Spec u))"
  shows "storageTooSmall X us ks = Inr False"
proof -
  let ?f = "\<lambda>(vct, st). bindE (parseSize X (Size st)) (\<lambda>q. Inr (qcmp X (StorageQ X (pvc_Requests (vct_Spec vct))) q < 0))"
  have "\<exists>b. ?f p = Inr b \<and> \<not> b" if p: "p \<in> set (storageMatches us ks)" for p
  proof -
    obtain vct st where [simp]: "p = (vct, st)" by (cases p)
    from p assms(2) obtain q where "MustParse X (Size st) = Some q" "mfind (pvc_Requests (vct_Spec vct)) ''storage'' = Some q"
      unfolding storageMatches_set list_all_iff sizedAs_def \<open>p = (vct, st)\<close> by blast
    then have "?f p = Inr False" by (simp add: parseSize_def ext_laws.StorageQ [OF assms(1)] ext_laws.qcmp_refl [OF assms(1)])
    then show ?thesis by blast
  qed
  then obtain bs where bs: "mapE ?f (storageMatches us ks) = Inr bs" "list_all2 (\<lambda>_ b. \<not> b) (storageMatches us ks) bs"
    using mapE_total [of "storageMatches us ks" ?f "\<lambda>_ b. \<not> b"] by blast
  from bs(2) have "\<not> list_ex (\<lambda>b. b) bs" by (induction rule: list_all2_induct) auto
  with bs(1) show ?thesis by (simp add: storageTooSmall_def)
qed


definition sampleStored :: UnitSet where
  "sampleStored = sampleRoll\<lparr>us_Spec := (us_Spec sampleRoll)\<lparr>Storage :=
     [\<lparr>st_Name = ''data'', Size = ''20'', st_StorageClassName = ''ssd'', st_MountPath = ''/data''\<rparr>]\<rparr>\<rparr>"

definition sampleStoredUnit :: Unit where
  "sampleStoredUnit = unit0\<lparr>u_Spec := unitSpec0\<lparr>VolumeClaimTemplates :=
     [\<lparr>vct_Name = ''data'', vct_Labels = None, vct_Annotations = None,
       vct_Spec = pvcSpec0\<lparr>pvc_Requests := mput ''storage'' (Quantity ''10'') None\<rparr>\<rparr>]\<rparr>\<rparr>"


text \<open>
  \<open>reconcileResizePolicy\<close>: the function returns before looking at \<open>status.inUpdate\<close> when
  no unit needs the change, so after the last unit was updated its completion branch (advance to the
  empty name, record the observed generation) is not reached and the marker it set stays.
\<close>

theorem resize_policy_marker_stays:
  assumes "kube_api K view wire" and "Namespace (us_meta us) = ns" and "ns \<noteq> []"
    and "\<And>n u. view s (unitKey ns n) = Some (OUnit u) \<Longrightarrow> inSet us u \<Longrightarrow> \<not> needsResizePolicyUpdate X us u"
  shows "view (snd (reconcileResizePolicy K X ns us s)) = view s"
proof -
  obtain r t where l: "unitsBelongUnitset K us s = (r, t)" by fastforce
  have t: "view t = view s"
    using frame_apply [OF kube_api.keeps_unitsBelong [OF assms(1)], of _ "{}" us s] l by auto
  have "\<not> list_ex (needing (needsResizePolicyUpdate X us) (unitMap ks)) names" if "r = Inr ks" for ks names
  proof -
    have "\<not> needsResizePolicyUpdate X us u" if "unitMap ks n = Some u" for n u
    proof -
      from unitMap_Some(1) [OF that] kube_api.unitsBelong_Inr(1) [OF assms(1) l [unfolded \<open>r = Inr ks\<close>], of u]
      have "view s (keyOf (OUnit u)) = Some (OUnit u)" "inSet us u" by auto
      with assms(2-4) show ?thesis by (auto simp: inSet_def)
    qed
    then show ?thesis by (auto simp: needing_def list_ex_iff split: option.splits)
  qed
  with l t show ?thesis
    by (cases r) (auto simp: reconcileResizePolicy_def bindA_def mapErr_def Let_def)
qed

theorem resize_policy_marker_stays_witness:
  "memView (snd (reconcileResizePolicy memKube plainExt ''ns'' (setInUpdate ''db-1'' sampleRoll) sampleRollCluster)) =
     memView sampleRollCluster"
proof (rule resize_policy_marker_stays [OF mem.kube_api_axioms])
  show "Namespace (us_meta (setInUpdate ''db-1'' sampleRoll)) = ''ns''" by code_simp
  fix n u assume "memView sampleRollCluster (unitKey ''ns'' n) = Some (OUnit u)"
  then have "u = sampleUnit sampleRoll 0 \<or> u = sampleUnit sampleRoll 1"
    by (auto simp: memView_def sampleRollCluster_def split: if_splits)
  moreover have "Containers (podSpecOf (sampleUnit sampleRoll i)) = []" for i
    by (simp add: sampleUnit_def zero_defs)
  ultimately show "\<not> needsResizePolicyUpdate plainExt (setInUpdate ''db-1'' sampleRoll) u"
    by (auto simp: needsResizePolicyUpdate_def)
qed simp

end
