(* ===== verification/UnitSetStatus.thy ===== *)
theory UnitSetStatus
  imports SpecSync UnitSetServices
begin

text \<open>
  The status and the node map of a UnitSet (\<open>src/pkg/controller/unitset/unitset_status.go\<close>). The
  status is computed from the units and services of the set and written if a field that counts
  differs; the set in memory is changed either way, which matters because the function runs under
  \<open>retry.RetryOnConflict\<close>. The nodes of the units are kept in an annotation of the set.
\<close>

section \<open>The node map\<close>

definition setNodeNameMapToAnnotations :: "ext \<Rightarrow> UnitSet \<Rightarrow> (string, string) fmap \<Rightarrow> UnitSet" where
  "setNodeNameMapToAnnotations X unitset m = annotated AnnotationUnitsetNodeNameMap (jsonMarshalMap X m) unitset"

definition backfillNode :: "Unit \<Rightarrow> (string, string) fmap \<Rightarrow> (string, string) fmap" where
  "backfillNode one current =
     (if u_NodeName (u_Status one) = [] then current
      else if fmlookup current (u_Name one) = Some NoneSetFlag then current
      else fmupd (u_Name one) (u_NodeName (u_Status one)) current)"

definition reconcilePatchUnitset :: "'s kube \<Rightarrow> ext \<Rightarrow> (UnitSet \<times> 's, unit) act" where
  "reconcilePatchUnitset K X =
     bindA getL (\<lambda>unitset.
     bindA (mapErr (Fmt ''[reconcilePatchUnitset] error getting units'') (liftW (unitsBelongUnitset K unitset))) (\<lambda>units.
       if units = [] then ret ()
       else let new = setNodeNameMapToAnnotations X unitset (fold backfillNode units (getNodeNameMapFromAnnotations X unitset)) in
         thenA (putL new)
           (whenA (Annotations (us_meta unitset) = None \<or>
                   mstr (Annotations (us_meta unitset)) AnnotationUnitsetNodeNameMap \<noteq>
                   mstr (Annotations (us_meta new)) AnnotationUnitsetNodeNameMap)
              (ignoreErr (liftW (patchUnitset K unitset new))))))"

section \<open>The status\<close>

definition syncAt :: "nat \<Rightarrow> bool \<Rightarrow> syncStatus" where
  "syncAt t b = \<lparr>LastTransitionTime = t, ss_Status = (if b then ''True'' else ''False'')\<rparr>"

definition failedStatus :: "nat \<Rightarrow> UnitSetStatus" where
  "failedStatus t = unitSetStatus0\<lparr>s_UnitService := Some fmempty, ImageSyncStatus := syncAt t False,
     ResourceSyncStatus := syncAt t False, PvcSyncStatus := syncAt t False\<rparr>"

text \<open>The claims of a unit with the size the spec asks for; \<open>==\<close> compares the structures.\<close>

definition pvcSynced :: "ext \<Rightarrow> Unit \<Rightarrow> PvcInfo \<Rightarrow> storageSpec \<Rightarrow> int \<Rightarrow> error + int" where
  "pvcSynced X one pvc expect n =
     (if pi_Name pvc \<noteq> PersistentVolumeClaimName one (st_Name expect) then Inr n
      else case MustParse X (Size expect) of
             None \<Rightarrow> Inl (Panic ''cannot parse quantity'')
           | Some q \<Rightarrow> Inr (if pi_Storage pvc = q then n + 1 else n))"

definition unitPVCSyncedCount :: "ext \<Rightarrow> UnitSet \<Rightarrow> Unit list \<Rightarrow> error + int" where
  "unitPVCSyncedCount X unitset units =
     foldE (\<lambda>one. foldE (\<lambda>pvc. foldE (pvcSynced X one pvc) (Storage (us_Spec unitset))) (PersistentVolumeClaim (u_Status one))) units 0"

definition unitResourceSyncedCount :: "ext \<Rightarrow> UnitSet \<Rightarrow> Unit list \<Rightarrow> int" where
  "unitResourceSyncedCount X unitset units =
     (\<Sum>one\<leftarrow>units. int (length (filter (\<lambda>c. c_Name c = mstr (Annotations (u_meta one)) AnnotationMainContainerName \<and>
        \<not> resourcesDiffer X (c_Resources c) (Resources (us_Spec unitset))) (Containers (podSpecOf one)))))"

definition unitImageSyncedCount :: "UnitSet \<Rightarrow> Unit list \<Rightarrow> int" where
  "unitImageSyncedCount unitset units =
     int (length (filter (\<lambda>one. mstr (Annotations (u_meta one)) AnnotationMainContainerVersion = Version (us_Spec unitset)) units))"

definition inUpdateUnits :: "Unit list \<Rightarrow> string list" where
  "inUpdateUnits units = map u_Name (filter (\<lambda>one. \<not> isBlank (Task (u_Status one))) units)"

definition externalServiceName :: "UnitSet \<Rightarrow> service list \<Rightarrow> string \<Rightarrow> string" where
  "externalServiceName unitset services old =
     (if ExternalService (us_Spec unitset) = [] then old
      else case List.find (\<lambda>one. mfind (Labels (svc_meta one)) AnnotationExternalServiceType \<noteq> None) services of
             None \<Rightarrow> old | Some one \<Rightarrow> Name (svc_meta one))"

definition unitServiceMap :: "Unit list \<Rightarrow> service list \<Rightarrow> (string, string) fmap" where
  "unitServiceMap units services =
     fold (\<lambda>unit m. case List.find (\<lambda>c. u_Name unit = mstr (Labels (svc_meta c)) UnitName) services of
                      None \<Rightarrow> m | Some c \<Rightarrow> fmupd (u_Name unit) (Name (svc_meta c)) m) units fmempty"

text \<open>The status from the units and services read; \<open>base\<close> is the status it starts from.\<close>

definition unitsetStatus ::
  "ext \<Rightarrow> nat \<Rightarrow> UnitSet \<Rightarrow> UnitSetStatus \<Rightarrow> Unit list \<Rightarrow> service list \<Rightarrow> error + UnitSetStatus" where
  "unitsetStatus X t unitset base units services =
     (case unitPVCSyncedCount X unitset units of
        Inl e \<Rightarrow> Inl e
      | Inr pvcs \<Rightarrow> Inr (base\<lparr>
          s_Units := int (length units),
          ReadyUnits := int (length (filter (\<lambda>one. Phase (u_Status one) = UnitReady) units)),
          ImageSyncStatus := syncAt t (unitImageSyncedCount unitset units = Units (us_Spec unitset)),
          PvcSyncStatus := syncAt t (wrap64 (int (length (Storage (us_Spec unitset))) * Units (us_Spec unitset)) = pvcs),
          ResourceSyncStatus := syncAt t (unitResourceSyncedCount X unitset units = Units (us_Spec unitset)),
          InUpdate := (if inUpdateUnits units \<noteq> [] then Join (inUpdateUnits units) '','' else InUpdate base),
          s_ExternalService := externalServiceName unitset services (s_ExternalService base),
          s_UnitService := (if UnitService (us_Spec unitset) = [] then s_UnitService base else Some (unitServiceMap units services))\<rparr>))"

definition statusDiffers :: "ext \<Rightarrow> UnitSetStatus \<Rightarrow> UnitSetStatus \<Rightarrow> bool" where
  "statusDiffers X new orig \<longleftrightarrow>
     s_Units new \<noteq> s_Units orig \<or> ReadyUnits new \<noteq> ReadyUnits orig \<or>
     ss_Status (ImageSyncStatus new) \<noteq> ss_Status (ImageSyncStatus orig) \<or>
     ss_Status (ResourceSyncStatus new) \<noteq> ss_Status (ResourceSyncStatus orig) \<or>
     ss_Status (PvcSyncStatus new) \<noteq> ss_Status (PvcSyncStatus orig) \<or>
     s_ExternalService new \<noteq> s_ExternalService orig \<or> \<not> semEqStrMap X (s_UnitService new) (s_UnitService orig)"

definition storeStatus :: "'s kube \<Rightarrow> ext \<Rightarrow> UnitSet \<Rightarrow> UnitSetStatus \<Rightarrow> (UnitSet \<times> 's, unit) act" where
  "storeStatus K X orig st =
     (let new = orig\<lparr>us_Status := st\<rparr> in
      thenA (putL new)
        (whenA (statusDiffers X st (us_Status orig))
          (bindA (liftW (statusUpdate K (OUnitSet new))) (\<lambda>ob.
             putL (case asUnitSet ob of Some u \<Rightarrow> u | None \<Rightarrow> new)))))"

text \<open>A failed list resets the status and counts as an empty one.\<close>

definition statusListed :: "nat \<Rightarrow> error + 'a list \<Rightarrow> UnitSetStatus \<Rightarrow> 'a list \<times> UnitSetStatus" where
  "statusListed t r base = (case r of Inl _ \<Rightarrow> ([], failedStatus t) | Inr xs \<Rightarrow> (xs, base))"

definition reconcileUnitsetStatus :: "'s kube \<Rightarrow> ext \<Rightarrow> (UnitSet \<times> 's, unit) act" where
  "reconcileUnitsetStatus K X =
     bindA getL (\<lambda>orig.
     tryA (liftW (unitsBelongUnitset K orig)) (\<lambda>ru.
     tryA (liftW (listServiceBelongUnitset K orig)) (\<lambda>rs.
     bindA (liftW (now K)) (\<lambda>t.
     case statusListed t ru (us_Status orig) of (units, base) \<Rightarrow>
     case statusListed t rs base of (services, base') \<Rightarrow>
     bindA (liftE (unitsetStatus X t orig base' units services)) (storeStatus K X orig)))))"

section \<open>The stored status counts the units\<close>

text \<open>The units of the set in a cluster that satisfy \<open>P\<close>.\<close>

definition unitsWhere :: "UnitSet \<Rightarrow> (Unit \<Rightarrow> bool) \<Rightarrow> objview \<Rightarrow> okey set" where
  "unitsWhere us P v = {k. \<exists>u. v k = Some (OUnit u) \<and> inSet us u \<and> P u}"

lemma foldE_total: "(\<And>x b. x \<in> set xs \<Longrightarrow> \<exists>c. f x b = Inr c) \<Longrightarrow> \<exists>c. foldE f xs b = Inr c"
proof (induction xs arbitrary: b)
  case (Cons x xs)
  then obtain c where "f x b = Inr c" by (meson list.set_intros(1))
  with Cons show ?case by simp
qed simp

lemma pvcCount_total:
  assumes "\<forall>e \<in> set (Storage (us_Spec us)). MustParse X (Size e) \<noteq> None"
  shows "\<exists>n. unitPVCSyncedCount X us ks = Inr n"
  unfolding unitPVCSyncedCount_def
  by (intro foldE_total) (use assms in \<open>auto simp: pvcSynced_def split: option.split\<close>)

lemma unitsetStatus_simps:
  assumes "unitsetStatus X t us base ks svcs = Inr st"
  shows "s_Units st = int (length ks)" and "ReadyUnits st = int (length (filter (\<lambda>u. Phase (u_Status u) = UnitReady) ks))"
    and "ss_Status (ImageSyncStatus st) = (if unitImageSyncedCount us ks = Units (us_Spec us) then ''True'' else ''False'')"
  using assms by (auto simp: unitsetStatus_def syncAt_def split: sum.splits)

lemma statusDiffersD:
  assumes "\<not> statusDiffers X a b"
  shows "s_Units b = s_Units a" "ReadyUnits b = ReadyUnits a" "ss_Status (ImageSyncStatus b) = ss_Status (ImageSyncStatus a)"
  using assms by (simp_all add: statusDiffers_def)

context kube_api
begin

lemma units_count:
  assumes "unitsBelongUnitset K us s = (Inr ks, t)"
  shows "finite (unitsWhere us P (view s))" and "length (filter P ks) = card (unitsWhere us P (view s))"
proof -
  let ?k = "\<lambda>u. keyOf (OUnit u)"
  have in_ks: "u \<in> set ks \<longleftrightarrow> view s (?k u) = Some (OUnit u) \<and> inSet us u" for u
    by (rule unitsBelong_Inr(1) [OF assms])
  have eq: "unitsWhere us P (view s) = set (map ?k (filter P ks))"
    using in_ks view_key by (fastforce simp: unitsWhere_def)
  then show "finite (unitsWhere us P (view s))" by simp
  have "distinct (map ?k (filter P ks))" using unitsBelong_Inr(3) [OF assms] by (rule distinct_map_filter)
  from distinct_card [OF this] eq show "length (filter P ks) = card (unitsWhere us P (view s))" by (simp only: length_map)
qed

end

context kube_live
begin

lemma listServiceBelong_live:
  assumes "ok s"
  shows "\<exists>xs s'. listServiceBelongUnitset K us s = (Inr xs, s') \<and> ok s' \<and> view s' = view s"
  using list_live [OF assms, of KService "Namespace (us_meta us)" "[(UnitsetName, us_Name us)]"]
  by (auto simp: listServiceBelongUnitset_def listServices_def bindA_def liftApi_def dest: list_view)

lemma storeStatus_live:
  assumes "ok s" and us: "view s (keyOf (OUnitSet us)) = Some (OUnitSet us)"
  shows "\<exists>us' s' cur. storeStatus K X us st (us, s) = (Inr (), (us', s')) \<and> ok s' \<and>
    view s' (keyOf (OUnitSet us)) = Some (OUnitSet cur) \<and>
    s_Units (us_Status cur) = s_Units st \<and> ReadyUnits (us_Status cur) = ReadyUnits st \<and>
    ss_Status (ImageSyncStatus (us_Status cur)) = ss_Status (ImageSyncStatus st)"
proof (cases "statusDiffers X st (us_Status us)")
  case False
  with assms statusDiffersD [OF False] show ?thesis
    by (auto simp: storeStatus_def Let_def thenA_def putL_def whenA_def bindA_def)
next
  case True
  let ?new = "us\<lparr>us_Status := st\<rparr>"
  have "view s (keyOf (OUnitSet ?new)) = Some (OUnitSet us)" using us by simp
  from status_total [OF assms(1) this] obtain ob s' where
    s': "statusUpdate K (OUnitSet ?new) s = (Inr ob, s')" "ok s'" "statusEff (OUnitSet ?new) ob (view s) (view s')"
    by (auto simp: versionOk_def)
  then obtain cur where cur: "ob = OUnitSet cur" using us by (cases ob) (auto simp: statusEff_def keyOf_def)
  with s'(3) us have "view s' (keyOf (OUnitSet us)) = Some (OUnitSet cur)" "unitSetStatusEq st (us_Status cur)"
    by (auto simp: statusEff_def)
  with True s' cur show ?thesis
    by (auto simp: storeStatus_def Let_def thenA_def putL_def whenA_def bindA_def liftW_def unitSetStatusEq_def asUnitSet_def)
qed

lemma status_live_run:
  assumes "ok s" and us: "view s (keyOf (OUnitSet us)) = Some (OUnitSet us)"
    and parse: "\<forall>e \<in> set (Storage (us_Spec us)). MustParse X (Size e) \<noteq> None"
  shows "\<exists>us' s' cur ks t. reconcileUnitsetStatus K X (us, s) = (Inr (), (us', s')) \<and>
    view s' (keyOf (OUnitSet us)) = Some (OUnitSet cur) \<and> unitsBelongUnitset K us s = (Inr ks, t) \<and>
    s_Units (us_Status cur) = int (length ks) \<and>
    ReadyUnits (us_Status cur) = int (length (filter (\<lambda>u. Phase (u_Status u) = UnitReady) ks)) \<and>
    (ss_Status (ImageSyncStatus (us_Status cur)) = ''True'' \<longleftrightarrow> unitImageSyncedCount us ks = Units (us_Spec us))"
proof -
  obtain ks t where ks: "unitsBelongUnitset K us s = (Inr ks, t)" "ok t" using unitsBelong_live [OF assms(1)] by blast
  have vt: "view t = view s" by (rule unitsBelong_Inr(2) [OF ks(1)])
  obtain svcs w where w: "listServiceBelongUnitset K us t = (Inr svcs, w)" "ok w" "view w = view t"
    using listServiceBelong_live [OF ks(2)] by blast
  obtain st where st: "unitsetStatus X (kNow K w) us (us_Status us) ks svcs = Inr st"
    using pvcCount_total [OF parse, of ks] by (auto simp: unitsetStatus_def)
  have vw: "view w (keyOf (OUnitSet us)) = Some (OUnitSet us)" using us vt w(3) by simp
  from storeStatus_live [OF w(2) vw, of X st] obtain us' s' cur where
    r: "storeStatus K X us st (us, w) = (Inr (), (us', s'))" "view s' (keyOf (OUnitSet us)) = Some (OUnitSet cur)"
      "s_Units (us_Status cur) = s_Units st" "ReadyUnits (us_Status cur) = ReadyUnits st"
      "ss_Status (ImageSyncStatus (us_Status cur)) = ss_Status (ImageSyncStatus st)" by blast
  have "reconcileUnitsetStatus K X (us, s) = storeStatus K X us st (us, w)"
    by (simp add: reconcileUnitsetStatus_def bindA_def getL_def tryA_def liftW_def ks w now_def statusListed_def st)
  with r ks(1) unitsetStatus_simps [OF st] show ?thesis by auto
qed

end

text \<open>
  C12 (\<open>reconcileUnitsetStatus\<close>): when the API server answers and the set in memory is the one stored,
  the status that is stored afterwards counts the units of the set in the cluster and those of them
  that are ready, never more ready ones than units, and reports the image as synchronised exactly if
  as many units as the spec asks for have its version.
\<close>

theorem unitset_status_exact:
  assumes "kube_live K view wire ok" and "ok s" and "view s (unitSetKey (Namespace (us_meta us)) (Name (us_meta us))) = Some (OUnitSet us)"
    and "\<forall>e \<in> set (Storage (us_Spec us)). MustParse X (Size e) \<noteq> None"
  shows "\<exists>us' s' cur. reconcileUnitsetStatus K X (us, s) = (Inr (), (us', s')) \<and>
    view s' (unitSetKey (Namespace (us_meta us)) (Name (us_meta us))) = Some (OUnitSet cur) \<and>
    s_Units (us_Status cur) = int (card (unitsWhere us (\<lambda>_. True) (view s))) \<and>
    ReadyUnits (us_Status cur) = int (card (unitsWhere us (\<lambda>u. Phase (u_Status u) = UnitReady) (view s))) \<and>
    0 \<le> ReadyUnits (us_Status cur) \<and> ReadyUnits (us_Status cur) \<le> s_Units (us_Status cur) \<and>
    (ss_Status (ImageSyncStatus (us_Status cur)) = ''True'' \<longleftrightarrow>
       int (card (unitsWhere us (\<lambda>u. mstr (Annotations (u_meta u)) AnnotationMainContainerVersion = Version (us_Spec us)) (view s))) =
       Units (us_Spec us))"
proof -
  have api: "kube_api K view wire" using assms(1) by (simp add: kube_live_def)
  from kube_live.status_live_run [OF assms(1,2), of us X] assms(3,4) obtain us' s' cur ks t where
    r: "reconcileUnitsetStatus K X (us, s) = (Inr (), (us', s'))"
      "view s' (unitSetKey (Namespace (us_meta us)) (Name (us_meta us))) = Some (OUnitSet cur)"
      "unitsBelongUnitset K us s = (Inr ks, t)" "s_Units (us_Status cur) = int (length ks)"
      "ReadyUnits (us_Status cur) = int (length (filter (\<lambda>u. Phase (u_Status u) = UnitReady) ks))"
      "ss_Status (ImageSyncStatus (us_Status cur)) = ''True'' \<longleftrightarrow> unitImageSyncedCount us ks = Units (us_Spec us)" by auto
  note c = kube_api.units_count(2) [OF api r(3)]
  have "length (filter (\<lambda>u. Phase (u_Status u) = UnitReady) ks) \<le> length ks" by simp
  with r c [of "\<lambda>_. True"] c [of "\<lambda>u. Phase (u_Status u) = UnitReady"]
    c [of "\<lambda>u. mstr (Annotations (u_meta u)) AnnotationMainContainerVersion = Version (us_Spec us)"]
  show ?thesis by (simp add: unitImageSyncedCount_def)
qed

theorem unitset_status_exact_witness:
  "\<exists>us' s' cur. reconcileUnitsetStatus memKube plainExt (sampleSet, sampleCluster) = (Inr (), (us', s')) \<and>
     memView s' (unitSetKey ''ns'' ''db'') = Some (OUnitSet cur) \<and> ReadyUnits (us_Status cur) \<le> s_Units (us_Status cur)"
proof -
  have n: "Namespace (us_meta sampleSet) = ''ns''" "Name (us_meta sampleSet) = ''db''" by code_simp+
  have v: "memView sampleCluster (unitSetKey (Namespace (us_meta sampleSet)) (Name (us_meta sampleSet))) = Some (OUnitSet sampleSet)"
    by code_simp
  have "memOk sampleCluster" by code_simp
  moreover have "\<forall>e \<in> set (Storage (us_Spec sampleSet)). MustParse plainExt (Size e) \<noteq> None" by code_simp
  ultimately show ?thesis using unitset_status_exact [OF mem.kube_live_axioms _ v] unfolding n by blast
qed

section \<open>A stale set\<close>

text \<open>An attempt on a stale set writes nothing, and leaves the set stale.\<close>

context kube_api
begin

lemma keeps_listServiceBelong [triple_rules]: "keeps (\<lambda>s. P (view s)) (listServiceBelongUnitset K us)"
  unfolding listServiceBelongUnitset_def by (rule keeps_lists)

lemma keeps_unitsBelong_view [triple_rules]: "keeps (\<lambda>s. P (view s)) (unitsBelongUnitset K us)"
  unfolding unitsBelongUnitset_def
  by (intro keeps_tryA keeps_lists keeps_case_sum keeps_if keeps_ret keeps_fail)

lemma storeStatus_stale:
  assumes "view s (keyOf (OUnitSet us)) = Some (OUnitSet cur)" and "\<not> versionOk (us_meta us) (us_meta cur)"
    and "storeStatus K X us st (us, s) = (r, (us', s'))"
  shows "us_meta us' = us_meta us \<and> view s' = view s"
proof (cases "statusDiffers X st (us_Status us)")
  case False
  with assms(3) show ?thesis by (auto simp: storeStatus_def Let_def thenA_def putL_def whenA_def bindA_def)
next
  case True
  let ?ob = "OUnitSet (us\<lparr>us_Status := st\<rparr>)"
  obtain c t where c: "kStatusUpdate K ?ob s = (c, t)" by fastforce
  have no: "\<not> statusEff ?ob x (view s) w" for x w using assms(1,2) by (auto simp: statusEff_def)
  then obtain e where e: "c = Inl e" using write_Inr [OF status_law] c by (cases c) blast+
  have "view t = view s" using writeLaw_eff [OF status_law c] no by blast
  with True c e assms(3) show ?thesis
    by (auto simp: storeStatus_def Let_def thenA_def putL_def whenA_def bindA_def liftW_def statusUpdate_def liftApi_def)
qed

lemma reconcileUnitsetStatus_stale:
  assumes "view s (keyOf (OUnitSet us)) = Some (OUnitSet cur)" and "\<not> versionOk (us_meta us) (us_meta cur)"
    and run: "reconcileUnitsetStatus K X (us, s) = (r, (us', s'))"
  shows "us_meta us' = us_meta us \<and> view s' = view s"
proof -
  obtain a t where a: "unitsBelongUnitset K us s = (a, t)" by fastforce
  obtain b w where b: "listServiceBelongUnitset K us t = (b, w)" by fastforce
  have v: "view t = view s" "view w = view t"
    using keepsD' [OF keeps_unitsBelong_view [of "\<lambda>v. v = view s"] refl a]
      keepsD' [OF keeps_listServiceBelong [of "\<lambda>v. v = view t"] refl b] .
  obtain ks base where ks: "statusListed (kNow K w) a (us_Status us) = (ks, base)" by fastforce
  obtain xs base' where xs: "statusListed (kNow K w) b base = (xs, base')" by fastforce
  have run': "bindA (liftE (unitsetStatus X (kNow K w) us base' ks xs)) (storeStatus K X us) (us, w) = (r, (us', s'))"
    using run by (simp add: reconcileUnitsetStatus_def bindA_def getL_def tryA_def liftW_def a b now_def ks xs)
  show ?thesis
  proof (cases "unitsetStatus X (kNow K w) us base' ks xs")
    case (Inl e)
    with run' v show ?thesis by (simp add: bindA_def)
  next
    case (Inr st)
    with run' have "storeStatus K X us st (us, w) = (r, (us', s'))" by (simp add: bindA_def)
    from storeStatus_stale [OF _ assms(2) this] assms(1) v show ?thesis by simp
  qed
qed

lemma retry_stale:
  assumes "view s (unitSetKey (Namespace (us_meta us)) (Name (us_meta us))) = Some (OUnitSet cur)" and "\<not> versionOk (us_meta us) (us_meta cur)"
    and "retryOnConflict n (reconcileUnitsetStatus K X) (us, s) = (r, (us', s'))"
  shows "view s' = view s"
  using assms
proof (induction n arbitrary: us s)
  case 0
  then show ?case using reconcileUnitsetStatus_stale [of s us cur X r us' s'] by simp
next
  case (Suc n)
  obtain q l t where q: "reconcileUnitsetStatus K X (us, s) = (q, (l, t))" by (metis prod.exhaust)
  from reconcileUnitsetStatus_stale [OF _ Suc.prems(2) q] Suc.prems(1) have l: "us_meta l = us_meta us" "view t = view s" by simp_all
  show ?case
  proof (cases "\<exists>e. q = Inl e \<and> IsConflict e")
    case True
    with q Suc.prems(3) have "retryOnConflict n (reconcileUnitsetStatus K X) (l, t) = (r, (us', s'))" by auto
    with Suc.IH [of t l] Suc.prems(1,2) l show ?thesis by simp
  next
    case False
    with q Suc.prems(3) have "s' = t" by (auto split: sum.splits if_splits)
    with l show ?thesis by simp
  qed
qed

end

text \<open>
  C33 (\<open>reconcileUnitsetStatus\<close> under \<open>retry.RetryOnConflict\<close>): a set in memory with another resource
  version than the stored one never gets its status stored, however often the function is retried; the
  server holds the same objects as before, whatever is reported. The set in memory is in this state
  after any of the patches of the services and of the node map, which do not refresh it.
\<close>

theorem stale_status_lost:
  assumes "kube_api K view wire"
    and "view s (unitSetKey (Namespace (us_meta us)) (Name (us_meta us))) = Some (OUnitSet cur)"
    and "ResourceVersion (us_meta us) \<noteq> []" and "ResourceVersion (us_meta us) \<noteq> ResourceVersion (us_meta cur)"
    and "retryOnConflict DefaultRetry (reconcileUnitsetStatus K X) (us, s) = (r, (us', s'))"
  shows "view s' = view s"
  using kube_api.retry_stale [OF assms(1,2) _ assms(5)] assms(3,4) by (simp add: versionOk_def)

text \<open>Success is reported although the status was not stored.\<close>

definition staleSet :: UnitSet where
  "staleSet = sampleSet\<lparr>us_meta := (us_meta sampleSet)\<lparr>ResourceVersion := ''1''\<rparr>\<rparr>"

definition staleCluster :: mem where
  "staleCluster = \<lparr>m_store = [OUnitSet (sampleSet\<lparr>us_meta := (us_meta sampleSet)\<lparr>ResourceVersion := ''2''\<rparr>\<rparr>), OUnit (sampleUnit sampleSet 0)],
     m_rv = 3, m_faults = []\<rparr>"

theorem stale_status_lost_witness:
  "\<exists>us' s'. retryOnConflict DefaultRetry (reconcileUnitsetStatus memKube plainExt) (staleSet, staleCluster) = (Inr (), (us', s')) \<and>
     s_Units (us_Status us') = 1 \<and> memView s' = memView staleCluster"
proof -
  let ?m = "retryOnConflict DefaultRetry (reconcileUnitsetStatus memKube plainExt) (staleSet, staleCluster)"
  have c: "fst ?m = Inr ()" "s_Units (us_Status (fst (snd ?m))) = 1" by code_simp+
  then have run: "?m = (Inr (), (fst (snd ?m), snd (snd ?m)))" by (metis prod.collapse)
  have v: "memView staleCluster (unitSetKey (Namespace (us_meta staleSet)) (Name (us_meta staleSet))) =
      Some (OUnitSet (sampleSet\<lparr>us_meta := (us_meta sampleSet)\<lparr>ResourceVersion := ''2''\<rparr>\<rparr>))" by code_simp
  have rv: "ResourceVersion (us_meta staleSet) = ''1''" by (simp add: staleSet_def)
  have "memView (snd (snd ?m)) = memView staleCluster"
    by (rule stale_status_lost [OF mem.kube_api_axioms v _ _ run]) (simp_all add: rv)
  with run c(2) show ?thesis by blast
qed

section \<open>The node map remembers where units run\<close>

lemma backfill_other:
  "n \<notin> u_Name ` set ks \<Longrightarrow> fmlookup (fold backfillNode ks m) n = fmlookup m n"
  by (induction ks arbitrary: m) (auto simp: backfillNode_def)

lemma backfill_flagged:
  "fmlookup m n = Some NoneSetFlag \<Longrightarrow> fmlookup (fold backfillNode ks m) n = Some NoneSetFlag"
  by (induction ks arbitrary: m) (auto simp: backfillNode_def)

lemma backfillNode_lookup:
  "fmlookup (backfillNode x m) n =
     (if n = u_Name x \<and> u_NodeName (u_Status x) \<noteq> [] \<and> fmlookup m n \<noteq> Some NoneSetFlag
      then Some (u_NodeName (u_Status x)) else fmlookup m n)"
  by (auto simp: backfillNode_def)

lemma backfill_node:
  assumes "distinct (map u_Name ks)" and "u \<in> set ks" and "fmlookup m (u_Name u) \<noteq> Some NoneSetFlag"
  shows "fmlookup (fold backfillNode ks m) (u_Name u) =
    (if u_NodeName (u_Status u) = [] then fmlookup m (u_Name u) else Some (u_NodeName (u_Status u)))"
  using assms
proof (induction ks arbitrary: m)
  case (Cons x ks)
  show ?case
  proof (cases "u = x")
    case True
    with Cons.prems have "u_Name u \<notin> u_Name ` set ks" by auto
    with True Cons.prems(3) show ?thesis by (simp add: backfill_other backfillNode_lookup)
  next
    case False
    with Cons.prems have "u \<in> set ks" by simp
    moreover from this have "u_Name u \<noteq> u_Name x" using Cons.prems(1) by (auto simp: image_iff)
    ultimately show ?thesis using Cons by (simp add: backfillNode_lookup)
  qed
qed simp

lemma nodeMap_roundtrip:
  assumes "ext_json X" and "asciiMap m" and "jsonMarshalMap X m = [] \<Longrightarrow> m = fmempty"
  shows "getNodeNameMapFromAnnotations X (setNodeNameMapToAnnotations X us m) = m"
  using assms ext_json.json_roundtrip [OF assms(1,2)]
  by (auto simp: getNodeNameMapFromAnnotations_def setNodeNameMapToAnnotations_def)

context kube_api
begin

lemma patchUnitset_run:
  assumes "unitsBelongUnitset K us s = (Inr ks, t)" and "ks \<noteq> []"
    and "reconcilePatchUnitset K X (us, s) = (Inr (), (us', s'))"
  shows "us' = setNodeNameMapToAnnotations X us (fold backfillNode ks (getNodeNameMapFromAnnotations X us))"
proof -
  let ?new = "setNodeNameMapToAnnotations X us (fold backfillNode ks (getNodeNameMapFromAnnotations X us))"
  have keep: "fst (snd (ignoreErr (liftW m) p)) = fst p" for m :: "('a, 'b) act" and p :: "'c \<times> 'a"
    by (auto simp: ignoreErr_def tryA_def liftW_def split: prod.split sum.split)
  have units: "liftW (unitsBelongUnitset K us) (us, s) = (Inr ks, (us, t))" by (simp add: liftW_def assms(1))
  have "fst (snd (reconcilePatchUnitset K X (us, s))) = ?new"
    using assms(2) by (simp add: reconcilePatchUnitset_def bindA_def getL_def mapErr_def units Let_def thenA_def putL_def whenA_def keep)
  with assms(3) show ?thesis by simp
qed

end


text \<open>A set with a unit on a node.\<close>

definition placedUnit :: Unit where
  "placedUnit = (sampleUnit sampleSet 0)\<lparr>u_Status := unitStatus0\<lparr>u_NodeName := ''node-a''\<rparr>\<rparr>"

definition placedCluster :: mem where
  "placedCluster = \<lparr>m_store = [OUnitSet sampleSet, OUnit placedUnit], m_rv = 1, m_faults = []\<rparr>"


end
