(* ===== verification/Finalizing.thy ===== *)
theory Finalizing
  imports MemKube
begin

text \<open>
  Deletion through finalizers, shared by the controllers of Unit and UnitSet (\<open>unit_delete.go\<close>,
  \<open>unitset_delete.go\<close>): one goroutine per finalizer deletes what the finalizer stands for, waits
  until it is gone, removes the finalizer from the in-memory object and updates it. The goroutines
  share that object, and an update overwrites it with the server's answer; it is the local state of the
  fan-out. The locale \<open>guarded_object\<close> states what an object owes this scheme, and the locale
  \<open>guarded_run\<close> derives, once for both controllers, that a finalizer only disappears after what it
  guards is gone.
\<close>

section \<open>Operations\<close>

definition withoutFinalizer :: "ext \<Rightarrow> string \<Rightarrow> obj \<Rightarrow> obj" where
  "withoutFinalizer X finalizer = withMeta (\<lambda>m. RemoveFinalizer X m finalizer)"

text \<open>\<open>if ContainsFinalizer(o, f) { RemoveFinalizer(o, f); r.Update(ctx, o) }\<close>\<close>

definition dropFinalizer :: "'s kube \<Rightarrow> ext \<Rightarrow> string \<Rightarrow> string \<Rightarrow> (obj \<times> 's, unit) act" where
  "dropFinalizer K X msg finalizer =
     bindA getL (\<lambda>ob.
       if ContainsFinalizer X (objMeta ob) finalizer
       then thenA (putL (withoutFinalizer X finalizer ob))
              (bindA (mapErr (Fmt msg) (liftW (updateObj K (withoutFinalizer X finalizer ob)))) putL)
       else ret ())"

text \<open>A delete that finds nothing has succeeded.\<close>

definition deleteIgnoreAbsent :: "('s, unit) act \<Rightarrow> string \<Rightarrow> ('s, unit) act" where
  "deleteIgnoreAbsent del msg =
     tryA del (\<lambda>r. case r of
        Inl e \<Rightarrow> if IsNotFound e then ret () else fail (Fmt msg e)
      | Inr _ \<Rightarrow> ret ())"

text \<open>Polling until a read reports that the object does not exist.\<close>

definition waitGone :: "nat \<Rightarrow> ('s, 'a) act \<Rightarrow> string \<Rightarrow> ('s, unit) act" where
  "waitGone n get msg =
     pollUntil n (tryA get (\<lambda>r. case r of
          Inl e \<Rightarrow> if IsNotFound e then ret True else fail (Fmt msg e)
        | Inr _ \<Rightarrow> ret False))"

text \<open>The fan-out over the finalizers of an object in deletion.\<close>

definition runFinalizers ::
  "'s kube \<Rightarrow> string \<Rightarrow> (string \<Rightarrow> (obj \<times> 's, unit) act) \<Rightarrow> obj \<Rightarrow> ('s, unit) act" where
  "runFinalizers K msg handler ob =
     mapErr (Fmt msg)
       (bindA (withLocal ob (goAllL K (Finalizers (objMeta ob)) handler)) (\<lambda>_. ret ()))"

lemma deleteEff_at:
  assumes "deleteEff k v v'"
  shows "v' k' = v k' \<or> v' k' = None \<or> (\<exists>old t r g. v k' = Some old \<and>
    v' k' = Some (withMeta (\<lambda>m. m\<lparr>DeletionTimestamp := Some t, ResourceVersion := r, Generation := g\<rparr>) old))"
proof -
  let ?mark = "\<lambda>t r g. withMeta (\<lambda>m. m\<lparr>DeletionTimestamp := Some t, ResourceVersion := r, Generation := g\<rparr>)"
  from assms obtain old where old: "v k = Some old" and e: "v' = v(k := None) \<or> (\<exists>t r g. v' = v(k \<mapsto> ?mark t r g old))"
    unfolding deleteEff_def by blast
  show ?thesis
  proof (cases "k' = k")
    case True
    from e show ?thesis
    proof (elim disjE exE)
      fix t r g assume "v' = v(k \<mapsto> ?mark t r g old)"
      with True have "v' k' = Some (?mark t r g old)" by simp
      with old True show ?thesis by blast
    qed (simp add: True)
  qed (use e in auto)
qed

lemma absent_delete: "v k' = None \<Longrightarrow> deleteEff k v v' \<Longrightarrow> v' k' = None"
  using deleteEff_at [of k v v' k'] by auto

lemma keeps_deleteIgnoreAbsent:
  "keeps I del \<Longrightarrow> keeps I (deleteIgnoreAbsent del msg)"
  unfolding deleteIgnoreAbsent_def by (rule keeps_tryA) (auto simp: keeps_ret keeps_fail split: sum.split)

context kube_api
begin

lemma waitGone_gone:
  assumes ro: "\<And>v. triple (\<lambda>s. view s = v) get (\<lambda>_ s. view s = v) (\<lambda>e s. view s = v \<and> (IsNotFound e \<longrightarrow> v k = None))"
  shows "triple (\<lambda>s. view s = v) (waitGone n get msg) (\<lambda>_ s. view s = v \<and> v k = None) (\<lambda>_ s. view s = v)"
proof -
  let ?c = "tryA get (\<lambda>r. case r of
          Inl e \<Rightarrow> if IsNotFound e then ret True else fail (Fmt msg e) | Inr _ \<Rightarrow> ret False)"
  have "triple (\<lambda>s. view s = v) ?c (\<lambda>b s. view s = v \<and> (b \<longrightarrow> v k = None)) (\<lambda>_ s. view s = v)"
  proof (rule tripleI)
    fix s b s' assume s: "view s = v" and c: "?c s = (Inr b, s')"
    obtain r t where g: "get s = (r, t)" by fastforce
    show "view s' = v \<and> (b \<longrightarrow> v k = None)"
      using g c tripleD_Inr [OF ro s, of _ t] tripleD_Inl [OF ro s, of _ t] by (cases r) (auto simp: tryA_def split: if_splits)
  next
    fix s e s' assume s: "view s = v" and c: "?c s = (Inl e, s')"
    obtain r t where g: "get s = (r, t)" by fastforce
    show "view s' = v"
      using g c tripleD_Inl [OF ro s, of _ t] by (cases r) (auto simp: tryA_def split: if_splits)
  qed
  from triple_poll [OF this] show ?thesis unfolding waitGone_def by simp
qed

lemma goAll_finds:
  assumes "\<And>x v. x \<in> set xs \<Longrightarrow> triple (\<lambda>s. view s = v) (f x) (\<lambda>_ s. view s = v \<and> Q x v) (\<lambda>_ s. view s = v)"
  shows "triple (\<lambda>s. P (view s)) (goAll K xs f) (\<lambda>_ s. P (view s) \<and> (\<forall>x \<in> set xs. Q x (view s))) (\<lambda>_ s. P (view s))"
proof (rule triple_readonly [where h = view and R = "\<lambda>_ v. \<forall>x \<in> set xs. Q x v"])
  fix v
  show "triple (\<lambda>s. view s = v) (goAll K xs f) (\<lambda>_ s. view s = v \<and> (\<forall>x \<in> set xs. Q x v)) (\<lambda>_ s. view s = v)"
    unfolding goAll_def
  proof (rule triple_bindA)
    show "triple (\<lambda>s. view s = v) (shuffled K xs) (\<lambda>ys s. view s = v \<and> set ys = set xs) (\<lambda>_ s. view s = v)"
    proof (rule tripleI)
      fix s ys s' assume "view s = v" and ys: "shuffled K xs s = (Inr ys, s')"
      then have "view s' = v" by (rule keepsD' [OF keeps_shuffled [of "\<lambda>w. w = v" xs]])
      with shuffled_subset [OF ys] show "view s' = v \<and> set ys = set xs" by blast
    next
      fix s e s' assume "view s = v" and "shuffled K xs s = (Inl e, s')"
      then show "view s' = v" by (rule keepsD' [OF keeps_shuffled [of "\<lambda>w. w = v" xs]])
    qed
    show "triple (\<lambda>s. view s = v \<and> set ys = set xs) (forkJoin ys f)
        (\<lambda>_ s. view s = v \<and> (\<forall>x \<in> set xs. Q x v)) (\<lambda>_ s. view s = v)" for ys
      using triple_forkJoin [of ys "\<lambda>s. view s = v" f "\<lambda>x. Q x v"] assms
      by (cases "set ys = set xs") (auto simp: triple_def)
  qed
qed

end

section \<open>The contract of an object in deletion\<close>

definition finalizersOf :: "obj option \<Rightarrow> string set" where
  "finalizersOf o' = (case o' of None \<Rightarrow> {} | Some ob \<Rightarrow> set (Finalizers (objMeta ob)))"

text \<open>
  \<open>ident\<close> says that a version of the object is still the one being deleted (its key and the parts of
  its spec the handlers use), \<open>fins\<close> are its finalizers at the start, and \<open>cleaned f v\<close> says that
  what \<open>f\<close> stands for is gone.
\<close>

locale guarded_object =
  fixes ident :: "obj \<Rightarrow> bool" and key :: okey and fins :: "string set"
    and cleaned :: "string \<Rightarrow> objview \<Rightarrow> bool" and wire :: "UnitSpec \<Rightarrow> UnitSpec"
  assumes ident_key: "ident ob \<Longrightarrow> keyOf ob = key"
    and ident_fins: "ident ob \<Longrightarrow> ident (withMeta (\<lambda>m. m\<lparr>Finalizers := fs\<rparr>) ob)"
    and ident_stored: "ident ob \<Longrightarrow> updStored wire old ob ob' \<Longrightarrow> keyOf old = key \<Longrightarrow> keyOf ob' = key \<Longrightarrow>
      DeletionTimestamp (objMeta old) \<noteq> None \<Longrightarrow> ident ob' \<and> Finalizers (objMeta ob') = Finalizers (objMeta ob)"
    and cleaned_own: "cleaned f v \<Longrightarrow> (\<And>k. k \<noteq> key \<Longrightarrow> v' k = v k) \<Longrightarrow>
      (\<And>ob. v' key = Some ob \<Longrightarrow> keyOf ob = key) \<Longrightarrow> cleaned f v'"
    and cleaned_delete: "cleaned f v \<Longrightarrow> deleteEff k v v' \<Longrightarrow> cleaned f v'"
begin

text \<open>
  The invariant of the goroutines: a finalizer missing from the shared object or from the stored one
  stands for something that is gone.
\<close>

definition finInv :: "obj \<Rightarrow> objview \<Rightarrow> bool" where
  "finInv l v \<longleftrightarrow> ident l \<and>
     (\<forall>f \<in> fins. (f \<notin> set (Finalizers (objMeta l)) \<longrightarrow> cleaned f v) \<and> (f \<notin> finalizersOf (v key) \<longrightarrow> cleaned f v)) \<and>
     (\<forall>ob. v key = Some ob \<longrightarrow> DeletionTimestamp (objMeta ob) \<noteq> None)"

lemma finInv_delete:
  assumes "finInv l v" and "deleteEff k v v'" and "k \<noteq> key"
  shows "finInv l v'"
  using assms eff_frames(4) [OF assms(2), of key] cleaned_delete [OF _ assms(2)] by (simp add: finInv_def)

lemma finInv_update:
  assumes inv: "finInv l v" and eff: "updateEff wire l ob v v'"
    and keyed: "\<And>k ob. v k = Some ob \<Longrightarrow> keyOf ob = k"
  shows "finInv l v'" and "finInv ob v'"
proof -
  from inv have k: "keyOf l = key" by (simp add: finInv_def ident_key)
  from eff k obtain old where old: "v key = Some old" "keyOf ob = key" "updStored wire old l ob"
      "DeletionTimestamp (objMeta ob) = DeletionTimestamp (objMeta old)"
      "v' = (if DeletionTimestamp (objMeta old) \<noteq> None \<and> Finalizers (objMeta ob) = [] then v(key := None) else v(key \<mapsto> ob))"
    unfolding updateEff_def by auto
  from old(1) inv have d: "DeletionTimestamp (objMeta old) \<noteq> None" by (simp add: finInv_def)
  from inv have "ident l" by (simp add: finInv_def)
  from ident_stored [OF this old(3) keyed [OF old(1)] old(2) d]
  have st: "ident ob" "Finalizers (objMeta ob) = Finalizers (objMeta l)" by auto
  have cl: "cleaned f v'" if "cleaned f v" for f
    by (rule cleaned_own [OF that]) (auto simp: old(5) old(2) split: if_splits)
  have "finalizersOf (v' key) = set (Finalizers (objMeta l))"
    by (auto simp: old(5) st finalizersOf_def d)
  moreover have "v' key = Some ob' \<Longrightarrow> DeletionTimestamp (objMeta ob') \<noteq> None" for ob'
    using d old(4) by (auto simp: old(5) split: if_splits)
  ultimately show "finInv l v'" and "finInv ob v'" using inv cl st by (auto simp: finInv_def)
qed

lemma finInv_without:
  assumes "ext_laws X" and "finInv l v" and "cleaned f v"
  shows "finInv (withoutFinalizer X f l) v"
proof -
  have "withoutFinalizer X f l = withMeta (\<lambda>m. m\<lparr>Finalizers := filter (\<lambda>g. g \<noteq> f) (Finalizers (objMeta l))\<rparr>) l"
    unfolding withoutFinalizer_def ext_laws.RemoveFinalizer [OF assms(1)] by (rule withMeta_cong) simp
  with assms ident_fins [of l] show ?thesis by (auto simp: finInv_def)
qed

end

locale guarded_run = kube_api K view wire + guarded_object ident key fins cleaned wire + ext_laws X
  for K :: "'s kube" and view wire ident key fins cleaned X
begin

abbreviation guardI :: "obj \<times> 's \<Rightarrow> bool" where
  "guardI p \<equiv> finInv (fst p) (view (snd p))"

lemma keeps_guarded_delete:
  assumes "k \<noteq> key"
  shows "keeps (\<lambda>s. finInv l (view s)) (deleteObj K k)" and "keeps (\<lambda>s. finInv l (view s)) (forceDeleteObj K k)"
  unfolding deleteObj_def forceDeleteObj_def
  by (rule keeps_liftApi; metis writeLaw_eff [OF delete_law] finInv_delete assms)+

lemma triple_dropFinalizer:
  "triple (\<lambda>p. guardI p \<and> cleaned f (view (snd p))) (dropFinalizer K X msg f) (\<lambda>_. guardI) (\<lambda>_. guardI)"
proof -
  have main: "guardI (snd (dropFinalizer K X msg f p))" if p: "guardI p \<and> cleaned f (view (snd p))" for p
  proof -
    let ?l = "withoutFinalizer X f (fst p)"
    have inv: "finInv ?l (view (snd p))" using finInv_without [OF ext_laws_axioms] p by blast
    obtain r t where u: "kUpdate K ?l (snd p) = (r, t)" by fastforce
    have invt: "finInv ?l (view t)"
      using writeLaw_eff [OF update_law u] finInv_update(1) [OF inv] view_key inv by metis
    have ans: "finInv ob (view t)" if "r = Inr ob" for ob
    proof -
      have "updateEff wire ?l ob (view (snd p)) (view t)"
        using update_law u that unfolding writeLaw_def by blast
      from finInv_update(2) [OF inv this view_key] show ?thesis .
    qed
    show ?thesis
      using p invt ans u
      by (cases r)
        (auto simp: dropFinalizer_def bindA_def thenA_def getL_def putL_def mapErr_def liftW_def updateObj_def liftApi_def)
  qed
  show ?thesis by (rule tripleI) (use main in \<open>metis snd_conv\<close>)+
qed

text \<open>An action on the world under the invariant, with the shared object fixed.\<close>

lemma guard_lift:
  assumes "\<And>l. triple (\<lambda>s. finInv l (view s)) m (\<lambda>x s. finInv l (view s) \<and> R x (view s)) (\<lambda>_ s. finInv l (view s))"
  shows "triple guardI (mapErr g (liftW m)) (\<lambda>x p. guardI p \<and> R x (view (snd p))) (\<lambda>_. guardI)"
  by (rule triple_mapErr, rule triple_liftW) (use assms in simp)

lemma keeps_guard_lift:
  "(\<And>l. keeps (\<lambda>s. finInv l (view s)) m) \<Longrightarrow> keeps guardI (liftW m)"
  by (rule triple_liftW) simp

lemma runFinalizers_inv:
  assumes "\<And>f. f \<in> set (Finalizers (objMeta ob)) \<Longrightarrow> keeps guardI (handler f)" and inv: "finInv ob (view s)"
  shows "\<exists>l. finInv l (view (snd (runFinalizers K msg handler ob s)))"
proof -
  have "keeps guardI (goAllL K (Finalizers (objMeta ob)) handler)"
    unfolding goAllL_def
  proof (rule triple_bindA)
    show "triple guardI (liftW (shuffled K xs)) (\<lambda>ys p. guardI p \<and> set ys = set xs) (\<lambda>_. guardI)" for xs :: "string list"
      by (rule triple_liftW, rule tripleI)
        (auto dest: shuffled_subset keepsD' [OF keeps_shuffled [of "finInv l" for l]])
    show "triple (\<lambda>p. guardI p \<and> set ys = set (Finalizers (objMeta ob))) (forkJoin ys handler) (\<lambda>_. guardI) (\<lambda>_. guardI)" for ys
    proof (cases "set ys = set (Finalizers (objMeta ob))")
      case True
      with assms(1) have "keeps guardI (forkJoin ys handler)" by (intro keeps_forkJoin) simp
      then show ?thesis by (rule triple_pre) simp
    qed (simp add: triple_def)
  qed
  from keepsD [OF this, of "(ob, s)"] inv
  have "guardI (snd (goAllL K (Finalizers (objMeta ob)) handler (ob, s)))" by simp
  then show ?thesis
    by (cases "goAllL K (Finalizers (objMeta ob)) handler (ob, s)")
      (auto simp: runFinalizers_def withLocal_def bindA_def mapErr_def split: sum.split prod.split)
qed

text \<open>
  The result: when every handler keeps the invariant, a finalizer missing from the stored object
  afterwards stands for something that is gone.
\<close>

lemma runFinalizers_guard:
  assumes "\<And>f. f \<in> set (Finalizers (objMeta ob)) \<Longrightarrow> keeps guardI (handler f)"
    and "ident ob" "fins = set (Finalizers (objMeta ob))" "view s key = Some ob" "DeletionTimestamp (objMeta ob) \<noteq> None"
    and f: "f \<in> fins" "f \<notin> finalizersOf (view (snd (runFinalizers K msg handler ob s)) key)"
  shows "cleaned f (view (snd (runFinalizers K msg handler ob s)))"
proof -
  have "finInv ob (view s)" unfolding finInv_def using assms(2-5) by (auto simp: finalizersOf_def)
  then obtain l where "finInv l (view (snd (runFinalizers K msg handler ob s)))"
    using runFinalizers_inv [of ob handler s msg] assms(1) by blast
  with f show ?thesis by (simp add: finInv_def)
qed

end

end
