(* ===== verification/UnitSetDelete.thy ===== *)
theory UnitSetDelete
  imports SpecSync Finalizing
begin

text \<open>
  Deleting a UnitSet (\<open>unitset_delete.go\<close> and the deletion branch of \<open>reconcileUnitset\<close>). The
  units and the config maps of the set are what its two finalizers guard; the interpretation of
  \<open>guarded_object\<close> at the end gives the guarantee.
\<close>

section \<open>Operations\<close>

text \<open>The UnitSet all goroutines point to.\<close>

definition sharedUnitSet :: "(obj \<times> 's, UnitSet) act" where
  "sharedUnitSet = bindA getL (\<lambda>ob. case asUnitSet ob of Some us \<Rightarrow> ret us | None \<Rightarrow> fail (Msg ''unexpected kind''))"

definition deleteUnitWithFinalizer :: "'s kube \<Rightarrow> ext \<Rightarrow> string \<Rightarrow> (obj \<times> 's, unit) act" where
  "deleteUnitWithFinalizer K X finalizer =
     bindA sharedUnitSet (\<lambda>unitset.
     bindA (mapErr (Fmt ''[deleteUnitWithFinalizer] error getting units'') (liftW (unitsBelongUnitset K unitset))) (\<lambda>kUnits.
       if kUnits = [] then dropFinalizer K X ''[deleteUnitWithFinalizer] error removing finalizer'' finalizer
       else
         thenA (liftW (forEach kUnits (\<lambda>one.
                  deleteIgnoreAbsent (deleteObj K (keyOf (OUnit one))) ''[deleteUnitWithFinalizer] error deleting unit'')))
         (thenA (mapErr (Fmt ''error waiting for units deleted'') (liftW (pollUntil (kPolls K 2000 28000)
                   (bindA (mapErr (Fmt ''wait for units deleted: error getting units'') (unitsBelongUnitset K unitset))
                     (\<lambda>ks. ret (ks = []))))))
           (dropFinalizer K X ''[deleteUnitWithFinalizer] error removing finalizer'' finalizer))))"

definition configmapNames :: "UnitSet \<Rightarrow> string list" where
  "configmapNames unitset =
     filter (\<lambda>n. n \<noteq> []) (ConfigTemplateName unitset # map (ConfigValueName unitset) (unitNames unitset))"

definition deleteConfigMapWithFinalizer :: "'s kube \<Rightarrow> ext \<Rightarrow> string \<Rightarrow> (obj \<times> 's, unit) act" where
  "deleteConfigMapWithFinalizer K X finalizer =
     bindA sharedUnitSet (\<lambda>unitset.
     thenA (mapErr (Fmt ''[deleteConfigMapWithFinalizer] error deleting configmap'')
             (liftW (goAll K (configmapNames unitset) (\<lambda>n.
                deleteIgnoreAbsent (deleteObj K (KConfigMap, Namespace (us_meta unitset), n)) ''error deleting configmap''))))
     (thenA (mapErr (Fmt ''[deleteConfigMapWithFinalizer] error waiting for configmap deleted'')
             (liftW (goAll K (configmapNames unitset) (\<lambda>n.
                waitGone (kPolls K 200 10000) (getConfigMap K (Namespace (us_meta unitset)) n)
                  ''error waiting for configmap deleted''))))
       (dropFinalizer K X ''[deleteConfigMapWithFinalizer] error removing finalizer'' finalizer)))"

definition deleteResources :: "'s kube \<Rightarrow> ext \<Rightarrow> string \<Rightarrow> (obj \<times> 's, unit) act" where
  "deleteResources K X finalizer =
     (if finalizer = FinalizerUnitDelete then deleteUnitWithFinalizer K X finalizer
      else if finalizer = FinalizerConfigMapDelete then deleteConfigMapWithFinalizer K X finalizer
      else ret ())"

text \<open>The branch of \<open>reconcileUnitset\<close> for an object in deletion.\<close>

definition deleteUnitset :: "'s kube \<Rightarrow> ext \<Rightarrow> UnitSet \<Rightarrow> ('s, unit) act" where
  "deleteUnitset K X unitset = runFinalizers K ''UNITSET DELETING'' (deleteResources K X) (OUnitSet unitset)"

section \<open>A finalizer goes only after what it guards\<close>

definition noUnits :: "UnitSet \<Rightarrow> objview \<Rightarrow> bool" where
  "noUnits us v \<longleftrightarrow> (\<forall>k u. v k = Some (OUnit u) \<longrightarrow> \<not> inSet us u)"

definition noConfigmaps :: "UnitSet \<Rightarrow> objview \<Rightarrow> bool" where
  "noConfigmaps us v \<longleftrightarrow> (\<forall>n \<in> set (configmapNames us). v (KConfigMap, Namespace (us_meta us), n) = None)"

text \<open>What a finalizer stands for; nothing is known of another controller's finalizer.\<close>

definition setCleaned :: "UnitSet \<Rightarrow> string \<Rightarrow> objview \<Rightarrow> bool" where
  "setCleaned us f v \<longleftrightarrow>
     (if f = FinalizerUnitDelete then noUnits us v
      else if f = FinalizerConfigMapDelete then noConfigmaps us v else False)"

definition sameSet :: "UnitSet \<Rightarrow> obj \<Rightarrow> bool" where
  "sameSet us ob \<longleftrightarrow> (case asUnitSet ob of None \<Rightarrow> False | Some l \<Rightarrow>
     us_Name l = us_Name us \<and> Namespace (us_meta l) = Namespace (us_meta us) \<and> Units (us_Spec l) = Units (us_Spec us))"

lemma setCleaned_simps [simp]:
  "setCleaned us FinalizerUnitDelete v = noUnits us v" "setCleaned us FinalizerConfigMapDelete v = noConfigmaps us v"
  by (simp_all add: setCleaned_def const_defs)

lemma sameSetE:
  assumes "sameSet us ob"
  obtains l where "ob = OUnitSet l" "us_Name l = us_Name us" "Namespace (us_meta l) = Namespace (us_meta us)"
    "Units (us_Spec l) = Units (us_Spec us)"
  using assms by (auto simp: sameSet_def split: option.splits)

lemma inSet_cong: "us_Name l = us_Name us \<Longrightarrow> Namespace (us_meta l) = Namespace (us_meta us) \<Longrightarrow> inSet l = inSet us"
  by (rule ext) (simp add: inSet_def)

lemma configmapNames_cong:
  "us_Name l = us_Name us \<Longrightarrow> Units (us_Spec l) = Units (us_Spec us) \<Longrightarrow> configmapNames l = configmapNames us"
  by (simp add: configmapNames_def ConfigTemplateName_def ConfigValueName_def unitNames_eq unitNameAt_def [abs_def])

lemma noUnits_delete:
  assumes n: "noUnits us v" and "deleteEff k v v'"
  shows "noUnits us v'"
  unfolding noUnits_def
proof (intro allI impI)
  fix k' u assume u: "v' k' = Some (OUnit u)"
  from deleteEff_at [OF assms(2), of k'] u consider "v k' = Some (OUnit u)" |
    old t r g where "v k' = Some old"
      "OUnit u = withMeta (\<lambda>m. m\<lparr>DeletionTimestamp := Some t, ResourceVersion := r, Generation := g\<rparr>) old" by auto
  then show "\<not> inSet us u"
  proof cases
    case 2
    then obtain w where w: "old = OUnit w" by (cases old) auto
    with 2(1) n have "\<not> inSet us w" unfolding noUnits_def by blast
    with 2(2) w show ?thesis by (simp add: inSet_def)
  qed (use n in \<open>unfold noUnits_def, blast\<close>)
qed

interpretation set_guard: guarded_object "sameSet us" "unitSetKey (Namespace (us_meta us)) (us_Name us)"
  "set (Finalizers (us_meta us))" "setCleaned us" wire for us wire
proof
  fix ob show "sameSet us ob \<Longrightarrow> keyOf ob = unitSetKey (Namespace (us_meta us)) (us_Name us)"
    by (auto elim!: sameSetE simp: us_Name_def)
  show "sameSet us ob \<Longrightarrow> sameSet us (withMeta (\<lambda>m. m\<lparr>Finalizers := fs\<rparr>) ob)" for fs
    by (cases ob) (simp_all add: sameSet_def us_Name_def asUnitSet_def)
next
  fix ob old ob'
  assume "sameSet us ob" and st: "updStored wire old ob ob'" and k: "keyOf old = unitSetKey (Namespace (us_meta us)) (us_Name us)"
    "keyOf ob' = unitSetKey (Namespace (us_meta us)) (us_Name us)" and d: "DeletionTimestamp (objMeta old) \<noteq> None"
  from this(1) obtain l where l: "ob = OUnitSet l" "us_Name l = us_Name us" "Namespace (us_meta l) = Namespace (us_meta us)"
    "Units (us_Spec l) = Units (us_Spec us)" by (rule sameSetE)
  from k obtain a b where ab: "old = OUnitSet a" "ob' = OUnitSet b" by (cases old; cases ob') (auto simp: keyOf_def)
  with st d l show "sameSet us ob' \<and> Finalizers (objMeta ob') = Finalizers (objMeta ob)"
    by (auto simp: sameSet_def metaEq_def us_Name_def asUnitSet_def)
next
  fix f v v' assume c: "setCleaned us f v" and o: "\<And>k. k \<noteq> unitSetKey (Namespace (us_meta us)) (us_Name us) \<Longrightarrow> v' k = v k"
    and k: "\<And>ob. v' (unitSetKey (Namespace (us_meta us)) (us_Name us)) = Some ob \<Longrightarrow>
      keyOf ob = unitSetKey (Namespace (us_meta us)) (us_Name us)"
  have "v' (unitSetKey (Namespace (us_meta us)) (us_Name us)) \<noteq> Some (OUnit u)" for u using k by force
  with o have "noUnits us v \<Longrightarrow> noUnits us v'" unfolding noUnits_def by metis
  moreover have "noConfigmaps us v \<Longrightarrow> noConfigmaps us v'" unfolding noConfigmaps_def using o by auto
  ultimately show "setCleaned us f v'" using c by (auto simp: setCleaned_def split: if_splits)
next
  fix f v k v' assume "setCleaned us f v" "deleteEff k v v'"
  then show "setCleaned us f v'"
    using noUnits_delete [of us v k v'] absent_delete [of v _ k v']
    by (auto simp: setCleaned_def noConfigmaps_def split: if_splits)
qed

locale set_deletion = kube_api K view wire + ext_laws X for K :: "'s kube" and view wire X +
  fixes us :: UnitSet

sublocale set_deletion \<subseteq> gr: guarded_run K view wire "sameSet us" "unitSetKey (Namespace (us_meta us)) (us_Name us)"
  "set (Finalizers (us_meta us))" "setCleaned us" X
  by unfold_locales

context set_deletion
begin

lemma triple_sharedUnitSet:
  assumes "\<And>l. us_Name l = us_Name us \<Longrightarrow> Namespace (us_meta l) = Namespace (us_meta us) \<Longrightarrow>
    Units (us_Spec l) = Units (us_Spec us) \<Longrightarrow> keeps gr.guardI (f l)"
  shows "keeps gr.guardI (bindA sharedUnitSet f)"
proof (rule keepsI)
  fix p assume p: "gr.guardI p"
  then obtain l where "fst p = OUnitSet l" "us_Name l = us_Name us" "Namespace (us_meta l) = Namespace (us_meta us)"
    "Units (us_Spec l) = Units (us_Spec us)" by (auto simp: gr.finInv_def elim: sameSetE)
  with keepsD [OF assms p] show "gr.guardI (snd (bindA sharedUnitSet f p))"
    by (simp add: sharedUnitSet_def bindA_def getL_def asUnitSet_def)
qed

lemma unitsBelong_triple:
  assumes "us_Name l = us_Name us" "Namespace (us_meta l) = Namespace (us_meta us)"
  shows "triple (\<lambda>s. P (view s)) (unitsBelongUnitset K l)
    (\<lambda>ks s. P (view s) \<and> (ks = [] \<longrightarrow> noUnits us (view s))) (\<lambda>_ s. P (view s))"
proof (rule triple_readonly [where h = view and R = "\<lambda>ks v. ks = [] \<longrightarrow> noUnits us v"], rule tripleI)
  fix v s ks s' assume v: "view s = v" and ks: "unitsBelongUnitset K l s = (Inr ks, s')"
  have "noUnits us v" if "ks = []"
    unfolding noUnits_def
  proof (intro allI impI)
    fix k u assume u: "v k = Some (OUnit u)"
    with v have "keyOf (OUnit u) = k" using view_key by blast
    with unitsBelong_Inr(1) [OF ks, of u] u v that show "\<not> inSet us u" by (simp add: inSet_cong [OF assms])
  qed
  with unitsBelong_Inr(2) [OF ks] v show "view s' = v \<and> (ks = [] \<longrightarrow> noUnits us v)" by simp
next
  fix v s e s' assume "view s = v" and u: "unitsBelongUnitset K l s = (Inl e, s')"
  moreover have "view s' = view s" by (rule ext) (use frame_apply [OF keeps_unitsBelong, of _ "{}" l s] u in simp)
  ultimately show "view s' = v" by simp
qed

lemma keeps_deleteUnits: "keeps gr.guardI (deleteUnitWithFinalizer K X FinalizerUnitDelete)"
  unfolding deleteUnitWithFinalizer_def
proof (rule triple_sharedUnitSet)
  fix l assume l: "us_Name l = us_Name us" "Namespace (us_meta l) = Namespace (us_meta us)"
  let ?drop = "dropFinalizer K X ''[deleteUnitWithFinalizer] error removing finalizer'' FinalizerUnitDelete"
  let ?C = "\<lambda>p. gr.guardI p \<and> setCleaned us FinalizerUnitDelete (view (snd p))"
  note list = unitsBelong_triple [OF l]
  have poll: "triple gr.guardI (mapErr g (liftW (pollUntil n (bindA (mapErr h (unitsBelongUnitset K l)) (\<lambda>ks. ret (ks = []))))))
      (\<lambda>_. ?C) (\<lambda>_. gr.guardI)" for g h n
  proof (rule gr.guard_lift [where R = "\<lambda>_. setCleaned us FinalizerUnitDelete"])
    fix ob
    have "triple (\<lambda>s. gr.finInv ob (view s)) (bindA (mapErr h (unitsBelongUnitset K l)) (\<lambda>ks. ret (ks = [])))
        (\<lambda>b s. gr.finInv ob (view s) \<and> (b \<longrightarrow> setCleaned us FinalizerUnitDelete (view s))) (\<lambda>_ s. gr.finInv ob (view s))"
      by (rule triple_bindA [OF triple_mapErr [OF list]]) (auto simp: triple_def)
    from triple_poll [OF this]
    show "triple (\<lambda>s. gr.finInv ob (view s)) (pollUntil n (bindA (mapErr h (unitsBelongUnitset K l)) (\<lambda>ks. ret (ks = []))))
        (\<lambda>_ s. gr.finInv ob (view s) \<and> setCleaned us FinalizerUnitDelete (view s)) (\<lambda>_ s. gr.finInv ob (view s))" .
  qed
  have del: "keeps gr.guardI (liftW (forEach ks (\<lambda>one. deleteIgnoreAbsent (deleteObj K (keyOf (OUnit one))) msg)))" for ks msg
    by (intro gr.keeps_guard_lift keeps_forEach keeps_deleteIgnoreAbsent gr.keeps_guarded_delete) simp
  show "keeps gr.guardI (bindA (mapErr (Fmt ''[deleteUnitWithFinalizer] error getting units'') (liftW (unitsBelongUnitset K l)))
     (\<lambda>kUnits. if kUnits = [] then ?drop
       else thenA (liftW (forEach kUnits (\<lambda>one.
                  deleteIgnoreAbsent (deleteObj K (keyOf (OUnit one))) ''[deleteUnitWithFinalizer] error deleting unit'')))
         (thenA (mapErr (Fmt ''error waiting for units deleted'') (liftW (pollUntil (kPolls K 2000 28000)
                   (bindA (mapErr (Fmt ''wait for units deleted: error getting units'') (unitsBelongUnitset K l))
                     (\<lambda>ks. ret (ks = [])))))) ?drop)))"
  proof (rule triple_bindA [OF gr.guard_lift [OF list]], rule triple_if)
    show "triple (\<lambda>p. gr.guardI p \<and> (ks = [] \<longrightarrow> noUnits us (view (snd p)))) ?drop (\<lambda>_. gr.guardI) (\<lambda>_. gr.guardI)"
      if "ks = []" for ks :: "Unit list"
      by (rule triple_pre [OF gr.triple_dropFinalizer]) (simp add: that)
  qed (rule triple_thenA [OF triple_pre [OF del] triple_thenA [OF poll gr.triple_dropFinalizer]], simp)
qed

lemma keeps_deleteConfigmaps: "keeps gr.guardI (deleteConfigMapWithFinalizer K X FinalizerConfigMapDelete)"
  unfolding deleteConfigMapWithFinalizer_def
proof (rule triple_sharedUnitSet)
  fix l assume l: "us_Name l = us_Name us" "Namespace (us_meta l) = Namespace (us_meta us)" "Units (us_Spec l) = Units (us_Spec us)"
  let ?ns = "Namespace (us_meta us)"
  let ?wait = "\<lambda>n. waitGone (kPolls K 200 10000) (getConfigMap K ?ns n) ''error waiting for configmap deleted''"
  have del: "keeps gr.guardI (liftW (goAll K xs (\<lambda>n. deleteIgnoreAbsent (deleteObj K (KConfigMap, ?ns, n)) msg)))" for xs msg
    unfolding goAll_def
    by (intro gr.keeps_guard_lift keeps_bindA keeps_shuffled keeps_forkJoin keeps_deleteIgnoreAbsent
        gr.keeps_guarded_delete) simp
  have wait: "triple gr.guardI (mapErr g (liftW (goAll K (configmapNames us) ?wait)))
      (\<lambda>_ p. gr.guardI p \<and> setCleaned us FinalizerConfigMapDelete (view (snd p))) (\<lambda>_. gr.guardI)" for g
  proof (rule gr.guard_lift [where R = "\<lambda>_. setCleaned us FinalizerConfigMapDelete"])
    fix ob
    have "triple (\<lambda>s. gr.finInv ob (view s)) (goAll K (configmapNames us) ?wait)
        (\<lambda>_ s. gr.finInv ob (view s) \<and> (\<forall>n \<in> set (configmapNames us). view s (KConfigMap, ?ns, n) = None))
        (\<lambda>_ s. gr.finInv ob (view s))"
      by (rule goAll_finds, rule waitGone_gone) (simp add: getConfigMap_def getAs_absent)
    then show "triple (\<lambda>s. gr.finInv ob (view s)) (goAll K (configmapNames us) ?wait)
        (\<lambda>_ s. gr.finInv ob (view s) \<and> setCleaned us FinalizerConfigMapDelete (view s)) (\<lambda>_ s. gr.finInv ob (view s))"
      by (rule triple_conseq) (auto simp: noConfigmaps_def)
  qed
  show "keeps gr.guardI
     (thenA (mapErr (Fmt ''[deleteConfigMapWithFinalizer] error deleting configmap'')
             (liftW (goAll K (configmapNames l) (\<lambda>n.
                deleteIgnoreAbsent (deleteObj K (KConfigMap, Namespace (us_meta l), n)) ''error deleting configmap''))))
     (thenA (mapErr (Fmt ''[deleteConfigMapWithFinalizer] error waiting for configmap deleted'')
             (liftW (goAll K (configmapNames l) (\<lambda>n.
                waitGone (kPolls K 200 10000) (getConfigMap K (Namespace (us_meta l)) n)
                  ''error waiting for configmap deleted''))))
       (dropFinalizer K X ''[deleteConfigMapWithFinalizer] error removing finalizer'' FinalizerConfigMapDelete)))"
    unfolding l(2) configmapNames_cong [OF l(1,3)]
    by (rule triple_thenA [OF keeps_mapErr [OF del] triple_thenA [OF wait gr.triple_dropFinalizer]])
qed

lemma keeps_deleteResources: "keeps gr.guardI (deleteResources K X f)"
  unfolding deleteResources_def by (auto intro!: triple_if keeps_deleteUnits keeps_deleteConfigmaps keeps_ret)

lemma deletion_guard:
  assumes "view s (unitSetKey (Namespace (us_meta us)) (us_Name us)) = Some (OUnitSet us)"
    and "DeletionTimestamp (us_meta us) \<noteq> None" and "f \<in> set (Finalizers (us_meta us))"
    and "f \<notin> finalizersOf (view (snd (deleteUnitset K X us s)) (unitSetKey (Namespace (us_meta us)) (us_Name us)))"
  shows "setCleaned us f (view (snd (deleteUnitset K X us s)))"
  unfolding deleteUnitset_def
  by (rule gr.runFinalizers_guard)
    (use assms keeps_deleteResources in \<open>auto simp: deleteUnitset_def sameSet_def asUnitSet_def\<close>)

end

interpretation mem_set: set_deletion memKube memView id plainExt us for us
  by unfold_locales

text \<open>
  C17 (\<open>deleteResources\<close>, \<open>deleteUnitWithFinalizer\<close>, \<open>deleteConfigMapWithFinalizer\<close>): after a
  reconciliation of a UnitSet in deletion, whatever the API server answered and in whatever order the
  goroutines ran, a finalizer that is missing from the stored UnitSet (in particular any finalizer,
  once the UnitSet itself is gone) is one of the operator's, and what it guards is gone: no unit is
  labelled with the set any more, or none of its config maps exists.
\<close>

theorem unitset_finalizers_guard:
  assumes K: "kube_api K view wire" and X: "ext_laws X"
    and us: "view s (unitSetKey (Namespace (us_meta us)) (us_Name us)) = Some (OUnitSet us)"
      "DeletionTimestamp (us_meta us) \<noteq> None"
    and f: "f \<in> set (Finalizers (us_meta us))"
      "f \<notin> finalizersOf (view (snd (deleteUnitset K X us s)) (unitSetKey (Namespace (us_meta us)) (us_Name us)))"
  shows "f = FinalizerUnitDelete \<and> noUnits us (view (snd (deleteUnitset K X us s))) \<or>
    f = FinalizerConfigMapDelete \<and> noConfigmaps us (view (snd (deleteUnitset K X us s)))"
proof -
  have "set_deletion K view wire X" using K X by (simp add: set_deletion_def)
  from set_deletion.deletion_guard [OF this us f] show ?thesis by (auto simp: setCleaned_def split: if_splits)
qed

text \<open>Witness: a set with one unit and one config map left, deleted in one go.\<close>

definition sampleDeleted :: UnitSet where
  "sampleDeleted = sampleRoll\<lparr>us_meta := (us_meta sampleRoll)\<lparr>
     Finalizers := [FinalizerUnitDelete, FinalizerConfigMapDelete], DeletionTimestamp := Some 1\<rparr>\<rparr>"

definition sampleDeletedCluster :: mem where
  "sampleDeletedCluster = \<lparr>m_store = [OUnitSet sampleDeleted, OUnit (sampleUnit sampleDeleted 0),
       OConfigMap \<lparr>cm_meta = meta0\<lparr>Name := ''db-config-template'', Namespace := ''ns''\<rparr>, cm_Data = None\<rparr>],
     m_rv = 1, m_faults = []\<rparr>"

theorem unitset_finalizers_guard_witness:
  "memView (snd (deleteUnitset memKube plainExt sampleDeleted sampleDeletedCluster)) (unitSetKey ''ns'' ''db'') = None \<and>
   noUnits sampleDeleted (memView (snd (deleteUnitset memKube plainExt sampleDeleted sampleDeletedCluster)))"
proof -
  have n: "us_Name sampleDeleted = ''db''" "Namespace (us_meta sampleDeleted) = ''ns''" "DeletionTimestamp (us_meta sampleDeleted) \<noteq> None"
    "FinalizerUnitDelete \<in> set (Finalizers (us_meta sampleDeleted))" "FinalizerUnitDelete \<noteq> FinalizerConfigMapDelete"
    "Name (us_meta sampleDeleted) = ''db''" by code_simp+
  have v: "memView sampleDeletedCluster (unitSetKey ''ns'' ''db'') = Some (OUnitSet sampleDeleted)"
    by (simp add: memView_def sampleDeletedCluster_def n)
  have gone: "memView (snd (deleteUnitset memKube plainExt sampleDeleted sampleDeletedCluster)) (unitSetKey ''ns'' ''db'') = None"
    by code_simp
  have "FinalizerUnitDelete \<notin> finalizersOf (memView (snd (deleteUnitset memKube plainExt sampleDeleted sampleDeletedCluster))
      (unitSetKey ''ns'' ''db''))" by (simp add: gone finalizersOf_def)
  with unitset_finalizers_guard [OF mem.kube_api_axioms plain.ext_laws_axioms, of sampleDeletedCluster sampleDeleted FinalizerUnitDelete]
  show ?thesis by (simp add: n v gone)
qed

end
