(* ===== verification/PodUtil.thy ===== *)
theory PodUtil
  imports ApiTypes
begin

text \<open>
  The predicates on pods of \<open>src/pkg/utils/pod/pod.go\<close>: conditions, phases, container states.
  A pointer to a condition is an option, the index of a missing condition is \<open>-1\<close>.
\<close>

definition PodRunning :: string where "PodRunning = ''Running''"
definition PodFailed :: string where "PodFailed = ''Failed''"
definition PodSucceeded :: string where "PodSucceeded = ''Succeeded''"
definition ConditionTrue :: string where "ConditionTrue = ''True''"

lemmas pod_consts = PodRunning_def PodFailed_def PodSucceeded_def ConditionTrue_def

section \<open>Conditions\<close>

fun conditionFrom :: "int \<Rightarrow> podCondition list \<Rightarrow> string \<Rightarrow> int \<times> podCondition option" where
  "conditionFrom i [] conditionType = (- 1, None)"
| "conditionFrom i (c # cs) conditionType =
     (if pc_Type c = conditionType then (i, Some c) else conditionFrom (i + 1) cs conditionType)"

definition GetPodConditionFromList :: "podCondition list \<Rightarrow> string \<Rightarrow> int \<times> podCondition option" where
  "GetPodConditionFromList conditions conditionType = conditionFrom 0 conditions conditionType"

definition GetPodCondition :: "podStatus option \<Rightarrow> string \<Rightarrow> int \<times> podCondition option" where
  "GetPodCondition status conditionType =
     (case status of None \<Rightarrow> (- 1, None) | Some st \<Rightarrow> GetPodConditionFromList (p_Conditions st) conditionType)"

definition isTrue :: "podCondition option \<Rightarrow> bool" where
  "isTrue condition = (case condition of None \<Rightarrow> False | Some c \<Rightarrow> pc_Status c = ConditionTrue)"

definition GetPodInitializedCondition :: "podStatus \<Rightarrow> podCondition option" where
  "GetPodInitializedCondition status = snd (GetPodCondition (Some status) ''Initialized'')"

definition IsPodInitializedConditionTrue :: "podStatus \<Rightarrow> bool" where
  "IsPodInitializedConditionTrue status = isTrue (GetPodInitializedCondition status)"

definition IsPodInitialized :: "pod \<Rightarrow> bool" where
  "IsPodInitialized pod = IsPodInitializedConditionTrue (p_Status pod)"

definition GetPodScheduledCondition :: "podStatus \<Rightarrow> podCondition option" where
  "GetPodScheduledCondition status = snd (GetPodCondition (Some status) ''PodScheduled'')"

definition IsPodScheduledConditionTrue :: "podStatus \<Rightarrow> bool" where
  "IsPodScheduledConditionTrue status = isTrue (GetPodScheduledCondition status)"

definition IsPodScheduled :: "pod \<Rightarrow> bool" where
  "IsPodScheduled pod = IsPodScheduledConditionTrue (p_Status pod)"

definition GetPodReadyCondition :: "podStatus \<Rightarrow> podCondition option" where
  "GetPodReadyCondition status = snd (GetPodCondition (Some status) ''Ready'')"

definition IsPodReadyConditionTrue :: "podStatus \<Rightarrow> bool" where
  "IsPodReadyConditionTrue status = isTrue (GetPodReadyCondition status)"

definition IsPodReady :: "pod \<Rightarrow> bool" where
  "IsPodReady pod = IsPodReadyConditionTrue (p_Status pod)"

section \<open>Containers and phases\<close>

definition containerStatusOf :: "pod \<Rightarrow> string \<Rightarrow> containerStatus option" where
  "containerStatusOf pod containerName = List.find (\<lambda>c. cs_Name c = containerName) (p_ContainerStatuses (p_Status pod))"

definition IsContainerRunning :: "pod \<Rightarrow> string \<Rightarrow> bool" where
  "IsContainerRunning pod containerName =
     (if containerName = [] then p_Phase (p_Status pod) = PodRunning
      else case containerStatusOf pod containerName of None \<Rightarrow> False | Some c \<Rightarrow> cs_Running c)"

definition IsContainerReady :: "pod \<Rightarrow> string \<Rightarrow> bool" where
  "IsContainerReady pod containerName =
     (if containerName = []
      then p_Phase (p_Status pod) = PodRunning \<and> isTrue (snd (GetPodCondition (Some (p_Status pod)) ''ContainersReady''))
      else case containerStatusOf pod containerName of None \<Rightarrow> False | Some c \<Rightarrow> cs_Ready c)"

definition IsContainerRunningAndReady :: "pod \<Rightarrow> string \<Rightarrow> bool" where
  "IsContainerRunningAndReady pod containerName \<longleftrightarrow> IsContainerRunning pod containerName \<and> IsContainerReady pod containerName"

definition IsRunning :: "pod \<Rightarrow> bool" where
  "IsRunning pod \<longleftrightarrow> p_Phase (p_Status pod) = PodRunning"

definition IsRunningAndReady :: "pod \<Rightarrow> bool" where
  "IsRunningAndReady pod \<longleftrightarrow> p_Phase (p_Status pod) = PodRunning \<and> IsPodReady pod"

definition IsCreated :: "pod \<Rightarrow> bool" where
  "IsCreated pod \<longleftrightarrow> p_Phase (p_Status pod) \<noteq> []"

definition IsFailed :: "pod \<Rightarrow> bool" where
  "IsFailed pod \<longleftrightarrow> p_Phase (p_Status pod) = PodFailed"

definition IsPodSucceeded :: "pod \<Rightarrow> bool" where
  "IsPodSucceeded pod \<longleftrightarrow> p_Phase (p_Status pod) = PodSucceeded"

definition IsTerminating :: "pod \<Rightarrow> bool" where
  "IsTerminating pod \<longleftrightarrow> DeletionTimestamp (p_meta pod) \<noteq> None"

definition IsHealthy :: "pod \<Rightarrow> bool" where
  "IsHealthy pod \<longleftrightarrow> IsRunningAndReady pod \<and> \<not> IsTerminating pod"

section \<open>Specification of the condition lookup\<close>

lemma conditionFrom_spec:
  "conditionFrom i cs ty = (case List.find (\<lambda>c. pc_Type c = ty) cs of
     None \<Rightarrow> (- 1, None)
   | Some c \<Rightarrow> (i + int (length (takeWhile (\<lambda>c. pc_Type c \<noteq> ty) cs)), Some c))"
  by (induction i cs ty rule: conditionFrom.induct) (auto split: option.splits)

text \<open>
  \<open>GetPodConditionFromList\<close>: the result is the first condition of the type with its index in
  the list, or \<open>-1\<close> and nil exactly when no condition has the type.
\<close>

theorem pod_condition_lookup:
  "(case GetPodConditionFromList cs ty of
      (i, None) \<Rightarrow> i = - 1 \<and> ty \<notin> pc_Type ` set cs
    | (i, Some c) \<Rightarrow> 0 \<le> i \<and> nat i < length cs \<and> cs ! nat i = c \<and> pc_Type c = ty \<and>
        ty \<notin> pc_Type ` set (take (nat i) cs))"
proof (cases "List.find (\<lambda>c. pc_Type c = ty) cs")
  case None
  then have "ty \<notin> pc_Type ` set cs" by (auto simp: find_None_iff)
  with None show ?thesis by (simp add: GetPodConditionFromList_def conditionFrom_spec)
next
  case (Some c)
  let ?n = "length (takeWhile (\<lambda>c. pc_Type c \<noteq> ty) cs)"
  from Some have n: "?n < length cs" by (induction cs) (auto split: if_splits)
  then have "pc_Type (cs ! ?n) = ty" using nth_length_takeWhile by blast
  moreover have "take ?n cs = takeWhile (\<lambda>c. pc_Type c \<noteq> ty) cs" by (metis takeWhile_eq_take)
  moreover from Some n have "c = cs ! ?n"
    by (induction cs) (auto split: if_splits)
  ultimately show ?thesis
    using n Some by (auto simp: GetPodConditionFromList_def conditionFrom_spec dest: set_takeWhileD)
qed

end
