(* ===== verification/UnitAgent.thy ===== *)
theory UnitAgent
  imports MemKube PodUtil
begin

text \<open>
  The client of the unit agent (\<open>src/pkg/client/unit-agent/client.go\<close>). The agent runs in the pod
  and is reached by gRPC: the parameter \<open>A\<close> is the record of its calls, by address, on the state of
  the world. An agent does not write objects of the API server, which is the locale \<open>agent_api\<close>.
\<close>

record syncRequest =
  TemplateConfigmapName :: string
  ValueConfigmapName :: string
  sr_Namespace :: string
  sr_Key :: string
  ExtendValueConfigmaps :: "string list"

text \<open>\<open>aDial\<close>: whether \<open>grpc.Dial\<close> accepts the target (a failure ends the process).\<close>

record 's agent =
  aDial :: "string \<Rightarrow> bool"
  aStart :: "string \<Rightarrow> 's \<Rightarrow> (string + unit) \<times> 's"
  aStop :: "string \<Rightarrow> 's \<Rightarrow> (string + unit) \<times> 's"
  aRestart :: "string \<Rightarrow> 's \<Rightarrow> (string + unit) \<times> 's"
  aCheckStarted :: "string \<Rightarrow> 's \<Rightarrow> (string + unit) \<times> 's"
  aSyncConfig :: "string \<Rightarrow> syncRequest \<Rightarrow> 's \<Rightarrow> (string + unit) \<times> 's"

definition rpc :: "'s agent \<Rightarrow> string \<Rightarrow> ('s \<Rightarrow> (string + unit) \<times> 's) \<Rightarrow> ('s, unit) act" where
  "rpc A addr call =
     (if \<not> aDial A addr then fail (Panic ''log.Fatal'')
      else (\<lambda>s. case call s of (Inl msg, s') \<Rightarrow> (Inl (Msg msg), s') | (Inr _, s') \<Rightarrow> (Inr (), s')))"

section \<open>Addresses\<close>

text \<open>\<open>net.JoinHostPort\<close> puts a host with a colon or a percent sign in brackets.\<close>

definition JoinHostPort :: "string \<Rightarrow> string \<Rightarrow> string" where
  "JoinHostPort host port =
     (if CHR '':'' \<in> set host \<or> CHR ''%'' \<in> set host then ''['' @ host @ '']:'' @ port else host @ '':'' @ port)"

definition fmtUnitAgentDomainAddr :: "string \<Rightarrow> string \<Rightarrow> string \<Rightarrow> string \<Rightarrow> string \<Rightarrow> string" where
  "fmtUnitAgentDomainAddr agentHostType unitsetHeadlessSvc host namespace port =
     (if agentHostType = ''domain''
      then JoinHostPort (host @ ''.'' @ unitsetHeadlessSvc @ ''.'' @ namespace @ ''.svc'') port
      else if agentHostType = ''ip'' then JoinHostPort host port
      else [])"

section \<open>Calls\<close>

definition ServiceLifecycleManagement ::
  "'s agent \<Rightarrow> string \<Rightarrow> string \<Rightarrow> string \<Rightarrow> string \<Rightarrow> string \<Rightarrow> string \<Rightarrow> ('s, string) act" where
  "ServiceLifecycleManagement A agentHostType unitsetHeadlessSvc host namespace port actionType =
     (let addr = fmtUnitAgentDomainAddr agentHostType unitsetHeadlessSvc host namespace port;
          ok = ret (''['' @ actionType @ ''] server ok'')
      in if actionType = ''start'' then thenA (rpc A addr (aStart A addr)) ok
         else if actionType = ''stop'' then thenA (rpc A addr (aStop A addr)) ok
         else if actionType = ''restart'' then thenA (rpc A addr (aRestart A addr)) ok
         else if \<not> aDial A addr then fail (Panic ''log.Fatal'')
         else fail (Msg ''server not support''))"

definition parserProcessState :: "int \<Rightarrow> string" where
  "parserProcessState processState =
     (if processState = 0 then ''stopped'' else if processState = 1 then ''starting''
      else if processState = 2 then ''running'' else if processState = 3 then ''backoff''
      else if processState = 4 then ''stopping'' else if processState = 5 then ''exited''
      else if processState = 6 then ''fatal'' else ''unknown'')"

text \<open>The state and the error, which is only logged by the caller.\<close>

definition GetServiceProcessState ::
  "'s agent \<Rightarrow> string \<Rightarrow> string \<Rightarrow> string \<Rightarrow> string \<Rightarrow> string \<Rightarrow> ('s, string \<times> error option) act" where
  "GetServiceProcessState A agentHostType unitsetHeadlessSvc host namespace port =
     (let addr = fmtUnitAgentDomainAddr agentHostType unitsetHeadlessSvc host namespace port in
      if \<not> aDial A addr then fail (Panic ''log.Fatal'')
      else tryA (rpc A addr (aCheckStarted A addr)) (\<lambda>r. case r of
             Inl e \<Rightarrow> ret (''unknown'', Some e)
           | Inr _ \<Rightarrow> ret (parserProcessState 1, None)))"

definition SyncConfig ::
  "'s agent \<Rightarrow> string \<Rightarrow> string \<Rightarrow> string \<Rightarrow> string \<Rightarrow> string \<Rightarrow> string \<Rightarrow> string \<Rightarrow> string \<Rightarrow> string list \<Rightarrow> ('s, string) act" where
  "SyncConfig A agentHostType unitsetHeadlessSvc host port namespace templateConfigmapName valueConfigmapName
     mainContainerName extendConfigmaps =
     (let addr = fmtUnitAgentDomainAddr agentHostType unitsetHeadlessSvc host namespace port;
          req = \<lparr>TemplateConfigmapName = templateConfigmapName, ValueConfigmapName = valueConfigmapName,
                 sr_Namespace = namespace, sr_Key = mainContainerName, ExtendValueConfigmaps = extendConfigmaps\<rparr>
      in thenA (rpc A addr (aSyncConfig A addr req)) (ret []))"

section \<open>The contract\<close>

locale agent_api = kube_api K view wire for K :: "'s kube" and view wire +
  fixes A :: "'s agent"
  assumes agent_view:
      "aStart A a s = (r, s') \<Longrightarrow> view s' = view s" "aStop A a s = (r, s') \<Longrightarrow> view s' = view s"
      "aRestart A a s = (r, s') \<Longrightarrow> view s' = view s" "aCheckStarted A a s = (r, s') \<Longrightarrow> view s' = view s"
      "aSyncConfig A a q s = (r, s') \<Longrightarrow> view s' = view s"
begin

lemma keeps_rpc:
  assumes "\<And>s r s'. call s = (r, s') \<Longrightarrow> view s' = view s"
  shows "keeps (\<lambda>s. P (view s)) (rpc A addr call)"
proof (rule keepsI)
  fix s assume "P (view s)"
  then show "P (view (snd (rpc A addr call s)))"
    using assms [of s] by (cases "call s") (auto simp: rpc_def split: sum.split)
qed

lemma keeps_lifecycle [triple_rules]: "keeps (\<lambda>s. P (view s)) (ServiceLifecycleManagement A ht svc h ns port act)"
  unfolding ServiceLifecycleManagement_def Let_def
  by (intro keeps_if keeps_thenA keeps_rpc keeps_ret keeps_fail) (auto dest: agent_view)

lemma keeps_processState [triple_rules]: "keeps (\<lambda>s. P (view s)) (GetServiceProcessState A ht svc h ns port)"
  unfolding GetServiceProcessState_def Let_def
  by (intro keeps_if keeps_tryA keeps_rpc keeps_fail) (auto dest: agent_view simp: keeps_ret split: sum.split)

lemma keeps_syncConfig [triple_rules]: "keeps (\<lambda>s. P (view s)) (SyncConfig A ht svc h port ns t v mc ext)"
  unfolding SyncConfig_def Let_def
  by (intro keeps_thenA keeps_rpc keeps_ret) (auto dest: agent_view)

lemma keeps_frame_agent [triple_rules]:
  "keeps (frame view B v) (ServiceLifecycleManagement A ht svc h ns port act)"
  "keeps (frame view B v) (GetServiceProcessState A ht svc h ns port)"
  "keeps (frame view B v) (SyncConfig A ht svc h port ns t w mc ext)"
  unfolding frame_def by (rule keeps_lifecycle keeps_processState keeps_syncConfig)+

end

text \<open>An agent that answers every call.\<close>

definition idleAgent :: "'s agent" where
  "idleAgent = \<lparr>aDial = (\<lambda>_. True), aStart = (\<lambda>_ s. (Inr (), s)), aStop = (\<lambda>_ s. (Inr (), s)),
     aRestart = (\<lambda>_ s. (Inr (), s)), aCheckStarted = (\<lambda>_ s. (Inr (), s)), aSyncConfig = (\<lambda>_ _ s. (Inr (), s))\<rparr>"

interpretation mem_agent: agent_api memKube memView id idleAgent
  by unfold_locales (auto simp: idleAgent_def)

text \<open>
  \<open>fmtUnitAgentDomainAddr\<close>: with the host type \<open>domain\<close>, different pods of a namespace
  (names without dots) get different addresses, and so do the same pod name under different headless
  services or namespaces without dots.
\<close>

theorem agent_address_inject:
  assumes "\<And>x. x \<in> {h, h', svc, svc', ns, ns'} \<Longrightarrow> set x \<inter> {CHR ''.'', CHR '':'', CHR ''%''} = {}"
    and "fmtUnitAgentDomainAddr ''domain'' svc h ns port = fmtUnitAgentDomainAddr ''domain'' svc' h' ns' port"
  shows "h = h' \<and> svc = svc' \<and> ns = ns'"
proof -
  have cut: "a = a' \<and> b = b'" if "a @ CHR ''.'' # b = a' @ CHR ''.'' # b'" "CHR ''.'' \<notin> set a" "CHR ''.'' \<notin> set a'" for a a' b b'
    using that by (induction a arbitrary: a') (auto simp: Cons_eq_append_conv append_eq_Cons_conv)
  have "h @ CHR ''.'' # (svc @ CHR ''.'' # (ns @ CHR ''.'' # ''svc'' @ CHR '':'' # port)) =
      h' @ CHR ''.'' # (svc' @ CHR ''.'' # (ns' @ CHR ''.'' # ''svc'' @ CHR '':'' # port))"
    using assms(2) assms(1) by (auto simp: fmtUnitAgentDomainAddr_def JoinHostPort_def split: if_splits)
  from cut [OF this] assms(1) have "h = h'"
    and 1: "svc @ CHR ''.'' # (ns @ CHR ''.'' # ''svc'' @ CHR '':'' # port) = svc' @ CHR ''.'' # (ns' @ CHR ''.'' # ''svc'' @ CHR '':'' # port)"
    by auto
  from cut [OF 1] assms(1) have "svc = svc'"
    and 2: "ns @ CHR ''.'' # ''svc'' @ CHR '':'' # port = ns' @ CHR ''.'' # ''svc'' @ CHR '':'' # port" by auto
  from cut [OF 2] assms(1) \<open>h = h'\<close> \<open>svc = svc'\<close> show ?thesis by auto
qed

theorem agent_address_inject_witness:
  "fmtUnitAgentDomainAddr ''domain'' ''db-headless-svc'' ''db-0'' ''ns'' ''2214'' \<noteq>
   fmtUnitAgentDomainAddr ''domain'' ''db-headless-svc'' ''db-1'' ''ns'' ''2214''"
proof -
  have "set x \<inter> {CHR ''.'', CHR '':'', CHR ''%''} = {}" if "x \<in> {''db-0'', ''db-1'', ''db-headless-svc'', ''ns''}" for x
    using that by auto
  then show ?thesis
    using agent_address_inject [of "''db-0''" "''db-1''" "''db-headless-svc''" "''db-headless-svc''" "''ns''" "''ns''" "''2214''"]
    by fastforce
qed

end
