(* ===== verification/UnitServer.thy ===== *)
theory UnitServer
  imports UnitAgent Finalizing
begin

text \<open>
  Starting and stopping the main process of a unit (\<open>src/pkg/controller/unit/unit_sever.go\<close>). The
  controller's pointer to the unit it reconciles is a local state next to the world: a read of the unit
  overwrites it, and so does the answer to a write. The theory starts with these accesses, which all
  the parts of the Unit controller share, and with the locale rules for them.
\<close>

section \<open>The unit being reconciled\<close>

text \<open>\<open>r.Get(ctx, key, unit)\<close>: a failed read leaves the unit alone.\<close>

definition refetch :: "'s kube \<Rightarrow> string \<Rightarrow> string \<Rightarrow> (Unit \<times> 's, unit) act" where
  "refetch K ns n = bindA (liftW (getUnit K ns n)) putL"

definition adopt :: "obj \<Rightarrow> (Unit \<times> 's, unit) act" where
  "adopt ob = (case asUnit ob of Some u \<Rightarrow> putL u | None \<Rightarrow> fail (Msg ''unexpected kind''))"

text \<open>\<open>r.Update(ctx, unit)\<close> and \<open>r.Status().Update(ctx, unit)\<close>.\<close>

definition storeUnit :: "'s kube \<Rightarrow> (Unit \<times> 's, unit) act" where
  "storeUnit K = bindA getL (\<lambda>u. bindA (liftW (updateObj K (OUnit u))) adopt)"

definition storeUnitStatus :: "'s kube \<Rightarrow> (Unit \<times> 's, unit) act" where
  "storeUnitStatus K = bindA getL (\<lambda>u. bindA (liftW (statusUpdate K (OUnit u))) adopt)"

definition inMaintenance :: "Unit \<Rightarrow> bool" where
  "inMaintenance u \<longleftrightarrow> mfind (Annotations (u_meta u)) AnnotationMaintenance = Some ''true''"

text \<open>The host of the agent; an index out of range panics.\<close>

definition agentHost :: "vars \<Rightarrow> Unit \<Rightarrow> pod \<Rightarrow> error + string" where
  "agentHost V unit pod =
     (if UnitAgentHostType V = ''domain'' then Inr (u_Name unit)
      else if UnitAgentHostType V = ''ip''
      then (case p_PodIPs (p_Status pod) of [] \<Rightarrow> Inl (Panic ''index out of range'') | ip # _ \<Rightarrow> Inr ip)
      else Inr [])"

text \<open>
  The interval and the timeout in seconds, from the readiness probe of the main container; the sums
  are 32-bit, and a container without a probe panics.
\<close>

definition probeTimes :: "Unit \<Rightarrow> pod \<Rightarrow> error + int \<times> int" where
  "probeTimes unit pod =
     (case List.find (\<lambda>c. c_Name c = MainContainerName unit) (Containers (p_Spec pod)) of
        None \<Rightarrow> Inr (0, 0)
      | Some one \<Rightarrow> (case c_ReadinessProbe one of
            None \<Rightarrow> Inl (Panic ''nil pointer dereference'')
          | Some p \<Rightarrow> Inr (PeriodSeconds p,
              wrap32 (wrap32 (PeriodSeconds p * SuccessThreshold p) + TimeoutSeconds p))))"

definition pollsFor :: "'s kube \<Rightarrow> int \<times> int \<Rightarrow> nat" where
  "pollsFor K pt = kPollsLater K (nat (1000 * fst pt)) (nat (1000 * snd pt))"

section \<open>Start and stop\<close>

definition lifecycle :: "'s agent \<Rightarrow> vars \<Rightarrow> Unit \<Rightarrow> string \<Rightarrow> string \<Rightarrow> ('s, unit) act" where
  "lifecycle A V unit host action =
     mapErr (Fmt (''fail to '' @ action @ '' unit''))
       (bindA (ServiceLifecycleManagement A (UnitAgentHostType V) (UnitsetHeadlessSvcName unit) host
                 (Namespace (u_meta unit)) ''2214'' action) (\<lambda>_. ret ()))"

text \<open>A timeout of the wait (its only error) leads to a stop; the next reconciliation starts again.\<close>

definition startServer :: "'s kube \<Rightarrow> 's agent \<Rightarrow> vars \<Rightarrow> string \<Rightarrow> string \<Rightarrow> Unit \<Rightarrow> pod \<Rightarrow> string \<Rightarrow> ('s, unit) act" where
  "startServer K A V ns name unit pod host =
     (if IsContainerRunningAndReady pod (MainContainerName unit) \<and>
         ProcessState (u_Status unit) \<in> {''running'', ''starting''} then ret ()
      else thenA (lifecycle A V unit host ''start'')
        (bindA (liftE (probeTimes unit pod)) (\<lambda>pt.
          tryA (pollUntil (pollsFor K pt) (tryA (getPod K ns name) (\<lambda>r. case r of
                  Inl _ \<Rightarrow> ret False | Inr newPod \<Rightarrow> ret (IsRunningAndReady newPod))))
            (\<lambda>r. case r of Inl _ \<Rightarrow> lifecycle A V unit host ''stop'' | Inr _ \<Rightarrow> ret ()))))"

definition stopServer :: "'s agent \<Rightarrow> vars \<Rightarrow> Unit \<Rightarrow> pod \<Rightarrow> string \<Rightarrow> ('s, unit) act" where
  "stopServer A V unit pod host =
     (if \<not> IsPodReady pod \<and> ProcessState (u_Status unit) \<noteq> ''running'' \<and> ProcessState (u_Status unit) \<noteq> ''starting''
      then ret ()
      else lifecycle A V unit host ''stop'')"

definition serverOnPod :: "'s kube \<Rightarrow> 's agent \<Rightarrow> vars \<Rightarrow> string \<Rightarrow> string \<Rightarrow> Unit \<Rightarrow> pod \<Rightarrow> ('s, unit) act" where
  "serverOnPod K A V ns name unit pod =
     (if DeletionTimestamp (p_meta pod) \<noteq> None then fail (Msg ''pod is marked for deleted'')
      else if \<not> IsPodInitialized pod \<or> \<not> IsPodScheduled pod then ret ()
      else if \<not> IsContainerRunningAndReady pod (UnitAgentName V) then ret ()
      else if p_PodIPs (p_Status pod) = [] then fail (Msg ''unit lifecycle management failed: [no pod ip to use]'')
      else bindA (liftE (agentHost V unit pod)) (\<lambda>host.
             if Startup (u_Spec unit) then startServer K A V ns name unit pod host
             else stopServer A V unit pod host))"

definition reconcileUnitServer :: "'s kube \<Rightarrow> 's agent \<Rightarrow> vars \<Rightarrow> string \<Rightarrow> string \<Rightarrow> (Unit \<times> 's, unit) act" where
  "reconcileUnitServer K A V ns name =
     bindA getL (\<lambda>unit0.
       if inMaintenance unit0 then ret ()
       else thenA (refetch K ns name) (bindA getL (\<lambda>unit.
         bindA (liftW (getPod K (Namespace (u_meta unit)) (u_Name unit))) (\<lambda>pod.
           liftW (serverOnPod K A V ns name unit pod)))))"

section \<open>Frame rules\<close>

text \<open>
  The reconciliation of the unit \<open>n\<close> in \<open>ns\<close>: the local unit keeps its name, and nothing outside
  \<open>B\<close> changes.
\<close>

definition unitI :: "('s \<Rightarrow> objview) \<Rightarrow> string \<Rightarrow> string \<Rightarrow> okey set \<Rightarrow> objview \<Rightarrow> Unit \<times> 's \<Rightarrow> bool" where
  "unitI view ns n B v p \<longleftrightarrow> Namespace (u_meta (fst p)) = ns \<and> u_Name (fst p) = n \<and> frame view B v (snd p)"

lemma unitI_snd: "unitI view ns n B v p \<Longrightarrow> frame view B v (snd p)"
  by (simp add: unitI_def)

text \<open>A body that may rely on the name of the unit.\<close>

lemma keeps_unitI_getL [triple_rules]:
  assumes "\<And>u. Namespace (u_meta u) = ns \<Longrightarrow> u_Name u = n \<Longrightarrow> keeps (unitI view ns n B v) (f u)"
  shows "keeps (unitI view ns n B v) (bindA getL f)"
  using assms by (fastforce simp: triple_def bindA_def getL_def unitI_def)

lemma keeps_unitI_liftW [triple_rules]: "keeps (frame view B v) m \<Longrightarrow> keeps (unitI view ns n B v) (liftW m)"
  by (rule triple_liftW) (auto simp: unitI_def triple_def)

lemma keeps_unitI_putL [triple_rules]:
  "Namespace (u_meta u) = ns \<Longrightarrow> u_Name u = n \<Longrightarrow> keeps (unitI view ns n B v) (putL u)"
  by (simp add: triple_def putL_def unitI_def)

text \<open>A copy of the unit handed to another function.\<close>

lemma keeps_unitI_withLocal:
  assumes "keeps (unitI view ns n B v) m" and "Namespace (u_meta u) = ns" "u_Name u = n"
  shows "keeps (frame view B v) (withLocal u m)"
proof (rule keepsI)
  fix s assume "frame view B v s"
  with keepsD [OF assms(1), of "(u, s)"] assms(2,3) have "unitI view ns n B v (snd (m (u, s)))" by (simp add: unitI_def)
  then show "frame view B v (snd (withLocal u m s))"
    by (cases "m (u, s)") (auto simp: withLocal_def unitI_def split: prod.split)
qed

context kube_api
begin

lemma keeps_refetch [triple_rules]: "keeps (unitI view ns n B v) (refetch K ns n)"
  unfolding refetch_def
proof (rule keeps_bind_if)
  show "triple (unitI view ns n B v) (liftW (getUnit K ns n))
      (\<lambda>u p. (Namespace (u_meta u) = ns \<and> u_Name u = n) \<and> unitI view ns n B v p) (\<lambda>_. unitI view ns n B v)"
    by (rule triple_liftW, rule tripleI)
      (auto simp: unitI_def u_Name_def dest: tripleD_Inr [OF getUnit_names] tripleD_Inl [OF getUnit_names])
qed (auto intro: keeps_unitI_putL)

lemma keeps_adopt_answer:
  assumes "keyOf (OUnit u) \<in> B" "Namespace (u_meta u) = ns" "u_Name u = n"
    and "\<And>ob s s'. m s = (Inr ob, s') \<Longrightarrow> keyOf ob = keyOf (OUnit u)" and "keeps (frame view B v) m"
  shows "keeps (unitI view ns n B v) (bindA (liftW m) adopt)"
proof (rule keeps_bind_if)
  show "triple (unitI view ns n B v) (liftW m) (\<lambda>ob p. keyOf ob = keyOf (OUnit u) \<and> unitI view ns n B v p) (\<lambda>_. unitI view ns n B v)"
    by (rule triple_liftW, rule tripleI)
      (auto simp: unitI_def dest: assms(4) keepsD' [OF assms(5)])
  show "keeps (unitI view ns n B v) (adopt ob)" if "keyOf ob = keyOf (OUnit u)" for ob
    using that assms(2,3) unfolding adopt_def
    by (cases ob) (auto simp: asUnit_def keeps_fail u_Name_def intro: keeps_unitI_putL)
qed

lemma store_key: "updateObj K ob s = (Inr ob', s') \<Longrightarrow> keyOf ob' = keyOf ob"
  "statusUpdate K ob s = (Inr ob', s') \<Longrightarrow> keyOf ob' = keyOf ob"
  using write_Inr [OF update_law, of ob s ob' s'] write_Inr [OF status_law, of ob s ob' s']
  by (auto simp: updateObj_def statusUpdate_def updateEff_def statusEff_def)

lemma keeps_storeUnit [triple_rules]:
  assumes "unitKey ns n \<in> B"
  shows "keeps (unitI view ns n B v) (storeUnit K)" and "keeps (unitI view ns n B v) (storeUnitStatus K)"
  unfolding storeUnit_def storeUnitStatus_def
  by (rule keeps_unitI_getL, rule keeps_adopt_answer,
      use assms in \<open>auto simp: u_Name_def intro: keeps_frame_writes dest: store_key\<close>)+

end

context agent_api
begin

lemma keeps_lifecycleA [triple_rules]: "keeps (frame view B v) (lifecycle A V u h a)"
  unfolding lifecycle_def by (intro keeps_mapErr keeps_bindA keeps_frame_agent keeps_ret)

lemma keeps_serverOnPod: "keeps (frame view B v) (serverOnPod K A V ns n u p)"
  unfolding serverOnPod_def startServer_def stopServer_def
  by (intro keeps_if keeps_fail keeps_ret keeps_bindA keeps_liftE keeps_thenA keeps_lifecycleA keeps_tryA
      keeps_poll keeps_frame_reads keeps_case_sum)

lemma keeps_server [triple_rules]: "keeps (unitI view ns n B v) (reconcileUnitServer K A V ns n)"
  unfolding reconcileUnitServer_def
  by (intro keeps_unitI_getL keeps_if keeps_ret keeps_thenA keeps_refetch keeps_bindA keeps_unitI_liftW
      keeps_frame_reads keeps_serverOnPod)

end

section \<open>Which commands are sent\<close>

lemma refetch_apply:
  "refetch K ns n (l, s) = (case getUnit K ns n s of (Inl e, s') \<Rightarrow> (Inl e, (l, s')) | (Inr u, s') \<Rightarrow> (Inr (), (u, s')))"
  by (simp add: refetch_def bindA_def liftW_def putL_def split: prod.split sum.split)

lemma server_apply:
  "reconcileUnitServer K A V ns n (l, s) =
     (if inMaintenance l then (Inr (), (l, s))
      else case getUnit K ns n s of
             (Inl e, s') \<Rightarrow> (Inl e, (l, s'))
           | (Inr u, s') \<Rightarrow> (case bindA (getPod K (Namespace (u_meta u)) (u_Name u)) (serverOnPod K A V ns n u) s' of
                              (r, s'') \<Rightarrow> (r, (u, s''))))"
  by (auto simp: reconcileUnitServer_def bindA_def thenA_def getL_def refetch_apply liftW_def split: prod.split sum.split)

lemma server_cong:
  assumes "kube_api K view wire" and "view s (unitKey ns n) = Some (OUnit u)"
    and "\<And>p. view s (podKey ns n) = Some (OPod p) \<Longrightarrow> serverOnPod K A V ns n u p = serverOnPod K A' V ns n u p"
  shows "reconcileUnitServer K A V ns n (l, s) = reconcileUnitServer K A' V ns n (l, s)"
proof (cases "getUnit K ns n s")
  case (Pair r t)
  show ?thesis
  proof (cases r)
    case (Inr x)
    with Pair kube_api.getUnit_Inr [OF assms(1)] assms(2) have x: "x = u" "view t = view s" by force+
    from kube_api.view_names [OF assms(1,2)] have nm: "Namespace (u_meta u) = ns" "u_Name u = n" by (auto simp: u_Name_def)
    have "bindA (getPod K ns n) (serverOnPod K A V ns n u) t = bindA (getPod K ns n) (serverOnPod K A' V ns n u) t"
      using assms(3) kube_api.getPod_Inr(1) [OF assms(1), of ns n t] x(2)
      by (auto simp: bindA_def split: prod.split sum.split)
    with Pair Inr x nm show ?thesis by (simp add: server_apply)
  qed (use Pair in \<open>simp add: server_apply\<close>)
qed

lemma stopServer_cong: "stopServer (A\<lparr>aStart := f\<rparr>) V u p h = stopServer A V u p h"
  by (simp add: stopServer_def lifecycle_def ServiceLifecycleManagement_def rpc_def)

lemma running_cong:
  assumes "Startup (u_Spec u)" "ProcessState (u_Status u) \<in> {''running'', ''starting''}"
    "IsContainerRunningAndReady p (MainContainerName u)"
  shows "serverOnPod K A V ns n u p = serverOnPod K A' V ns n u p"
  using assms by (simp add: serverOnPod_def startServer_def)

text \<open>
  C30 (\<open>reconcileUnitServer\<close>): the commands sent to the agent follow the stored spec. For a unit with
  \<open>startup: false\<close> the outcome does not depend on the agent's \<open>start\<close>: it is never called. For a
  unit with \<open>startup: true\<close> whose main container is ready and whose process runs, no command is sent
  at all.
\<close>

theorem server_commands_follow_spec:
  assumes "kube_api K view wire" and "view s (unitKey ns n) = Some (OUnit u)"
  shows "(\<not> Startup (u_Spec u) \<longrightarrow>
      reconcileUnitServer K (A\<lparr>aStart := f\<rparr>) V ns n (l, s) = reconcileUnitServer K A V ns n (l, s)) \<and>
    (Startup (u_Spec u) \<and> ProcessState (u_Status u) \<in> {''running'', ''starting''} \<and>
      view s (podKey ns n) = Some (OPod p) \<and> IsContainerRunningAndReady p (MainContainerName u) \<longrightarrow>
      reconcileUnitServer K A' V ns n (l, s) = reconcileUnitServer K A V ns n (l, s))"
proof (intro conjI impI)
  show "reconcileUnitServer K (A\<lparr>aStart := f\<rparr>) V ns n (l, s) = reconcileUnitServer K A V ns n (l, s)"
    if "\<not> Startup (u_Spec u)"
    by (rule server_cong [OF assms]) (simp add: that serverOnPod_def stopServer_cong)
  show "reconcileUnitServer K A' V ns n (l, s) = reconcileUnitServer K A V ns n (l, s)"
    if "Startup (u_Spec u) \<and> ProcessState (u_Status u) \<in> {''running'', ''starting''} \<and>
      view s (podKey ns n) = Some (OPod p) \<and> IsContainerRunningAndReady p (MainContainerName u)"
    by (rule server_cong [OF assms], rule running_cong) (use that in auto)
qed

text \<open>
  C31 (\<open>reconcileUnitServer\<close>, as called by \<open>upgradePod\<close>): the spec of the unit that is handed over
  is not used. The unit is read again before the \<open>startup\<close> flag is tested, so the copy with
  \<open>startup = false\<close> that \<open>upgradePod\<close> makes to stop the service has the same effect on the cluster
  and on the agent as the unit itself.
\<close>

theorem server_ignores_passed_spec:
  assumes "Annotations (u_meta l') = Annotations (u_meta l)"
  shows "fst (reconcileUnitServer K A V ns n (l', s)) = fst (reconcileUnitServer K A V ns n (l, s)) \<and>
    snd (snd (reconcileUnitServer K A V ns n (l', s))) = snd (snd (reconcileUnitServer K A V ns n (l, s)))"
  using assms by (auto simp: server_apply inMaintenance_def split: prod.split sum.split)

text \<open>Witnesses: a unit whose service runs, on an agent that refuses to stop it.\<close>

definition samplePod :: pod where
  "samplePod = \<lparr>p_meta = meta0\<lparr>Name := ''db-0'', Namespace := ''ns''\<rparr>,
     p_Spec = podSpec0\<lparr>Containers := [container0\<lparr>c_Name := ''mysql''\<rparr>]\<rparr>,
     p_Status = podStatus0\<lparr>p_Phase := PodRunning, p_PodIPs := [''10.0.0.1''],
       p_Conditions := [\<lparr>pc_Type = ''Initialized'', pc_Status = ''True''\<rparr>,
         \<lparr>pc_Type = ''PodScheduled'', pc_Status = ''True''\<rparr>, \<lparr>pc_Type = ''Ready'', pc_Status = ''True''\<rparr>],
       p_ContainerStatuses := [\<lparr>cs_Name = ''unit-agent'', cs_Running = True, cs_Ready = True\<rparr>,
         \<lparr>cs_Name = ''mysql'', cs_Running = True, cs_Ready = True\<rparr>]\<rparr>\<rparr>"

definition sampleStarted :: Unit where
  "sampleStarted = unit0\<lparr>u_meta := meta0\<lparr>Name := ''db-0'', Namespace := ''ns''\<rparr>,
     u_Spec := unitSpec0\<lparr>Startup := True, Template := unitPodTemplate0\<lparr>
       t_Annotations := mput AnnotationMainContainerName ''mysql'' None\<rparr>\<rparr>,
     u_Status := unitStatus0\<lparr>ProcessState := ''running''\<rparr>\<rparr>"

definition sampleStopped :: Unit where
  "sampleStopped = sampleStarted\<lparr>u_Spec := (u_Spec sampleStarted)\<lparr>Startup := False\<rparr>\<rparr>"

definition sampleUnitCluster :: "Unit \<Rightarrow> mem" where
  "sampleUnitCluster u = \<lparr>m_store = [OUnit u, OPod samplePod], m_rv = 1, m_faults = []\<rparr>"

definition stubbornAgent :: "mem agent" where
  "stubbornAgent = idleAgent\<lparr>aStop := (\<lambda>_ s. (Inl ''busy'', s))\<rparr>"

lemma sampleUnitCluster_view:
  "Name (u_meta u) = ''db-0'' \<Longrightarrow> Namespace (u_meta u) = ''ns'' \<Longrightarrow>
   memView (sampleUnitCluster u) (unitKey ''ns'' ''db-0'') = Some (OUnit u)"
  by (simp add: sampleUnitCluster_def memView_def)

theorem server_commands_follow_spec_witness:
  "reconcileUnitServer memKube (stubbornAgent\<lparr>aStart := \<lambda>_ s. (Inl ''no'', s)\<rparr>) sampleVars ''ns'' ''db-0''
     (sampleStopped, sampleUnitCluster sampleStopped) =
   reconcileUnitServer memKube stubbornAgent sampleVars ''ns'' ''db-0''
     (sampleStopped, sampleUnitCluster sampleStopped) \<and>
   reconcileUnitServer memKube stubbornAgent sampleVars ''ns'' ''db-0''
     (sampleStarted, sampleUnitCluster sampleStarted) =
   reconcileUnitServer memKube idleAgent sampleVars ''ns'' ''db-0''
     (sampleStarted, sampleUnitCluster sampleStarted) \<and>
   isl (fst (reconcileUnitServer memKube stubbornAgent sampleVars ''ns'' ''db-0''
     (sampleStopped, sampleUnitCluster sampleStopped)))"
proof -
  have v: "memView (sampleUnitCluster sampleStopped) (unitKey ''ns'' ''db-0'') = Some (OUnit sampleStopped)"
    "memView (sampleUnitCluster sampleStarted) (unitKey ''ns'' ''db-0'') = Some (OUnit sampleStarted)"
    by (rule sampleUnitCluster_view; code_simp)+
  have p: "memView (sampleUnitCluster sampleStarted) (podKey ''ns'' ''db-0'') = Some (OPod samplePod)"
    by (simp add: sampleUnitCluster_def memView_def samplePod_def zero_defs sampleStarted_def)
  have c: "\<not> Startup (u_Spec sampleStopped)" "Startup (u_Spec sampleStarted)"
    "ProcessState (u_Status sampleStarted) = ''running''" "IsContainerRunningAndReady samplePod (MainContainerName sampleStarted)"
    "isl (fst (reconcileUnitServer memKube stubbornAgent sampleVars ''ns'' ''db-0''
     (sampleStopped, sampleUnitCluster sampleStopped)))"
    by code_simp+
  note f = server_commands_follow_spec [OF mem.kube_api_axioms]
  show ?thesis
  proof (intro conjI)
    show "reconcileUnitServer memKube (stubbornAgent\<lparr>aStart := \<lambda>_ s. (Inl ''no'', s)\<rparr>) sampleVars ''ns'' ''db-0''
        (sampleStopped, sampleUnitCluster sampleStopped) =
      reconcileUnitServer memKube stubbornAgent sampleVars ''ns'' ''db-0'' (sampleStopped, sampleUnitCluster sampleStopped)"
      using f [OF v(1)] c(1) by blast
    show "reconcileUnitServer memKube stubbornAgent sampleVars ''ns'' ''db-0'' (sampleStarted, sampleUnitCluster sampleStarted) =
      reconcileUnitServer memKube idleAgent sampleVars ''ns'' ''db-0'' (sampleStarted, sampleUnitCluster sampleStarted)"
      using f [OF v(2)] c(2,3,4) p by blast
  qed (rule c(5))
qed

theorem server_ignores_passed_spec_witness:
  "fst (reconcileUnitServer memKube stubbornAgent sampleVars ''ns'' ''db-0'' (sampleStopped, sampleUnitCluster sampleStarted)) = Inr ()"
proof -
  have a: "Annotations (u_meta sampleStopped) = Annotations (u_meta sampleStarted)" by (simp add: sampleStopped_def)
  have "fst (reconcileUnitServer memKube stubbornAgent sampleVars ''ns'' ''db-0'' (sampleStarted, sampleUnitCluster sampleStarted)) = Inr ()"
    by code_simp
  then show ?thesis unfolding conjunct1 [OF server_ignores_passed_spec [OF a]] .
qed

end
