(* ===== verification/UnitStatus.thy ===== *)
theory UnitStatus
  imports UnitServer
begin

text \<open>
  The status of a unit (\<open>src/pkg/controller/unit/unit_status.go\<close>): what is read of the pod, its node
  and its volume claims, the process state reported by the agent, and whether the configuration the
  unit was synchronised with is the stored one.
\<close>

section \<open>Managed resources\<close>

text \<open>A read whose NotFound is the nil object.\<close>

definition optional :: "string \<Rightarrow> ('s, 'a) act \<Rightarrow> ('s, 'a option) act" where
  "optional msg get = tryA get (\<lambda>r. case r of
     Inl e \<Rightarrow> if IsNotFound e then ret None else fail (Fmt msg e)
   | Inr x \<Rightarrow> ret (Some x))"

primrec managedClaims :: "'s kube \<Rightarrow> Unit \<Rightarrow> vctemplate list \<Rightarrow> ('s, pvc list) act" where
  "managedClaims K unit [] = ret []"
| "managedClaims K unit (t # ts) =
     bindA (optional ''get unit pvc failed'' (getPVC K (Namespace (u_meta unit)) (PersistentVolumeClaimName unit (vct_Name t))))
       (\<lambda>claim. bindA (managedClaims K unit ts) (\<lambda>claims. ret (case claim of None \<Rightarrow> claims | Some c \<Rightarrow> c # claims)))"

definition managedNode :: "'s kube \<Rightarrow> pod option \<Rightarrow> ('s, node option) act" where
  "managedNode K po =
     (case po of
        None \<Rightarrow> ret None
      | Some p \<Rightarrow> if NodeName (p_Spec p) = [] then ret None
                 else optional ''get unit node failed'' (getNode K (NodeName (p_Spec p))))"

definition unitManagedResources ::
  "'s kube \<Rightarrow> string \<Rightarrow> string \<Rightarrow> Unit \<Rightarrow> ('s, pod option \<times> pvc list \<times> node option) act" where
  "unitManagedResources K ns name unit =
     bindA (optional ''get unit pod failed'' (getPod K ns name)) (\<lambda>po.
     bindA (managedNode K po) (\<lambda>node.
     bindA (managedClaims K unit (VolumeClaimTemplates (u_Spec unit))) (\<lambda>claims. ret (po, claims, node))))"

section \<open>The observed status\<close>

definition podObserved :: "pod \<Rightarrow> UnitStatus \<Rightarrow> UnitStatus" where
  "podObserved pod st =
     (let st' = st\<lparr>HostIP := p_HostIP (p_Status pod), PodIPs := p_PodIPs (p_Status pod)\<rparr> in
      if p_Phase (p_Status pod) = PodRunning
      then if IsPodReady pod then st'\<lparr>Phase := UnitReady, Task := []\<rparr> else st'\<lparr>Phase := UnitRunning\<rparr>
      else st'\<lparr>Phase := p_Phase (p_Status pod)\<rparr>)"

text \<open>The error of the agent is logged; the state that comes with it is kept.\<close>

definition observeProcess :: "'s agent \<Rightarrow> vars \<Rightarrow> string \<Rightarrow> Unit \<Rightarrow> pod \<Rightarrow> ('s, string) act" where
  "observeProcess A V ns unit pod =
     bindA (liftE (agentHost V unit pod)) (\<lambda>host.
       if IsContainerRunningAndReady pod (UnitAgentName V)
       then bindA (GetServiceProcessState A (UnitAgentHostType V) (UnitsetHeadlessSvcName unit) host ns ''2214'')
              (\<lambda>r. ret (fst r))
       else ret [])"

definition nodeObserved :: "node \<Rightarrow> UnitStatus \<Rightarrow> UnitStatus" where
  "nodeObserved node st = st\<lparr>
     NodeReady := (if list_ex (\<lambda>c. pc_Type c = ''Ready'' \<and> pc_Status c = ConditionTrue) (n_Conditions node)
                   then ''True'' else ''False''),
     u_NodeName := Name (n_meta node)\<rparr>"

definition claimInfo :: "ext \<Rightarrow> pvc \<Rightarrow> PvcInfo" where
  "claimInfo X claim = \<lparr>pi_Name = Name (pvc_meta claim), pi_VolumeName = VolumeName (pvc_Spec claim),
     pi_AccessModes = AccessModes (pvc_Spec claim), pi_Storage = StorageQ X (pvc_Capacity claim),
     pi_Phase = pvc_Phase claim\<rparr>"

definition setStatus :: "(UnitStatus \<Rightarrow> UnitStatus) \<Rightarrow> (Unit \<times> 's, unit) act" where
  "setStatus f = bindA getL (\<lambda>u. putL (u\<lparr>u_Status := f (u_Status u)\<rparr>))"

definition observePod :: "'s agent \<Rightarrow> vars \<Rightarrow> string \<Rightarrow> pod option \<Rightarrow> (Unit \<times> 's, unit) act" where
  "observePod A V ns po =
     (case po of
        None \<Rightarrow> ret ()
      | Some pod \<Rightarrow>
          if DeletionTimestamp (p_meta pod) \<noteq> None then ret ()
          else thenA (setStatus (podObserved pod)) (bindA getL (\<lambda>u.
                 bindA (liftW (observeProcess A V ns u pod)) (\<lambda>processState.
                   setStatus (\<lambda>st. st\<lparr>ProcessState := processState\<rparr>)))))"

text \<open>The part of \<open>reconcileUnitStatus\<close> up to the check of the configuration.\<close>

definition observeUnit :: "'s kube \<Rightarrow> 's agent \<Rightarrow> ext \<Rightarrow> vars \<Rightarrow> string \<Rightarrow> string \<Rightarrow> (Unit \<times> 's, unit) act" where
  "observeUnit K A X V ns name =
     bindA getL (\<lambda>unit.
     bindA (tryA (liftW (unitManagedResources K ns name unit)) (\<lambda>r. case r of
              Inl _ \<Rightarrow> thenA (setStatus (\<lambda>_. unitStatus0)) (ret (None, [], None))
            | Inr res \<Rightarrow> ret res)) (\<lambda>res.
     thenA (observePod A V ns (fst res))
     (thenA (case snd (snd res) of None \<Rightarrow> ret () | Some node \<Rightarrow> setStatus (nodeObserved node))
       (whenA (fst (snd res) \<noteq> [])
         (setStatus (\<lambda>st. st\<lparr>PersistentVolumeClaim := map (claimInfo X) (fst (snd res))\<rparr>))))))"

section \<open>The configuration\<close>

text \<open>The versions recorded in the annotations are those of the stored config maps.\<close>

definition configInSync :: "Unit \<Rightarrow> configMap \<Rightarrow> configMap \<Rightarrow> bool" where
  "configInSync unit tcm vcm \<longleftrightarrow>
     mfind (Annotations (u_meta unit)) AnnotationConfigTemplateVersion = Some (ResourceVersion (cm_meta tcm)) \<and>
     mfind (Annotations (u_meta unit)) AnnotationConfigValueVersion = Some (ResourceVersion (cm_meta vcm))"

definition hasUnitStatusChanged :: "ext \<Rightarrow> UnitStatus \<Rightarrow> UnitStatus \<Rightarrow> bool" where
  "hasUnitStatusChanged X origStatus newStatus =
     (\<not> semEqUnitStatus X origStatus
        (if ss_Status (ConfigSyncStatus origStatus) = ss_Status (ConfigSyncStatus newStatus)
         then newStatus\<lparr>ConfigSyncStatus := (ConfigSyncStatus newStatus)\<lparr>
                LastTransitionTime := LastTransitionTime (ConfigSyncStatus origStatus)\<rparr>\<rparr>
         else newStatus))"

definition storeIfChanged :: "'s kube \<Rightarrow> ext \<Rightarrow> Unit \<Rightarrow> (Unit \<times> 's, unit) act" where
  "storeIfChanged K X orig =
     bindA getL (\<lambda>unit. whenA (hasUnitStatusChanged X (u_Status orig) (u_Status unit)) (storeUnitStatus K))"

text \<open>The time of the last transition changes with the status only.\<close>

definition syncObserved :: "syncStatus \<Rightarrow> bool \<Rightarrow> nat \<Rightarrow> syncStatus" where
  "syncObserved old inSync t =
     (let new = (if inSync then ''True'' else ''False'')
      in if ss_Status old \<noteq> new then \<lparr>LastTransitionTime = t, ss_Status = new\<rparr> else old)"

definition observeConfig :: "'s kube \<Rightarrow> string \<Rightarrow> Unit \<Rightarrow> (Unit \<times> 's, unit) act" where
  "observeConfig K ns orig =
     bindA getL (\<lambda>unit.
     bindA (mapErr (Fmt ''[reconcileUnitStatus] get configTemplate cm failed'')
              (liftW (getConfigMap K ns (u_ConfigTemplateName (u_Spec unit))))) (\<lambda>tcm.
     bindA (mapErr (Fmt ''[reconcileUnitStatus] get configValue cm failed'')
              (liftW (getConfigMap K ns (u_ConfigValueName (u_Spec unit))))) (\<lambda>vcm.
     bindA (liftW (now K)) (\<lambda>t.
       setStatus (\<lambda>st. st\<lparr>ConfigSyncStatus :=
         syncObserved (ConfigSyncStatus (u_Status orig)) (configInSync unit tcm vcm) t\<rparr>)))))"

definition reconcileUnitStatus :: "'s kube \<Rightarrow> 's agent \<Rightarrow> ext \<Rightarrow> vars \<Rightarrow> string \<Rightarrow> string \<Rightarrow> (Unit \<times> 's, unit) act" where
  "reconcileUnitStatus K A X V ns name =
     bindA getL (\<lambda>orig.
     thenA (observeUnit K A X V ns name) (bindA getL (\<lambda>unit.
       if u_ConfigTemplateName (u_Spec unit) = [] \<or> u_ConfigValueName (u_Spec unit) = []
       then bindA (liftW (now K)) (\<lambda>t.
              thenA (setStatus (\<lambda>st. st\<lparr>ConfigSyncStatus := \<lparr>LastTransitionTime = t, ss_Status = ''False''\<rparr>\<rparr>))
              (thenA (ignoreErr (storeIfChanged K X orig))
                (fail (Msg ''[reconcileUnitStatus] required config names are empty''))))
       else thenA (observeConfig K ns orig) (storeIfChanged K X orig))))"

definition reconcileUnitObservedGeneration :: "'s kube \<Rightarrow> string \<Rightarrow> Unit \<Rightarrow> ('s, unit) act" where
  "reconcileUnitObservedGeneration K ns unit =
     mapErr (Fmt ''update unit ObservedGeneration error'')
       (retryOnConflict DefaultRetry
         (bindA (getUnit K ns (u_Name unit)) (\<lambda>latest.
            bindA (statusUpdate K (OUnit (latest\<lparr>u_Status := (u_Status latest)\<lparr>
              u_ObservedGeneration := Generation (u_meta latest)\<rparr>\<rparr>))) (\<lambda>_. ret ()))))"

section \<open>Frame rules\<close>

lemma keeps_optional [triple_rules]: "keeps I m \<Longrightarrow> keeps I (optional msg m)"
  unfolding optional_def by (intro keeps_tryA keeps_case_sum keeps_if keeps_ret keeps_fail)

lemma keeps_now [triple_rules]: "keeps I (now K)"
  unfolding now_def by (rule keeps_asks)

lemma keeps_setStatus [triple_rules]: "keeps (unitI view ns n B v) (setStatus f)"
  unfolding setStatus_def by (intro keeps_unitI_getL keeps_unitI_putL) (simp_all add: u_Name_def)

context agent_api
begin

lemma keeps_managed [triple_rules]: "keeps (frame view B v) (unitManagedResources K ns n u)"
proof -
  have claims: "keeps (frame view B v) (managedClaims K u ts)" for ts
    by (induction ts) (simp_all add: keeps_ret keeps_bindA keeps_optional keeps_frame_reads)
  show ?thesis
    unfolding unitManagedResources_def managedNode_def
    by (intro keeps_bindA keeps_optional keeps_frame_reads keeps_case_option keeps_if keeps_ret claims)
qed

lemma keeps_observe [triple_rules]: "keeps (unitI view ns n B v) (observeUnit K A X V ns n)"
  unfolding observeUnit_def observePod_def observeProcess_def
  by (intro keeps_unitI_getL keeps_bindA keeps_tryA keeps_unitI_liftW keeps_managed keeps_case_sum keeps_thenA
      keeps_setStatus keeps_ret keeps_case_option keeps_if keeps_liftE keeps_frame_agent keeps_whenA)

lemma keeps_observeConfig [triple_rules]: "keeps (unitI view ns n B v) (observeConfig K ns' orig)"
  unfolding observeConfig_def
  by (intro keeps_unitI_getL keeps_bindA keeps_mapErr keeps_unitI_liftW keeps_frame_reads keeps_now keeps_setStatus)

lemma keeps_status [triple_rules]:
  assumes "unitKey ns n \<in> B"
  shows "keeps (unitI view ns n B v) (reconcileUnitStatus K A X V ns n)"
  unfolding reconcileUnitStatus_def storeIfChanged_def
  by (intro keeps_unitI_getL keeps_thenA keeps_observe keeps_if keeps_bindA keeps_unitI_liftW keeps_now keeps_setStatus
      keeps_ignoreErr keeps_whenA keeps_storeUnit keeps_fail keeps_observeConfig assms)

end

section \<open>The status is truthful\<close>

context kube_api
begin

lemma optional_getPod:
  "triple (\<lambda>s. view s = v) (optional msg (getPod K ns n))
     (\<lambda>po s. view s = v \<and> (case po of None \<Rightarrow> v (podKey ns n) = None | Some p \<Rightarrow> v (podKey ns n) = Some (OPod p))) (\<lambda>_ s. view s = v)"
proof (rule tripleI)
  fix s po s' assume v: "view s = v" and o: "optional msg (getPod K ns n) s = (Inr po, s')"
  obtain r t where g: "getPod K ns n s = (r, t)" by fastforce
  show "view s' = v \<and> (case po of None \<Rightarrow> v (podKey ns n) = None | Some p \<Rightarrow> v (podKey ns n) = Some (OPod p))"
  proof (cases r)
    case (Inl e)
    with o g v tripleD_Inl [OF getAs_absent [of v asPod "podKey ns n"], of s e t] show ?thesis
      by (auto simp: optional_def tryA_def getPod_def split: if_splits)
  next
    case (Inr x)
    with o g v getPod_Inr [of ns n s x t] show ?thesis by (auto simp: optional_def tryA_def)
  qed
next
  fix s e s' assume v: "view s = v" and "optional msg (getPod K ns n) s = (Inl e, s')"
  then show "view s' = v" by (rule keepsD' [OF keeps_optional [OF keeps_reads(3) [of "\<lambda>w. w = v"]]])
qed

lemma observedGeneration_stored:
  assumes "reconcileUnitObservedGeneration K ns unit s = (Inr (), s')"
  shows "\<exists>u. view s' (unitKey ns (u_Name unit)) = Some (OUnit u) \<and> u_ObservedGeneration (u_Status u) = Generation (u_meta u)"
proof -
  let ?Q = "\<lambda>s'. \<exists>u. view s' (unitKey ns (u_Name unit)) = Some (OUnit u) \<and> u_ObservedGeneration (u_Status u) = Generation (u_meta u)"
  let ?m = "bindA (getUnit K ns (u_Name unit)) (\<lambda>latest.
            bindA (statusUpdate K (OUnit (latest\<lparr>u_Status := (u_Status latest)\<lparr>
              u_ObservedGeneration := Generation (u_meta latest)\<rparr>\<rparr>))) (\<lambda>_. ret ()))"
  have "triple (\<lambda>_. True) ?m (\<lambda>_. ?Q) (\<lambda>_ _. True)"
  proof (rule tripleI)
    fix s x s' assume "?m s = (Inr x, s')"
    then obtain l t ob where g: "getUnit K ns (u_Name unit) s = (Inr l, t)"
      and w: "statusUpdate K (OUnit (l\<lparr>u_Status := (u_Status l)\<lparr>u_ObservedGeneration := Generation (u_meta l)\<rparr>\<rparr>)) t = (Inr ob, s')"
      by (auto simp: bindA_eq_Inr_iff)
    let ?l = "l\<lparr>u_Status := (u_Status l)\<lparr>u_ObservedGeneration := Generation (u_meta l)\<rparr>\<rparr>"
    from getUnit_Inr [OF g] have l: "view t (unitKey ns (u_Name unit)) = Some (OUnit l)" by simp
    with view_names [OF l] have k: "keyOf (OUnit ?l) = unitKey ns (u_Name unit)" by (simp add: u_Name_def)
    have "statusEff (OUnit ?l) ob (view t) (view s')"
      using w write_Inr [OF status_law] by (simp add: statusUpdate_def)
    with l k have eff: "keyOf ob = unitKey ns (u_Name unit)" "statusStored (OUnit l) (OUnit ?l) ob"
      "view s' = (view t)(unitKey ns (u_Name unit) \<mapsto> ob)" by (auto simp: statusEff_def)
    then obtain u where u: "ob = OUnit u" by (cases ob) (auto simp: keyOf_def)
    with eff have "sameButVersion (u_meta l) (u_meta u)" "unitStatusEq (u_Status ?l) (u_Status u)" by auto
    then have "u_ObservedGeneration (u_Status u) = Generation (u_meta u)"
      by (auto simp: unitStatusEq_def sameButVersion_def dest: arg_cong [where f = Generation])
    with eff(3) u show "?Q s'" by simp
  qed simp
  from triple_retry [OF this] have "triple (\<lambda>_. True) (retryOnConflict DefaultRetry ?m) (\<lambda>_. ?Q) (\<lambda>_ _. True)" .
  with assms show ?thesis
    unfolding reconcileUnitObservedGeneration_def by (auto dest: tripleD_Inr)
qed

lemma keeps_observedGeneration [triple_rules]:
  assumes "unitKey ns (u_Name unit) \<in> B"
  shows "keeps (frame view B v) (reconcileUnitObservedGeneration K ns unit)"
  unfolding reconcileUnitObservedGeneration_def
  by (intro keeps_mapErr keeps_retry keeps_getUnit_then keeps_bindA keeps_frame_writes keeps_ret) (use assms in simp)

end

text \<open>What is reported as ready is a running and ready pod; \<open>Ready\<close> is no phase of a pod.\<close>

definition readyBacked :: "objview \<Rightarrow> string \<Rightarrow> string \<Rightarrow> Unit \<Rightarrow> bool" where
  "readyBacked v ns n u \<longleftrightarrow>
     (\<forall>p. v (podKey ns n) = Some (OPod p) \<and> DeletionTimestamp (p_meta p) = None \<and> Phase (u_Status u) = UnitReady \<longrightarrow>
        IsRunningAndReady p \<or> p_Phase (p_Status p) = UnitReady)"

text \<open>The observation changes the status of the local unit only.\<close>

definition observing :: "('s \<Rightarrow> objview) \<Rightarrow> objview \<Rightarrow> Unit \<Rightarrow> Unit \<times> 's \<Rightarrow> bool" where
  "observing view v l p \<longleftrightarrow> view (snd p) = v \<and> u_meta (fst p) = u_meta l \<and> u_Spec (fst p) = u_Spec l"

text \<open>The configuration status reported for the unit.\<close>

definition configReported :: "objview \<Rightarrow> string \<Rightarrow> Unit \<Rightarrow> UnitStatus \<Rightarrow> bool" where
  "configReported v ns l st \<longleftrightarrow>
     (\<exists>tcm vcm. v (KConfigMap, ns, u_ConfigTemplateName (u_Spec l)) = Some (OConfigMap tcm) \<and>
        v (KConfigMap, ns, u_ConfigValueName (u_Spec l)) = Some (OConfigMap vcm) \<and>
        ss_Status (ConfigSyncStatus st) = (if configInSync l tcm vcm then ''True'' else ''False''))"

lemma ss_syncObserved [simp]: "ss_Status (syncObserved old b t) = (if b then ''True'' else ''False'')"
  by (simp add: syncObserved_def Let_def)

lemma observeConfig_eq:
  "observeConfig K ns orig (l, s) = (Inr (), q) \<longleftrightarrow>
     (\<exists>tcm s1 vcm s2. getConfigMap K ns (u_ConfigTemplateName (u_Spec l)) s = (Inr tcm, s1) \<and>
        getConfigMap K ns (u_ConfigValueName (u_Spec l)) s1 = (Inr vcm, s2) \<and>
        q = (l\<lparr>u_Status := (u_Status l)\<lparr>ConfigSyncStatus :=
          syncObserved (ConfigSyncStatus (u_Status orig)) (configInSync l tcm vcm) (kNow K s2)\<rparr>\<rparr>, s2))"
proof -
  have lift: "liftW m (l, t) = (Inr x, r) \<longleftrightarrow> (\<exists>u. m t = (Inr x, u) \<and> r = (l, u))" for m :: "('s, 'x) act" and t x r
    by (cases "m t") (auto simp: liftW_def)
  show ?thesis
    by (auto simp: observeConfig_def bindA_eq_Inr_iff lift now_def setStatus_def getL_def putL_def)
qed

lemma readyBacked_podObserved:
  "v (podKey ns n) = Some (OPod p) \<Longrightarrow> readyBacked v ns n (u\<lparr>u_Status := podObserved p st\<rparr>)"
  by (auto simp: readyBacked_def podObserved_def Let_def IsRunningAndReady_def UnitReady_def UnitRunning_def PodRunning_def
      split: if_splits)

lemma triple_setStatus:
  "(\<And>u s. P (u, s) \<Longrightarrow> Q (u\<lparr>u_Status := f (u_Status u)\<rparr>, s)) \<Longrightarrow> triple P (setStatus f) (\<lambda>_. Q) E"
  by (auto simp: triple_def setStatus_def bindA_def getL_def putL_def)

lemma observing_status [simp]: "observing view v l (u\<lparr>u_Status := st\<rparr>, s) = observing view v l (u, s)"
  by (simp add: observing_def)

lemma readyBacked_status: "Phase st = Phase (u_Status u) \<Longrightarrow> readyBacked v ns n (u\<lparr>u_Status := st\<rparr>) = readyBacked v ns n u"
  by (simp add: readyBacked_def)

context agent_api
begin

lemma managed_pod:
  "triple (\<lambda>s. view s = v) (unitManagedResources K ns n u)
     (\<lambda>res s. view s = v \<and> (case fst res of None \<Rightarrow> v (podKey ns n) = None | Some p \<Rightarrow> v (podKey ns n) = Some (OPod p)))
     (\<lambda>_ s. view s = v)"
proof -
  let ?P = "\<lambda>po. case po of None \<Rightarrow> v (podKey ns n) = None | Some p \<Rightarrow> v (podKey ns n) = Some (OPod p)"
  have claims: "keeps (\<lambda>s. view s = v) (managedClaims K u ts)" for ts
    by (induction ts) (simp_all add: keeps_ret keeps_bindA keeps_optional keeps_reads [of "\<lambda>w. w = v"])
  have node: "keeps (\<lambda>s. view s = v) (managedNode K po)" for po
    unfolding managedNode_def
    by (intro keeps_case_option keeps_if keeps_ret keeps_optional keeps_reads [of "\<lambda>w. w = v"])
  have "triple (\<lambda>s. view s = v \<and> ?P po)
      (bindA (managedNode K po) (\<lambda>node. bindA (managedClaims K u (VolumeClaimTemplates (u_Spec u))) (\<lambda>claims. ret (po, claims, node))))
      (\<lambda>res s. view s = v \<and> ?P (fst res)) (\<lambda>_ s. view s = v)" for po
  proof (cases "?P po")
    case True
    show ?thesis
      by (rule triple_pre, rule triple_bindA [OF node], rule triple_bindA [OF claims])
        (use True in \<open>auto simp: triple_def\<close>)
  qed (simp add: triple_def)
  then show ?thesis unfolding unitManagedResources_def by (rule triple_bindA [OF optional_getPod])
qed

lemma observePod_backed:
  "triple (\<lambda>p. observing view v l p \<and> (case po of None \<Rightarrow> readyBacked v ns n (fst p) | Some q \<Rightarrow> v (podKey ns n) = Some (OPod q)))
     (observePod A V ns' po) (\<lambda>_ p. observing view v l p \<and> readyBacked v ns n (fst p)) (\<lambda>_ _. True)"
proof (cases po)
  case (Some q)
  have proc: "triple (\<lambda>s. observing view v l (u, s) \<and> readyBacked v ns n u) (observeProcess A V ns' u' q)
      (\<lambda>_ s. observing view v l (u, s) \<and> readyBacked v ns n u) (\<lambda>_ _. True)" for u u'
  proof -
    have "keeps (\<lambda>s. view s = v) (observeProcess A V ns' u' q)"
      unfolding observeProcess_def
      by (intro keeps_bindA keeps_liftE keeps_if keeps_ret keeps_processState [of "\<lambda>w. w = v"])
    from triple_const [OF this, of "u_meta u = u_meta l \<and> u_Spec u = u_Spec l \<and> readyBacked v ns n u"]
    show ?thesis by (rule triple_conseq) (auto simp: observing_def)
  qed
  let ?R = "\<lambda>p. observing view v l p \<and> readyBacked v ns n (fst p)"
  have process: "triple ?R (bindA getL (\<lambda>u. bindA (liftW (observeProcess A V ns' u q))
      (\<lambda>ps. setStatus (\<lambda>st. st\<lparr>ProcessState := ps\<rparr>)))) (\<lambda>_. ?R) (\<lambda>_ _. True)"
  proof (rule triple_getL, rule triple_bindA)
    fix u
    show "triple (\<lambda>p. ?R p \<and> fst p = u) (liftW (observeProcess A V ns' u q)) (\<lambda>_. ?R) (\<lambda>_ _. True)"
      by (rule triple_pre [OF triple_liftW [where P = ?R]]) (use proc in auto)
    show "triple ?R (setStatus (\<lambda>st. st\<lparr>ProcessState := ps\<rparr>)) (\<lambda>_. ?R) (\<lambda>_ _. True)" for ps
      by (rule triple_setStatus) (simp add: readyBacked_status)
  qed
  show ?thesis
  proof (cases "v (podKey ns n) = Some (OPod q)")
    case True
    show ?thesis
    proof (cases "DeletionTimestamp (p_meta q)")
      case None
      have "triple (\<lambda>p. observing view v l p) (setStatus (podObserved q)) (\<lambda>_. ?R) (\<lambda>_ _. True)"
        by (rule triple_setStatus) (simp add: readyBacked_podObserved True)
      from triple_thenA [OF this process] True Some None show ?thesis by (simp add: observePod_def)
    next
      case (Some t)
      with True \<open>po = Some q\<close> show ?thesis by (simp add: observePod_def triple_def readyBacked_def)
    qed
  qed (simp add: Some triple_def)
qed (simp add: observePod_def triple_def)

lemma observeUnit_backed:
  "triple (observing view v l) (observeUnit K A X V ns n) (\<lambda>_ p. observing view v l p \<and> readyBacked v ns n (fst p)) (\<lambda>_ _. True)"
  unfolding observeUnit_def
proof (rule triple_getL, rule triple_bindA)
  let ?R = "\<lambda>p. observing view v l p \<and> readyBacked v ns n (fst p)"
  let ?S = "\<lambda>res p. observing view v l p \<and>
    (case fst res of None \<Rightarrow> readyBacked v ns n (fst p) | Some q \<Rightarrow> v (podKey ns n) = Some (OPod q))"
  fix u
  show "triple (\<lambda>p. observing view v l p \<and> fst p = u)
     (tryA (liftW (unitManagedResources K ns n u)) (\<lambda>r. case r of
              Inl _ \<Rightarrow> thenA (setStatus (\<lambda>_. unitStatus0)) (ret (None, [], None)) | Inr res \<Rightarrow> ret res)) ?S (\<lambda>_ _. True)"
  proof (rule tripleI)
    fix p res p' assume p: "observing view v l p \<and> fst p = u" and
      t: "tryA (liftW (unitManagedResources K ns n u)) (\<lambda>r. case r of
              Inl _ \<Rightarrow> thenA (setStatus (\<lambda>_. unitStatus0)) (ret (None, [], None)) | Inr res \<Rightarrow> ret res) p = (Inr res, p')"
    obtain r s' where m: "unitManagedResources K ns n u (snd p) = (r, s')" by fastforce
    from p have v: "view (snd p) = v" by (simp add: observing_def)
    show "?S res p'"
    proof (cases r)
      case (Inl e)
      with m v have "view s' = v" using tripleD_Inl [OF managed_pod] by blast
      with Inl t m p show ?thesis
        by (auto simp: tryA_def liftW_def thenA_def bindA_def setStatus_def getL_def putL_def observing_def readyBacked_def
            unitStatus0_def UnitReady_def)
    next
      case (Inr x)
      with m v have "view s' = v \<and> (case fst x of None \<Rightarrow> v (podKey ns n) = None | Some p \<Rightarrow> v (podKey ns n) = Some (OPod p))"
        using tripleD_Inr [OF managed_pod] by blast
      with Inr t m p show ?thesis
        by (auto simp: tryA_def liftW_def observing_def readyBacked_def split: option.splits)
    qed
  qed simp
  have rest: "triple ?R (setStatus f) (\<lambda>_. ?R) (\<lambda>_ _. True)" if "\<And>st. Phase (f st) = Phase st" for f
    by (rule triple_setStatus) (simp add: readyBacked_status that)
  have nodes: "triple ?R (case nd of None \<Rightarrow> ret () | Some node \<Rightarrow> setStatus (nodeObserved node)) (\<lambda>_. ?R) (\<lambda>_ _. True)" for nd
    by (cases nd) (simp_all add: triple_def [of _ "ret ()"] rest nodeObserved_def)
  have claims: "triple ?R (whenA b (setStatus (\<lambda>st. st\<lparr>PersistentVolumeClaim := ci\<rparr>))) (\<lambda>_. ?R) (\<lambda>_ _. True)" for b ci
    by (cases b) (simp_all add: whenA_def triple_def [of _ "ret ()"] rest)
  show "triple (?S res) (thenA (observePod A V ns (fst res))
     (thenA (case snd (snd res) of None \<Rightarrow> ret () | Some node \<Rightarrow> setStatus (nodeObserved node))
       (whenA (fst (snd res) \<noteq> []) (setStatus (\<lambda>st. st\<lparr>PersistentVolumeClaim := map (claimInfo X) (fst (snd res))\<rparr>)))))
     (\<lambda>_. ?R) (\<lambda>_ _. True)" for res
    by (rule triple_thenA [OF observePod_backed triple_thenA [OF nodes claims]])
qed

lemma observeConfig_Inr:
  assumes "observeConfig K ns orig (l1, s) = (Inr (), (l', s'))" and "observing view v l (l1, s)" and "readyBacked v ns n l1"
  shows "observing view v l (l', s') \<and> readyBacked v ns n l' \<and> configReported v ns l (u_Status l')"
proof -
  from assms(1) [unfolded observeConfig_eq] obtain tcm s1 vcm s2 where
    t: "getConfigMap K ns (u_ConfigTemplateName (u_Spec l1)) s = (Inr tcm, s1)" and
    c: "getConfigMap K ns (u_ConfigValueName (u_Spec l1)) s1 = (Inr vcm, s2)" and
    l': "s' = s2" "l' = l1\<lparr>u_Status := (u_Status l1)\<lparr>ConfigSyncStatus :=
          syncObserved (ConfigSyncStatus (u_Status orig)) (configInSync l1 tcm vcm) (kNow K s2)\<rparr>\<rparr>"
    by auto
  from assms(2) have eq: "view s = v" "u_Spec l1 = u_Spec l" "u_meta l1 = u_meta l" by (auto simp: observing_def)
  note r = getAs_Inr [OF t [unfolded getConfigMap_def]] getAs_Inr [OF c [unfolded getConfigMap_def]]
  from r l' eq have "configReported v ns l (u_Status l')" by (auto simp: configReported_def configInSync_def)
  with r l' eq assms(3) show ?thesis by (auto simp: observing_def readyBacked_def)
qed

lemma storeIfChanged_Inr:
  assumes "storeIfChanged K X orig (l1, s) = (Inr (), (l', s'))"
  shows "unitStatusEq (u_Status l1) (u_Status l')"
proof (cases "hasUnitStatusChanged X (u_Status orig) (u_Status l1)")
  case True
  with assms obtain ob where w: "statusUpdate K (OUnit l1) s = (Inr ob, s')" and a: "adopt ob (l1, s') = (Inr (), (l', s'))"
    by (auto simp: storeIfChanged_def storeUnitStatus_def bindA_eq_Inr_iff whenA_def getL_def liftW_def adopt_def putL_def
        split: prod.splits option.splits)
  have "statusEff (OUnit l1) ob (view s) (view s')" using w write_Inr [OF status_law] by (simp add: statusUpdate_def)
  then obtain old where old: "view s (keyOf (OUnit l1)) = Some old" "statusStored old (OUnit l1) ob" "keyOf ob = keyOf (OUnit l1)"
    by (auto simp: statusEff_def)
  obtain w where "old = OUnit w" using view_unit old(1) by fastforce
  moreover obtain u where "ob = OUnit u" using old(3) by (cases ob) (auto simp: keyOf_def)
  ultimately show ?thesis using old(2) a by (simp add: adopt_def putL_def)
next
  case False
  with assms show ?thesis
    by (simp add: storeIfChanged_def bindA_def getL_def whenA_def unitStatusEq_def)
qed

lemma status_truthful:
  assumes "reconcileUnitStatus K A X V ns n (l, s) = (Inr (), (l', s'))"
  shows "readyBacked (view s) ns n l' \<and> configReported (view s) ns l (u_Status l')"
proof -
  from assms obtain l1 s1 l2 s2 where
    o: "observeUnit K A X V ns n (l, s) = (Inr (), (l1, s1))" and
    c: "observeConfig K ns l (l1, s1) = (Inr (), (l2, s2))" and
    u: "storeIfChanged K X l (l2, s2) = (Inr (), (l', s'))"
    by (auto simp: reconcileUnitStatus_def bindA_eq_Inr_iff thenA_eq_Inr_iff getL_def split: if_splits)
  have "observing view (view s) l (l1, s1) \<and> readyBacked (view s) ns n l1"
    using tripleD_Inr [OF observeUnit_backed _ o, of "view s" l] by (simp add: observing_def)
  with observeConfig_Inr [OF c] have "readyBacked (view s) ns n l2" "configReported (view s) ns l (u_Status l2)" by auto
  with storeIfChanged_Inr [OF u] show ?thesis
    by (auto simp: unitStatusEq_def readyBacked_def configReported_def)
qed

end


text \<open>
  \<open>reconcileUnitObservedGeneration\<close>: on success the stored unit's observed generation is its
  generation, whatever version of the unit the caller holds.
\<close>

theorem observed_generation_current:
  assumes "kube_api K view wire" and "reconcileUnitObservedGeneration K ns unit s = (Inr (), s')"
  shows "\<exists>u. view s' (unitKey ns (u_Name unit)) = Some (OUnit u) \<and> u_ObservedGeneration (u_Status u) = Generation (u_meta u)"
  using kube_api.observedGeneration_stored [OF assms] .

section \<open>A conflict is not retried\<close>

lemma unchanged_status: "ext_laws X \<Longrightarrow> \<not> hasUnitStatusChanged X st st"
  by (simp add: hasUnitStatusChanged_def ext_laws.semEqUnitStatus_refl)

text \<open>
  \<open>reconcileUnitStatus\<close> under \<open>retry.RetryOnConflict\<close>: the new status is written into the unit
  the function was given, and a retry compares with that unit. When the status update conflicts and
  nothing else has changed, the second attempt finds no difference: the retry reports success and the
  server has not been sent the status again.
\<close>

theorem status_conflict_swallowed:
  assumes X: "ext_laws X"
    and first: "reconcileUnitStatus K A X V ns n (l, s) = (Inl (Api Conflict), (l1, s1))"
    and names: "u_ConfigTemplateName (u_Spec l1) \<noteq> []" "u_ConfigValueName (u_Spec l1) \<noteq> []"
    and again: "thenA (observeUnit K A X V ns n) (observeConfig K ns l1) (l1, s1) = (Inr (), (l1, s2))"
  shows "retryOnConflict DefaultRetry (reconcileUnitStatus K A X V ns n) (l, s) = (Inr (), (l1, s2))"
proof -
  from again obtain l2 s2' where o: "observeUnit K A X V ns n (l1, s1) = (Inr (), (l2, s2'))"
    and c: "observeConfig K ns l1 (l2, s2') = (Inr (), (l1, s2))" by (auto simp: thenA_eq_Inr_iff)
  from c have "u_Spec l2 = u_Spec l1"
    unfolding observeConfig_eq by (auto dest: arg_cong [where f = u_Spec])
  with names o c unchanged_status [OF X] have "reconcileUnitStatus K A X V ns n (l1, s1) = (Inr (), (l1, s2))"
    by (simp add: reconcileUnitStatus_def bindA_def thenA_def getL_def storeIfChanged_def whenA_def)
  with first show ?thesis by (simp add: DefaultRetry_def eval_nat_numeral IsConflict_def)
qed

text \<open>Witnesses: a unit with its pod, its config maps, and a version the controller has not seen.\<close>

definition sampleConfigMap :: "string \<Rightarrow> obj" where
  "sampleConfigMap n = OConfigMap \<lparr>cm_meta = meta0\<lparr>Name := n, Namespace := ''ns'', ResourceVersion := ''7''\<rparr>, cm_Data = None\<rparr>"

definition sampleConfigured :: Unit where
  "sampleConfigured = sampleStarted\<lparr>
     u_meta := (u_meta sampleStarted)\<lparr>Annotations := mput AnnotationConfigTemplateVersion ''7''
       (mput AnnotationConfigValueVersion ''7'' None), Generation := 3\<rparr>,
     u_Spec := (u_Spec sampleStarted)\<lparr>u_ConfigTemplateName := ''ct'', u_ConfigValueName := ''cv''\<rparr>\<rparr>"

definition sampleConfiguredCluster :: "string \<Rightarrow> mem" where
  "sampleConfiguredCluster rv = \<lparr>m_store = [OUnit (sampleConfigured\<lparr>u_meta := (u_meta sampleConfigured)\<lparr>ResourceVersion := rv\<rparr>\<rparr>),
     OPod samplePod, sampleConfigMap ''ct'', sampleConfigMap ''cv''], m_rv = 9, m_faults = []\<rparr>"

definition staleUnit :: Unit where
  "staleUnit = sampleConfigured\<lparr>u_meta := (u_meta sampleConfigured)\<lparr>ResourceVersion := ''4''\<rparr>\<rparr>"

abbreviation sampleStatusRun :: "(Unit \<times> mem, unit) act" where
  "sampleStatusRun \<equiv> reconcileUnitStatus memKube idleAgent plainExt sampleVars ''ns'' ''db-0''"


theorem observed_generation_current_witness:
  "\<exists>u. memView (snd (reconcileUnitObservedGeneration memKube ''ns'' staleUnit (sampleConfiguredCluster ''5'')))
      (unitKey ''ns'' ''db-0'') = Some (OUnit u) \<and> u_ObservedGeneration (u_Status u) = Generation (u_meta u)"
proof -
  have c: "fst (reconcileUnitObservedGeneration memKube ''ns'' staleUnit (sampleConfiguredCluster ''5'')) = Inr ()"
    "u_Name staleUnit = ''db-0''" by code_simp+
  then have "reconcileUnitObservedGeneration memKube ''ns'' staleUnit (sampleConfiguredCluster ''5'') =
      (Inr (), snd (reconcileUnitObservedGeneration memKube ''ns'' staleUnit (sampleConfiguredCluster ''5'')))"
    by (metis prod.collapse)
  from observed_generation_current [OF mem.kube_api_axioms this] c(2) show ?thesis by simp
qed

text \<open>The unit was changed by someone else: the new status is lost, and the retry reports success.\<close>

theorem status_conflict_swallowed_witness:
  "fst (retryOnConflict DefaultRetry sampleStatusRun (staleUnit, sampleConfiguredCluster ''5'')) = Inr () \<and>
   memView (snd (snd (retryOnConflict DefaultRetry sampleStatusRun (staleUnit, sampleConfiguredCluster ''5'')))) =
   memView (sampleConfiguredCluster ''5'')"
proof -
  let ?s = "sampleConfiguredCluster ''5''"
  let ?l1 = "fst (snd (sampleStatusRun (staleUnit, ?s)))"
  have first: "sampleStatusRun (staleUnit, ?s) = (Inl (Api Conflict), (?l1, ?s))" by code_simp
  have names: "u_ConfigTemplateName (u_Spec ?l1) \<noteq> []" "u_ConfigValueName (u_Spec ?l1) \<noteq> []" by code_simp+
  have again: "thenA (observeUnit memKube idleAgent plainExt sampleVars ''ns'' ''db-0'') (observeConfig memKube ''ns'' ?l1) (?l1, ?s) =
      (Inr (), (?l1, ?s))" by code_simp
  from status_conflict_swallowed [OF plain.ext_laws_axioms first names again] show ?thesis by simp
qed

end
