(* ===== verification/PodDiff.thy ===== *)
theory PodDiff
  imports UnitStatus
begin

text \<open>
  The comparisons between a unit and its pod in \<open>src/pkg/controller/unit/unit_po.go\<close>: which pod a
  unit stands for (\<open>convert2Pod\<close>), when the pod has to be recreated (\<open>ifNeedUpgradePod\<close>,
  \<open>LoopCompareEnv\<close>, \<open>canUseInPlaceResize\<close>) and which changes are patched in
  (\<open>generatePatchPod\<close>, \<open>envVarsEqual\<close>).
\<close>

section \<open>Environment variables\<close>

text \<open>A map by name, in which the last variable of a name wins.\<close>

definition envMap :: "envVar list \<Rightarrow> (string, envVar) fmap" where
  "envMap es = fold (\<lambda>e m. fmupd (e_Name e) e m) es fmempty"

text \<open>What the loop of \<open>LoopCompareEnv\<close> asks of a variable of the unit and its namesake in the pod.\<close>

definition envMatches :: "envVar \<Rightarrow> envVar \<Rightarrow> bool" where
  "envMatches u p =
     (if e_Value u \<noteq> [] \<and> e_Value u \<noteq> e_Value p then False
      else if e_ValueFrom u \<noteq> None \<and> e_ValueFrom u \<noteq> e_ValueFrom p then False
      else if e_Value u = [] \<and> e_ValueFrom u = None then e_Value p = [] \<and> e_ValueFrom p = None
      else True)"

fun compareLoop :: "envVar list \<Rightarrow> (string, envVar) fmap \<Rightarrow> bool \<Rightarrow> bool \<times> (string, envVar) fmap" where
  "compareLoop [] m matched = (matched, m)"
| "compareLoop (u # us) m matched =
     (case fmlookup m (e_Name u) of
        None \<Rightarrow> compareLoop us m False
      | Some p \<Rightarrow> compareLoop us (fmdrop (e_Name u) m) (matched \<and> envMatches u p))"

definition LoopCompareEnv :: "envVar goslice \<Rightarrow> envVar goslice \<Rightarrow> bool" where
  "LoopCompareEnv unitEnvs podEnvs =
     (if (unitEnvs = None) \<noteq> (podEnvs = None) then False
      else if elems unitEnvs = [] \<and> elems podEnvs = [] then True
      else case compareLoop (elems unitEnvs) (envMap (elems podEnvs)) (length (elems unitEnvs) = length (elems podEnvs)) of
             (matched, rest) \<Rightarrow> matched \<and> fmdom rest = {||})"

definition envVarsEqual :: "envVar goslice \<Rightarrow> envVar goslice \<Rightarrow> bool" where
  "envVarsEqual a b \<longleftrightarrow>
     length (elems a) = length (elems b) \<and>
     fBall (fmdom (envMap (elems a))) (\<lambda>name.
       case (fmlookup (envMap (elems a)) name, fmlookup (envMap (elems b)) name) of
         (Some envA, Some envB) \<Rightarrow> e_Value envA = e_Value envB \<and> e_ValueFrom envA = e_ValueFrom envB
       | _ \<Rightarrow> False)"

section \<open>The pod of a unit\<close>

definition getPodsLabelSet :: "Unit \<Rightarrow> string gomap" where
  "getPodsLabelSet unit = mputAbsent (Labels (u_meta unit)) (mputAll (t_Labels (Template (u_Spec unit))) None)"

definition getPodsAnnotationSet :: "Unit \<Rightarrow> string gomap" where
  "getPodsAnnotationSet unit =
     mputAbsent (Annotations (u_meta unit)) (mputAll (t_Annotations (Template (u_Spec unit))) None)"

definition podOf :: "ext \<Rightarrow> Unit \<Rightarrow> pod" where
  "podOf X unit = \<lparr>
     p_meta = meta0\<lparr>Name := u_Name unit, Namespace := Namespace (u_meta unit), Labels := getPodsLabelSet unit,
       Annotations := getPodsAnnotationSet unit, OwnerReferences := [newControllerRef X (u_meta unit) ''Unit'']\<rparr>,
     p_Spec = t_Spec (Template (u_Spec unit)),
     p_Status = podStatus0\<rparr>"

section \<open>Recreation\<close>

abbreviation mainOf :: "Unit \<Rightarrow> string" where
  "mainOf u \<equiv> mstr (Annotations (u_meta u)) AnnotationMainContainerName"

definition containerReason :: "ext \<Rightarrow> string \<Rightarrow> container \<Rightarrow> container \<Rightarrow> string option" where
  "containerReason X mainName u p =
     (if c_Name u = mainName then
        if c_Image u \<noteq> c_Image p then Some ''image changed''
        else if qMilliValue X (Cpu X (Requests (c_Resources u))) \<noteq> qMilliValue X (Cpu X (Requests (c_Resources p))) \<or>
                qMilliValue X (Cpu X (Limits (c_Resources u))) \<noteq> qMilliValue X (Cpu X (Limits (c_Resources p)))
        then Some ''cpu changed''
        else if qValue X (Memory X (Requests (c_Resources u))) \<noteq> qValue X (Memory X (Requests (c_Resources p))) \<or>
                qValue X (Memory X (Limits (c_Resources u))) \<noteq> qValue X (Memory X (Limits (c_Resources p)))
        then Some ''memory changed''
        else if \<not> LoopCompareEnv (c_Env u) (c_Env p) then Some ''env changed''
        else if c_ResizePolicy u \<noteq> c_ResizePolicy p then Some ''resizePolicy changed''
        else None
      else if \<not> LoopCompareEnv (c_Env u) (c_Env p) then Some (''container '' @ c_Name u @ '' env changed'')
      else None)"

text \<open>The loops stop at the first reason; the inner one at the first pod container of the name.\<close>

fun containersReason :: "ext \<Rightarrow> string \<Rightarrow> container list \<Rightarrow> container list \<Rightarrow> string option" where
  "containersReason X mainName [] ps = None"
| "containersReason X mainName (u # us) ps =
     (case Option.bind (List.find (\<lambda>p. c_Name p = c_Name u) ps) (containerReason X mainName u) of
        Some r \<Rightarrow> Some r
      | None \<Rightarrow> containersReason X mainName us ps)"

definition initReason :: "container list \<Rightarrow> container list \<Rightarrow> string option" where
  "initReason us ps =
     (if list_ex (\<lambda>u. list_ex (\<lambda>p. c_Name u = c_Name p \<and> \<not> LoopCompareEnv (c_Env u) (c_Env p)) ps) us
      then Some ''init container env changed'' else None)"

definition ifNeedUpgradePod :: "ext \<Rightarrow> Unit \<Rightarrow> pod \<Rightarrow> string option" where
  "ifNeedUpgradePod X unit pod =
     (let tmpl = t_Spec (Template (u_Spec unit)) in
      case containersReason X (mainOf unit) (Containers tmpl) (Containers (p_Spec pod)) of
        Some r \<Rightarrow> Some r
      | None \<Rightarrow> (case initReason (InitContainers tmpl) (InitContainers (p_Spec pod)) of
            Some r \<Rightarrow> Some r
          | None \<Rightarrow>
              if NodeName (p_Spec pod) \<noteq> [] \<and> p_Reason (p_Status pod) = ''NodeAffinity'' \<and> p_Phase (p_Status pod) = PodFailed
              then Some ''Pod Predicate NodeAffinity failed'' else None))"

definition resizePolicyOf :: "string \<Rightarrow> container list \<Rightarrow> resizePolicy goslice" where
  "resizePolicyOf mainName cs = (case List.find (\<lambda>c. c_Name c = mainName) cs of None \<Rightarrow> None | Some c \<Rightarrow> c_ResizePolicy c)"

definition canUseInPlaceResize :: "Unit \<Rightarrow> pod \<Rightarrow> bool" where
  "canUseInPlaceResize unit pod =
     (if mainOf unit = [] then False
      else let desired = resizePolicyOf (mainOf unit) (Containers (t_Spec (Template (u_Spec unit))));
               actual = resizePolicyOf (mainOf unit) (Containers (p_Spec pod))
           in if elems desired \<noteq> [] \<and> elems actual = [] then False else desired = actual)"

section \<open>Patch\<close>

text \<open>What one container of the unit does to a container of the pod.\<close>

definition patchContainer :: "string \<Rightarrow> container \<Rightarrow> container \<Rightarrow> container" where
  "patchContainer mainName u c =
     (if c_Name u \<noteq> c_Name c then c
      else let c' = (if c_Name u \<noteq> mainName then c\<lparr>c_Image := c_Image u\<rparr> else c)
           in if envVarsEqual (c_Env u) (c_Env c') then c' else c'\<lparr>c_Env := Some (elems (c_Env u))\<rparr>)"

definition patchInitContainer :: "container \<Rightarrow> container \<Rightarrow> container" where
  "patchInitContainer u c =
     (if c_Name u \<noteq> c_Name c \<or> envVarsEqual (c_Env u) (c_Env c) then c else c\<lparr>c_Env := Some (elems (c_Env u))\<rparr>)"

definition generatePatchPod :: "Unit \<Rightarrow> pod \<Rightarrow> pod" where
  "generatePatchPod unit curPod =
     (let tmpl = t_Spec (Template (u_Spec unit)) in
      curPod\<lparr>
        p_meta := (p_meta curPod)\<lparr>
          Labels := mputDiffering (Labels (u_meta unit)) (Labels (p_meta curPod)),
          Annotations := mputDiffering (Annotations (u_meta unit)) (Annotations (p_meta curPod))\<rparr>,
        p_Spec := (p_Spec curPod)\<lparr>
          NodeName := (if NodeName tmpl \<noteq> [] \<and> NodeName tmpl \<noteq> NodeName (p_Spec curPod) then NodeName tmpl
                       else NodeName (p_Spec curPod)),
          Containers := fold (\<lambda>u cs. map (patchContainer (mainOf unit) u) cs) (Containers tmpl) (Containers (p_Spec curPod)),
          InitContainers := fold (\<lambda>u cs. map (patchInitContainer u) cs) (InitContainers tmpl) (InitContainers (p_Spec curPod))\<rparr>\<rparr>)"

definition ifNeedPatchPod :: "'s kube \<Rightarrow> Unit \<Rightarrow> pod \<Rightarrow> error + bool" where
  "ifNeedPatchPod K unit pod = kPatchData K (OPod pod) (OPod (generatePatchPod unit pod))"

section \<open>Specification of the comparisons\<close>

lemma envMap_lookup: "fmlookup (envMap es) k = map_of (rev (map (\<lambda>e. (e_Name e, e)) es)) k"
proof -
  have "fmlookup (fold (\<lambda>e m. fmupd (e_Name e) e m) es m0) k =
      (case map_of (rev (map (\<lambda>e. (e_Name e, e)) es)) k of Some e \<Rightarrow> Some e | None \<Rightarrow> fmlookup m0 k)" for m0
    by (induction es arbitrary: m0) (auto simp: map_add_def split: option.split)
  then show ?thesis by (simp add: envMap_def split: option.split)
qed

lemma fmdom_envMap: "fset (fmdom (envMap es)) = e_Name ` set es"
proof -
  have "fset (fmdom (fold (\<lambda>e m. fmupd (e_Name e) e m) es m0)) = fset (fmdom m0) \<union> e_Name ` set es" for m0
    by (induction es arbitrary: m0) auto
  then show ?thesis by (simp add: envMap_def)
qed

lemma envMap_distinct:
  "distinct (map e_Name es) \<Longrightarrow> fmlookup (envMap es) k = Some e \<longleftrightarrow> e \<in> set es \<and> e_Name e = k"
  unfolding envMap_lookup
  by (subst map_of_eq_Some_iff) (auto simp: rev_map [symmetric] comp_def)

lemma leftover_empty:
  "fmdom (fmfilter (\<lambda>k. k \<notin> N) (envMap es)) = {||} \<longleftrightarrow> e_Name ` set es \<subseteq> N"
proof -
  have "fmdom (fmfilter (\<lambda>k. k \<notin> N) (envMap es)) = {||} \<longleftrightarrow> fset (fmdom (fmfilter (\<lambda>k. k \<notin> N) (envMap es))) = {}"
    by (metis bot_fset.rep_eq fset_inverse)
  also have "\<dots> \<longleftrightarrow> {k \<in> fset (fmdom (envMap es)). k \<notin> N} = {}" by (simp add: fmdom_filter) blast
  finally show ?thesis unfolding fmdom_envMap by auto
qed

lemma compareLoop_spec:
  "compareLoop us m ok = (ok', m') \<Longrightarrow>
   (ok' \<longleftrightarrow> ok \<and> distinct (map e_Name us) \<and> (\<forall>u \<in> set us. \<exists>p. fmlookup m (e_Name u) = Some p \<and> envMatches u p)) \<and>
   m' = fmfilter (\<lambda>k. k \<notin> e_Name ` set us) m"
proof (induction us m ok arbitrary: ok' m' rule: compareLoop.induct)
  case (2 u us m ok)
  show ?case
  proof (cases "fmlookup m (e_Name u)")
    case None
    with "2.IH"(1) [OF None, of ok' m'] "2.prems"
    have "\<not> ok'" and m': "m' = fmfilter (\<lambda>k. k \<notin> e_Name ` set us) m" by auto
    have "m' = fmfilter (\<lambda>k. k \<notin> e_Name ` set (u # us)) m"
      unfolding m' by (rule fmap_ext) (use None in auto)
    with None \<open>\<not> ok'\<close> show ?thesis by simp
  next
    case (Some p)
    with "2.IH"(2) [OF Some, of ok' m'] "2.prems"
    have ok': "ok' \<longleftrightarrow> ok \<and> envMatches u p \<and> distinct (map e_Name us) \<and>
        (\<forall>w \<in> set us. \<exists>q. fmlookup (fmdrop (e_Name u) m) (e_Name w) = Some q \<and> envMatches w q)"
      and m': "m' = fmfilter (\<lambda>k. k \<notin> e_Name ` set us) (fmdrop (e_Name u) m)" by auto
    have "m' = fmfilter (\<lambda>k. k \<notin> e_Name ` set (u # us)) m"
      unfolding m' by (rule fmap_ext) auto
    moreover have "ok' \<longleftrightarrow> ok \<and> distinct (map e_Name (u # us)) \<and>
        (\<forall>w \<in> set (u # us). \<exists>q. fmlookup m (e_Name w) = Some q \<and> envMatches w q)"
      unfolding ok' using Some by (auto simp: image_iff split: if_splits)
    ultimately show ?thesis by blast
  qed
qed auto


lemma envMatches_refl [simp]: "envMatches e e"
  by (simp add: envMatches_def)

lemma envCompare_refl: "LoopCompareEnv a a \<longleftrightarrow> distinct (map e_Name (elems a))"
  unfolding LoopCompareEnv_def
proof (cases "elems a = []")
  case False
  obtain ok m where loop: "compareLoop (elems a) (envMap (elems a)) True = (ok, m)" by fastforce
  note spec = compareLoop_spec [OF loop]
  have "fmdom m = {||}"
    using spec leftover_empty by simp
  moreover have "ok \<longleftrightarrow> distinct (map e_Name (elems a))"
    using spec envMap_distinct [of "elems a"] by (metis envMatches_refl)
  ultimately show "(if (a = None) \<noteq> (a = None) then False
      else if elems a = [] \<and> elems a = [] then True
      else case compareLoop (elems a) (envMap (elems a)) (length (elems a) = length (elems a)) of
             (matched, rest) \<Rightarrow> matched \<and> fmdom rest = {||}) \<longleftrightarrow> distinct (map e_Name (elems a))"
    using False loop by simp
qed simp

lemma envVarsEqual_refl: "elems a = elems b \<Longrightarrow> envVarsEqual a b"
  by (auto simp: envVarsEqual_def fmlookup_dom_iff)

section \<open>Recreation reaches a fixed point\<close>

lemma find_distinct: "distinct (map g xs) \<Longrightarrow> x \<in> set xs \<Longrightarrow> List.find (\<lambda>y. g y = g x) xs = Some x"
  by (induction xs) auto

lemma containersReason_None:
  "containersReason X m us ps = None \<longleftrightarrow>
     (\<forall>u \<in> set us. Option.bind (List.find (\<lambda>p. c_Name p = c_Name u) ps) (containerReason X m u) = None)"
  by (induction us) (auto split: option.split)

lemma containerReason_self: "containerReason X m c c = None \<longleftrightarrow> distinct (map e_Name (elems (c_Env c)))"
  by (simp add: containerReason_def envCompare_refl)

lemma initReason_None:
  "initReason us ps = None \<longleftrightarrow> (\<forall>u \<in> set us. \<forall>p \<in> set ps. c_Name u = c_Name p \<longrightarrow> LoopCompareEnv (c_Env u) (c_Env p))"
  by (auto simp: initReason_def list_ex_iff)

lemma same_name: "distinct (map c_Name cs) \<Longrightarrow> u \<in> set cs \<Longrightarrow> p \<in> set cs \<Longrightarrow> c_Name u = c_Name p \<Longrightarrow> u = p"
  by (simp add: distinct_map inj_on_def)

text \<open>
  C23 (\<open>ifNeedUpgradePod\<close>, \<open>convert2Pod\<close>): for a unit whose containers have distinct names, the pod
  that is created from it needs no recreation exactly if no container or init container defines an
  environment variable twice. In particular a unit with a duplicate variable has its pod deleted and
  created again at every reconciliation.
\<close>

theorem fresh_pod_upgrade:
  assumes d: "distinct (map c_Name (Containers (t_Spec (Template (u_Spec u)))))"
    and di: "distinct (map c_Name (InitContainers (t_Spec (Template (u_Spec u)))))"
  shows "ifNeedUpgradePod X u (podOf X u) = None \<longleftrightarrow>
    (\<forall>c \<in> set (Containers (t_Spec (Template (u_Spec u)))) \<union> set (InitContainers (t_Spec (Template (u_Spec u)))).
       distinct (map e_Name (elems (c_Env c))))"
proof -
  let ?cs = "Containers (t_Spec (Template (u_Spec u)))" and ?is = "InitContainers (t_Spec (Template (u_Spec u)))"
  have "Option.bind (List.find (\<lambda>p. c_Name p = c_Name c) ?cs) (containerReason X (mainOf u) c) = None \<longleftrightarrow>
      distinct (map e_Name (elems (c_Env c)))" if "c \<in> set ?cs" for c
    using find_distinct [OF d that] by (simp add: containerReason_self)
  then have main: "containersReason X (mainOf u) ?cs ?cs = None \<longleftrightarrow> (\<forall>c \<in> set ?cs. distinct (map e_Name (elems (c_Env c))))"
    by (simp add: containersReason_None)
  have init: "initReason ?is ?is = None \<longleftrightarrow> (\<forall>c \<in> set ?is. distinct (map e_Name (elems (c_Env c))))"
    using same_name [OF di] unfolding initReason_None by (metis envCompare_refl)
  from main init show ?thesis
    by (auto simp: ifNeedUpgradePod_def podOf_def Let_def podStatus0_def PodFailed_def split: option.split)
qed

section \<open>Patching reaches a fixed point\<close>

lemma fold_map_map: "fold (\<lambda>u cs. map (f u) cs) us cs = map (fold f us) cs"
  by (induction us arbitrary: cs) (simp_all add: comp_def)

text \<open>Containers with distinct names change different containers of the pod.\<close>

lemma fold_by_name:
  assumes keep: "\<And>u c. c_Name (f u c) = c_Name c" and skip: "\<And>u c. c_Name u \<noteq> c_Name c \<Longrightarrow> f u c = c"
  shows "distinct (map c_Name us) \<Longrightarrow>
    fold f us c = (case List.find (\<lambda>u. c_Name u = c_Name c) us of None \<Rightarrow> c | Some u \<Rightarrow> f u c)"
proof (induction us arbitrary: c)
  case (Cons u us)
  show ?case
  proof (cases "c_Name u = c_Name c")
    case True
    with Cons.prems have "List.find (\<lambda>u. c_Name u = c_Name c) us = None"
      by (auto simp: find_None_iff) (metis image_eqI)
    with Cons True keep show ?thesis by simp
  next
    case False
    with Cons skip [OF False] show ?thesis by simp
  qed
qed simp

lemma fold_by_name_idem:
  assumes "\<And>u c. c_Name (f u c) = c_Name c" and "\<And>u c. c_Name u \<noteq> c_Name c \<Longrightarrow> f u c = c"
    and "\<And>u c. f u (f u c) = f u c" and "distinct (map c_Name us)"
  shows "fold f us (fold f us c) = fold f us c"
proof -
  note f = fold_by_name [of f us, OF assms(1,2,4)]
  show ?thesis using assms(1,3) by (simp add: f split: option.split)
qed

lemma patchContainer_laws:
  "c_Name (patchContainer m u c) = c_Name c" "c_Name u \<noteq> c_Name c \<Longrightarrow> patchContainer m u c = c"
  "patchContainer m u (patchContainer m u c) = patchContainer m u c"
  by (auto simp: patchContainer_def Let_def envVarsEqual_refl)

lemma patchInit_laws:
  "c_Name (patchInitContainer u c) = c_Name c" "c_Name u \<noteq> c_Name c \<Longrightarrow> patchInitContainer u c = c"
  "patchInitContainer u (patchInitContainer u c) = patchInitContainer u c"
  by (auto simp: patchInitContainer_def envVarsEqual_refl)

lemma generatePatchPod_idem:
  assumes "distinct (map c_Name (Containers (t_Spec (Template (u_Spec u)))))"
    and "distinct (map c_Name (InitContainers (t_Spec (Template (u_Spec u)))))"
  shows "generatePatchPod u (generatePatchPod u p) = generatePatchPod u p"
proof -
  note c = fold_by_name_idem [of "patchContainer (mainOf u)", OF patchContainer_laws assms(1)]
  note i = fold_by_name_idem [of patchInitContainer, OF patchInit_laws assms(2)]
  show ?thesis
    by (simp add: generatePatchPod_def Let_def mputDiffering_idem fold_map_map c i comp_def)
qed

text \<open>
  C24 (\<open>generatePatchPod\<close>, \<open>ifNeedPatchPod\<close>): patching reaches a fixed point in one step. For a unit
  whose containers have distinct names, the patched pod needs no further patch; and in it every
  container of the unit other than the main one has the unit's image.
\<close>

theorem patch_converges:
  assumes "kube_api K view wire"
    and "distinct (map c_Name (Containers (t_Spec (Template (u_Spec u)))))"
    and "distinct (map c_Name (InitContainers (t_Spec (Template (u_Spec u)))))"
  shows "ifNeedPatchPod K u (generatePatchPod u p) = Inr False \<and>
    (\<forall>c \<in> set (Containers (t_Spec (Template (u_Spec u)))). \<forall>d \<in> set (Containers (p_Spec (generatePatchPod u p))).
       c_Name c = c_Name d \<and> c_Name c \<noteq> mainOf u \<longrightarrow> c_Image d = c_Image c \<and> envVarsEqual (c_Env c) (c_Env d))"
proof
  show "ifNeedPatchPod K u (generatePatchPod u p) = Inr False"
    by (simp add: ifNeedPatchPod_def generatePatchPod_idem [OF assms(2,3)] kube_api.patch_data [OF assms(1)])
  show "\<forall>c \<in> set (Containers (t_Spec (Template (u_Spec u)))). \<forall>d \<in> set (Containers (p_Spec (generatePatchPod u p))).
       c_Name c = c_Name d \<and> c_Name c \<noteq> mainOf u \<longrightarrow> c_Image d = c_Image c \<and> envVarsEqual (c_Env c) (c_Env d)"
  proof (intro ballI impI)
    fix c d assume c: "c \<in> set (Containers (t_Spec (Template (u_Spec u))))"
      and d: "d \<in> set (Containers (p_Spec (generatePatchPod u p)))" and n: "c_Name c = c_Name d \<and> c_Name c \<noteq> mainOf u"
    from d obtain e where e: "d = fold (patchContainer (mainOf u)) (Containers (t_Spec (Template (u_Spec u)))) e"
      by (auto simp: generatePatchPod_def Let_def fold_map_map)
    note f = fold_by_name [of "patchContainer (mainOf u)", OF patchContainer_laws(1,2) assms(2)]
    have "c_Name d = c_Name e" by (simp add: e f patchContainer_laws split: option.split)
    with n find_distinct [OF assms(2) c] have "d = patchContainer (mainOf u) c e" by (simp add: e f)
    with n \<open>c_Name d = c_Name e\<close> show "c_Image d = c_Image c \<and> envVarsEqual (c_Env c) (c_Env d)"
      by (auto simp: patchContainer_def Let_def envVarsEqual_refl)
  qed
qed

text \<open>Witnesses: a container with two variables, and one with a duplicate.\<close>

definition sampleEnv :: "string \<Rightarrow> string \<Rightarrow> envVar" where
  "sampleEnv n v = \<lparr>e_Name = n, e_Value = v, e_ValueFrom = None\<rparr>"

definition sampleEnvUnit :: "envVar list \<Rightarrow> Unit" where
  "sampleEnvUnit es = sampleStarted\<lparr>u_Spec := (u_Spec sampleStarted)\<lparr>Template := (Template (u_Spec sampleStarted))\<lparr>
     t_Spec := podSpec0\<lparr>Containers := [container0\<lparr>c_Name := ''mysql'', c_Image := ''mysql:8'', c_Env := Some es\<rparr>]\<rparr>\<rparr>\<rparr>\<rparr>"


theorem fresh_pod_upgrade_witness:
  "ifNeedUpgradePod plainExt (sampleEnvUnit [sampleEnv ''A'' ''1'']) (podOf plainExt (sampleEnvUnit [sampleEnv ''A'' ''1''])) = None \<and>
   ifNeedUpgradePod plainExt (sampleEnvUnit [sampleEnv ''A'' ''1'', sampleEnv ''A'' ''2''])
     (podOf plainExt (sampleEnvUnit [sampleEnv ''A'' ''1'', sampleEnv ''A'' ''2''])) \<noteq> None"
  by (subst (1 2) fresh_pod_upgrade) (simp_all add: sampleEnvUnit_def sampleStarted_def zero_defs sampleEnv_def)

theorem patch_converges_witness:
  "ifNeedPatchPod memKube (sampleEnvUnit [sampleEnv ''A'' ''1''])
     (generatePatchPod (sampleEnvUnit [sampleEnv ''A'' ''1'']) samplePod) = Inr False \<and>
   generatePatchPod (sampleEnvUnit [sampleEnv ''A'' ''1'']) samplePod \<noteq> samplePod"
proof
  show "ifNeedPatchPod memKube (sampleEnvUnit [sampleEnv ''A'' ''1''])
     (generatePatchPod (sampleEnvUnit [sampleEnv ''A'' ''1'']) samplePod) = Inr False"
    by (rule patch_converges [THEN conjunct1, OF mem.kube_api_axioms])
      (simp_all add: sampleEnvUnit_def sampleStarted_def zero_defs)
  show "generatePatchPod (sampleEnvUnit [sampleEnv ''A'' ''1'']) samplePod \<noteq> samplePod" by code_simp
qed

end
