(* ===== verification/UnitPod.thy ===== *)
theory UnitPod
  imports PodDiff
begin

text \<open>
  The pod of a unit (\<open>src/pkg/controller/unit/unit_po.go\<close>): creating, recreating, resizing and
  patching it, recovering a failed one, waiting until it is scheduled.
\<close>

section \<open>Operations\<close>

definition convert2Pod :: "'s kube \<Rightarrow> ext \<Rightarrow> (Unit \<times> 's, pod) act" where
  "convert2Pod K X =
     bindA getL (\<lambda>u.
     thenA (mapErr (Fmt ''[upgradePod] get unit error'') (refetch K (Namespace (u_meta u)) (u_Name u)))
       (bindA getL (\<lambda>unit. ret (podOf X unit))))"

text \<open>
  \<open>pod, _ = r.convert2Pod(ctx, unit); r.Create(ctx, pod)\<close>: after a failed conversion the client is
  handed a nil pod, which it refuses.
\<close>

definition createConverted :: "'s kube \<Rightarrow> ext \<Rightarrow> (Unit \<times> 's, unit) act" where
  "createConverted K X =
     tryA (convert2Pod K X) (\<lambda>r. case r of
        Inl _ \<Rightarrow> fail (Msg ''expected pointer, but got nil'')
      | Inr pod \<Rightarrow> bindA (liftW (createObj K (OPod pod))) (\<lambda>_. ret ()))"

fun firstIndex :: "('a \<Rightarrow> bool) \<Rightarrow> 'a list \<Rightarrow> nat option" where
  "firstIndex P [] = None"
| "firstIndex P (x # xs) = (if P x then Some 0 else map_option Suc (firstIndex P xs))"

definition resizePod :: "'s kube \<Rightarrow> Unit \<Rightarrow> pod \<Rightarrow> ('s, unit) act" where
  "resizePod K unit pod =
     (if mainOf unit = [] then fail (Msg ''missing annotation for main container name'')
      else case List.find (\<lambda>c. c_Name c = mainOf unit) (Containers (t_Spec (Template (u_Spec unit)))) of
             None \<Rightarrow> fail (Msg ''main container not found in unit template'')
           | Some c \<Rightarrow>
               (case firstIndex (\<lambda>c. c_Name c = mainOf unit) (Containers (p_Spec pod)) of
                  None \<Rightarrow> fail (Msg ''main container not found in pod spec'')
                | Some i \<Rightarrow>
                    if Requests (c_Resources (Containers (p_Spec pod) ! i)) = Requests (c_Resources c) \<and>
                       Limits (c_Resources (Containers (p_Spec pod) ! i)) = Limits (c_Resources c)
                    then ret ()
                    else resizeObj K (keyOf (OPod pod)) i (c_Resources c)))"

text \<open>A delete that finds nothing has succeeded; other errors are returned as they are.\<close>

definition ignoreAbsent :: "('s, unit) act \<Rightarrow> ('s, unit) act" where
  "ignoreAbsent del = tryA del (\<lambda>r. case r of Inl e \<Rightarrow> if IsNotFound e then ret () else fail e | Inr _ \<Rightarrow> ret ())"

definition upgradePod :: "'s kube \<Rightarrow> 's agent \<Rightarrow> ext \<Rightarrow> vars \<Rightarrow> string \<Rightarrow> string \<Rightarrow> pod \<Rightarrow> (Unit \<times> 's, unit) act" where
  "upgradePod K A X V ns name pod =
     bindA getL (\<lambda>unit.
     let tmpUnit = unit\<lparr>u_Spec := (u_Spec unit)\<lparr>Startup := False\<rparr>\<rparr> in
     thenA (ignoreErr (liftW (withLocal tmpUnit (reconcileUnitServer K A V ns name))))
     (thenA (liftW (ignoreAbsent (deleteObj K (keyOf (OPod pod)))))
     (thenA (mapErr (Fmt ''[upgradePod] error waiting for pod deleted'')
              (liftW (waitGone (kPolls K 2000 40000) (getPod K ns name) ''[upgradePod]wait pod deleted: get pod fail'')))
     (bindA (mapErr (Fmt ''convert unit to pod error'') (convert2Pod K X)) (\<lambda>newPod.
       bindA (liftW (createObj K (OPod newPod))) (\<lambda>_. ret ()))))))"

definition announceUpgrade :: "'s kube \<Rightarrow> Unit \<Rightarrow> string \<Rightarrow> ('s, unit) act" where
  "announceUpgrade K unit why =
     mapErr (Fmt ''[reconcilePod] update unit status fail before [upgradePod]'')
       (retryOnConflict DefaultRetry
         (bindA (statusUpdate K (OUnit (unit\<lparr>u_Status := (u_Status unit)\<lparr>Phase := [], HostIP := [], PodIPs := [],
            Task := why, u_ObservedGeneration := Generation (u_meta unit)\<rparr>\<rparr>))) (\<lambda>_. ret ())))"

text \<open>Labels, annotations and the like; errors of the patch are only recorded.\<close>

definition patchPod :: "'s kube \<Rightarrow> string \<Rightarrow> pod \<Rightarrow> (Unit \<times> 's, unit) act" where
  "patchPod K ns pod =
     bindA getL (\<lambda>unit.
       case ifNeedPatchPod K unit pod of
         Inr True \<Rightarrow>
           thenA (ignoreErr (liftW (patchObj K (OPod pod) (OPod (generatePatchPod unit pod)))))
             (mapErr (Fmt ''[update pvc] error'') (liftW (reconcileUnitObservedGeneration K ns unit)))
       | _ \<Rightarrow> ret ())"

definition inPlace :: "vars \<Rightarrow> Unit \<Rightarrow> pod \<Rightarrow> string \<Rightarrow> bool" where
  "inPlace V unit pod why \<longleftrightarrow>
     (why = ''cpu changed'' \<or> why = ''memory changed'') \<and> InPlacePodVerticalScalingEnabled V \<and>
     canUseInPlaceResize unit pod"

definition reconcileExistingPod :: "'s kube \<Rightarrow> 's agent \<Rightarrow> ext \<Rightarrow> vars \<Rightarrow> string \<Rightarrow> string \<Rightarrow> Unit \<Rightarrow> pod \<Rightarrow> (Unit \<times> 's, unit) act" where
  "reconcileExistingPod K A X V ns name unit pod =
     (if DeletionTimestamp (p_meta pod) \<noteq> None then fail (Msg ''pod is marked for deleted'')
      else case ifNeedUpgradePod X unit pod of
             None \<Rightarrow> patchPod K ns pod
           | Some why \<Rightarrow>
               thenA (liftW (announceUpgrade K unit why))
                 (if inPlace V unit pod why
                  then mapErr (Fmt ''[reconcilePod] resize pod error'') (liftW (resizePod K unit pod))
                  else thenA (upgradePod K A X V ns name pod) (patchPod K ns pod)))"

definition reconcilePod :: "'s kube \<Rightarrow> 's agent \<Rightarrow> ext \<Rightarrow> vars \<Rightarrow> string \<Rightarrow> string \<Rightarrow> (Unit \<times> 's, unit) act" where
  "reconcilePod K A X V ns name =
     bindA getL (\<lambda>u.
     thenA (mapErr (Fmt ''[reconcilePod] get unit error'') (refetch K ns (u_Name u)))
     (bindA getL (\<lambda>unit.
       tryA (liftW (getPod K ns (u_Name unit))) (\<lambda>r. case r of
          Inl e \<Rightarrow> if IsNotFound e then createConverted K X else fail e
        | Inr pod \<Rightarrow> reconcileExistingPod K A X V ns name unit pod))))"

text \<open>The pod that is found is not used by the caller.\<close>

definition waitUntilPodScheduled :: "'s kube \<Rightarrow> string \<Rightarrow> string \<Rightarrow> ('s, unit) act" where
  "waitUntilPodScheduled K podName namespace =
     mapErr (Fmt ''waitUntilPodScheduled fail'')
       (pollUntil (kPolls K 1000 5000) (tryA (getPod K namespace podName) (\<lambda>r. case r of
          Inl _ \<Rightarrow> ret False | Inr pod \<Rightarrow> ret (NodeName (p_Spec pod) \<noteq> [] \<and> IsCreated pod))))"

section \<open>Recovery of a failed pod\<close>

text \<open>The timeout is a 64-bit number of nanoseconds, ten seconds for each unit of the threshold.\<close>

definition recoveryTimeout :: "recoveryPolicy \<Rightarrow> nat" where
  "recoveryTimeout pol = nat (wrap64 (wrap64 (10 * ReconcileThreshold pol) * 1000000000) div 1000000)"

definition waitPodFailed :: "'s kube \<Rightarrow> Unit \<Rightarrow> ('s, unit) act" where
  "waitPodFailed K unit =
     (case FailedPodRecoveryPolicy (u_Spec unit) of
        None \<Rightarrow> fail (Panic ''nil pointer dereference'')
      | Some pol \<Rightarrow>
          mapErr (Fmt ''waitPodFailed fail'')
            (pollUntil (kPolls K 10000 (recoveryTimeout pol)) (tryA (getPod K (Namespace (u_meta unit)) (u_Name unit)) (\<lambda>r. case r of
               Inl _ \<Rightarrow> ret False | Inr pod \<Rightarrow> ret (\<not> (IsFailed pod \<or> IsPodSucceeded pod))))))"

text \<open>Polling until a read reports NotFound; every other answer means waiting.\<close>

definition pollAbsent :: "nat \<Rightarrow> ('s, 'a) act \<Rightarrow> ('s, unit) act" where
  "pollAbsent n get = pollUntil n (tryA get (\<lambda>r. case r of Inl e \<Rightarrow> ret (IsNotFound e) | Inr _ \<Rightarrow> ret False))"

definition recreatePod :: "'s kube \<Rightarrow> ext \<Rightarrow> pod \<Rightarrow> (Unit \<times> 's, unit) act" where
  "recreatePod K X pod =
     bindA getL (\<lambda>unit.
     thenA (liftW (ignoreAbsent (deleteObj K (keyOf (OPod pod)))))
     (thenA (mapErr (Fmt ''[podAutoRecovery]: wait pod delete fail'')
              (liftW (pollAbsent (kPolls K 1000 10000) (getPod K (Namespace (u_meta unit)) (u_Name unit)))))
       (createConverted K X)))"

text \<open>After a failed read other than NotFound the pod is the zero value, whose phase is empty.\<close>

definition podAutoRecovery :: "'s kube \<Rightarrow> ext \<Rightarrow> (Unit \<times> 's, unit) act" where
  "podAutoRecovery K X =
     bindA getL (\<lambda>unit.
     tryA (liftW (getPod K (Namespace (u_meta unit)) (u_Name unit))) (\<lambda>r. case r of
        Inl _ \<Rightarrow> ret ()
      | Inr pod \<Rightarrow>
          if \<not> (IsFailed pod \<or> IsPodSucceeded pod) then ret ()
          else if (case FailedPodRecoveryPolicy (u_Spec unit) of None \<Rightarrow> False | Some pol \<Rightarrow> \<not> Enabled pol) then ret ()
          else tryA (liftW (waitPodFailed K unit)) (\<lambda>w. case w of
                 Inr _ \<Rightarrow> ret ()
               | Inl e \<Rightarrow> if isPanic e then fail e else recreatePod K X pod)))"

section \<open>Frame rules\<close>

lemma keeps_ignoreAbsent [triple_rules]: "keeps I m \<Longrightarrow> keeps I (ignoreAbsent m)"
  unfolding ignoreAbsent_def by (intro keeps_tryA keeps_case_sum keeps_if keeps_ret keeps_fail)

lemma keeps_waitGone [triple_rules]: "keeps I m \<Longrightarrow> keeps I (waitGone k m msg)"
  unfolding waitGone_def by (intro keeps_poll keeps_tryA keeps_case_sum keeps_if keeps_ret keeps_fail)

lemma keeps_pollAbsent [triple_rules]: "keeps I m \<Longrightarrow> keeps I (pollAbsent k m)"
  unfolding pollAbsent_def by (intro keeps_poll keeps_tryA keeps_case_sum keeps_ret)

lemma podOf_key [simp]: "Namespace (p_meta (podOf X u)) = Namespace (u_meta u)" "Name (p_meta (podOf X u)) = u_Name u"
  by (simp_all add: podOf_def meta0_def)

lemma keeps_case_bool [triple_rules]: "(b \<Longrightarrow> keeps I m) \<Longrightarrow> (\<not> b \<Longrightarrow> keeps I n) \<Longrightarrow> keeps I (case b of True \<Rightarrow> m | False \<Rightarrow> n)"
  by (cases b) simp_all

context agent_api
begin

lemma convert2Pod_key:
  "triple (unitI view ns n B v) (convert2Pod K X) (\<lambda>pod p. keyOf (OPod pod) = podKey ns n \<and> unitI view ns n B v p)
     (\<lambda>_. unitI view ns n B v)"
  unfolding convert2Pod_def
proof (rule triple_getL)
  fix u
  show "triple (\<lambda>p. unitI view ns n B v p \<and> fst p = u)
     (thenA (mapErr (Fmt ''[upgradePod] get unit error'') (refetch K (Namespace (u_meta u)) (u_Name u))) (bindA getL (\<lambda>unit. ret (podOf X unit))))
     (\<lambda>pod p. keyOf (OPod pod) = podKey ns n \<and> unitI view ns n B v p) (\<lambda>_. unitI view ns n B v)"
  proof (cases "Namespace (u_meta u) = ns \<and> u_Name u = n")
    case True
    have "triple (unitI view ns n B v) (bindA getL (\<lambda>unit. ret (podOf X unit)))
        (\<lambda>pod p. keyOf (OPod pod) = podKey ns n \<and> unitI view ns n B v p) (\<lambda>_. unitI view ns n B v)"
      by (rule triple_getL) (auto simp: triple_def unitI_def)
    from triple_thenA [OF keeps_mapErr [OF keeps_refetch] this] True show ?thesis
      by (auto intro: triple_pre)
  qed (auto simp: triple_def unitI_def)
qed

lemma keeps_createConverted [triple_rules]:
  assumes "podKey ns n \<in> B"
  shows "keeps (unitI view ns n B v) (createConverted K X)"
proof (rule keepsI)
  fix p assume p: "unitI view ns n B v p"
  obtain r q where c: "convert2Pod K X p = (r, q)" by (cases "convert2Pod K X p") blast
  show "unitI view ns n B v (snd (createConverted K X p))"
  proof (cases r)
    case (Inl e)
    with c p tripleD_Inl [OF convert2Pod_key p] show ?thesis by (simp add: createConverted_def tryA_def)
  next
    case (Inr pod)
    with c tripleD_Inr [OF convert2Pod_key p] have q: "keyOf (OPod pod) = podKey ns n" "unitI view ns n B v q" by blast+
    have "keeps (unitI view ns n B v) (bindA (liftW (createObj K (OPod pod))) (\<lambda>_. ret ()))"
      by (intro keeps_bindA keeps_unitI_liftW keeps_frame_writes keeps_ret) (use q(1) assms in simp)
    from keepsD [OF this q(2)] c Inr show ?thesis by (simp add: createConverted_def tryA_def)
  qed
qed

lemma keeps_upgradePod [triple_rules]:
  assumes B: "podKey ns n \<in> B" and pod: "keyOf (OPod pod) = podKey ns n"
  shows "keeps (unitI view ns n B v) (upgradePod K A X V ns n pod)"
proof -
  have create: "triple (unitI view ns n B v) (bindA (mapErr g (convert2Pod K X)) (\<lambda>newPod.
       bindA (liftW (createObj K (OPod newPod))) (\<lambda>_. ret ()))) (\<lambda>_. unitI view ns n B v) (\<lambda>_. unitI view ns n B v)" for g
    by (rule keeps_bind_if [OF triple_mapErr [OF convert2Pod_key]])
      (intro keeps_bindA keeps_unitI_liftW keeps_frame_writes keeps_ret, use B in simp)
  have stop: "keeps (frame view B v) (withLocal u (reconcileUnitServer K A V ns n))"
    if "Namespace (u_meta u) = ns" "u_Name u = n" for u
    by (rule keeps_unitI_withLocal [OF keeps_server that])
  show ?thesis
    unfolding upgradePod_def Let_def
    by (intro keeps_unitI_getL keeps_thenA keeps_ignoreErr keeps_unitI_liftW keeps_ignoreAbsent keeps_frame_writes
        keeps_mapErr keeps_waitGone keeps_frame_reads create stop)
      (use B pod in \<open>auto simp: u_Name_def\<close>)
qed

lemma keeps_patchPod [triple_rules]:
  assumes "podKey ns n \<in> B" "unitKey ns n \<in> B" and "keyOf (OPod pod) = podKey ns n"
  shows "keeps (unitI view ns n B v) (patchPod K ns pod)"
  unfolding patchPod_def
  by (intro keeps_unitI_getL keeps_case_sum keeps_ret keeps_case_bool keeps_thenA keeps_ignoreErr keeps_unitI_liftW
      keeps_frame_writes keeps_mapErr keeps_observedGeneration) (use assms in simp_all)

lemma keeps_reconcilePod [triple_rules]:
  assumes B: "podKey ns n \<in> B" "unitKey ns n \<in> B"
  shows "keeps (unitI view ns n B v) (reconcilePod K A X V ns n)"
proof -
  have ex: "keeps (unitI view ns n B v) (reconcileExistingPod K A X V ns n u pod)"
    if "keyOf (OPod pod) = podKey ns n" "Namespace (u_meta u) = ns" "u_Name u = n" for u pod
    unfolding reconcileExistingPod_def announceUpgrade_def resizePod_def
    by (intro keeps_if keeps_fail keeps_case_option keeps_patchPod keeps_thenA keeps_unitI_liftW keeps_mapErr keeps_retry
        keeps_bindA keeps_frame_writes keeps_ret keeps_upgradePod) (use that B in \<open>auto simp: u_Name_def\<close>)
  have pod: "keeps (unitI view ns n B v) (tryA (liftW (getPod K ns n)) (\<lambda>r. case r of
          Inl e \<Rightarrow> if IsNotFound e then createConverted K X else fail e
        | Inr pod \<Rightarrow> reconcileExistingPod K A X V ns n u pod))" (is "keeps _ (tryA _ ?f)")
    if u: "Namespace (u_meta u) = ns" "u_Name u = n" for u
  proof (rule keepsI)
    fix p assume p: "unitI view ns n B v p"
    obtain r s' where g: "getPod K ns n (snd p) = (r, s')" by fastforce
    have q: "unitI view ns n B v (fst p, s')"
      using p keepsD' [OF keeps_frame_reads(3) _ g] by (simp add: unitI_def)
    have "keeps (unitI view ns n B v) (?f r)"
    proof (cases r)
      case (Inr pod)
      with g have "view (snd p) (podKey ns n) = Some (OPod pod)" using getPod_Inr(1) by blast
      from view_key [OF this] ex u Inr show ?thesis by simp
    qed (simp add: keeps_if keeps_createConverted keeps_fail B)
    from keepsD [OF this q] g show "unitI view ns n B v (snd (tryA (liftW (getPod K ns n)) ?f p))"
      by (simp add: tryA_def liftW_def)
  qed
  show ?thesis
    unfolding reconcilePod_def
    by (intro keeps_unitI_getL keeps_thenA keeps_mapErr) (use pod in \<open>auto intro: keeps_refetch\<close>)
qed

lemma keeps_recovery [triple_rules]:
  assumes B: "podKey ns n \<in> B"
  shows "keeps (unitI view ns n B v) (podAutoRecovery K X)"
proof -
  have re: "keeps (unitI view ns n B v) (recreatePod K X pod)" if "keyOf (OPod pod) = podKey ns n" for pod
    unfolding recreatePod_def
    by (intro keeps_unitI_getL keeps_thenA keeps_unitI_liftW keeps_ignoreAbsent keeps_frame_writes keeps_mapErr
        keeps_pollAbsent keeps_frame_reads keeps_createConverted) (use that B in simp_all)
  have wait: "keeps (frame view B v) (waitPodFailed K u)" for u
    unfolding waitPodFailed_def
    by (intro keeps_case_option keeps_fail keeps_mapErr keeps_poll keeps_tryA keeps_frame_reads keeps_case_sum keeps_ret)
  show ?thesis
    unfolding podAutoRecovery_def
  proof (rule keeps_unitI_getL, rule keepsI)
    fix u :: Unit and p assume u: "Namespace (u_meta u) = ns" "u_Name u = n" and p: "unitI view ns n B v p"
    let ?f = "\<lambda>r. case r of Inl _ \<Rightarrow> ret ()
      | Inr pod \<Rightarrow>
          if \<not> (IsFailed pod \<or> IsPodSucceeded pod) then ret ()
          else if (case FailedPodRecoveryPolicy (u_Spec u) of None \<Rightarrow> False | Some pol \<Rightarrow> \<not> Enabled pol) then ret ()
          else tryA (liftW (waitPodFailed K u)) (\<lambda>w. case w of
                 Inr _ \<Rightarrow> ret () | Inl e \<Rightarrow> if isPanic e then fail e else recreatePod K X pod)"
    obtain r s' where g: "getPod K ns n (snd p) = (r, s')" by fastforce
    have q: "unitI view ns n B v (fst p, s')"
      using p keepsD' [OF keeps_frame_reads(3) _ g] by (simp add: unitI_def)
    have "keeps (unitI view ns n B v) (?f r)"
    proof (cases r)
      case (Inr pod)
      with g have "view (snd p) (podKey ns n) = Some (OPod pod)" using getPod_Inr(1) by blast
      from re [OF view_key [OF this]] Inr show ?thesis
        by (auto intro!: keeps_if keeps_ret keeps_tryA keeps_unitI_liftW wait keeps_fail split: sum.split)
    qed (simp add: keeps_ret)
    from keepsD [OF this q] g u
    show "unitI view ns n B v (snd (tryA (liftW (getPod K (Namespace (u_meta u)) (u_Name u))) ?f p))"
      by (simp add: tryA_def liftW_def)
  qed
qed

end

section \<open>When the pod is touched\<close>

context kube_api
begin

lemma getPod_view: "getPod K ns n s = (r, s') \<Longrightarrow> view s' = view s"
  using keepsD' [OF keeps_reads(3) [of "\<lambda>w. w = view s"] refl] by blast

lemma getUnit_view: "getUnit K ns n s = (r, s') \<Longrightarrow> view s' = view s"
  using keepsD' [OF keeps_reads(1) [of "\<lambda>w. w = view s"] refl] by blast

lemma reconcilePod_stable:
  assumes u: "view s (unitKey ns n) = Some (OUnit u)" and p: "view s (podKey ns n) = Some (OPod p)"
    and d: "DeletionTimestamp (p_meta p) = None" and r: "ifNeedUpgradePod X u p = None" and q: "ifNeedPatchPod K u p = Inr False"
    and n: "u_Name l = n"
  shows "view (snd (snd (reconcilePod K A X V ns n (l, s)))) = view s"
proof -
  obtain r1 s1 where g: "getUnit K ns n s = (r1, s1)" by fastforce
  from getUnit_view [OF g] have v1: "view s1 = view s" .
  obtain r2 s2 where h: "getPod K ns n s1 = (r2, s2)" by fastforce
  from getPod_view [OF h] v1 have v2: "view s2 = view s" by simp
  show ?thesis
  proof (cases r1)
    case (Inl e)
    with g n v1 show ?thesis by (simp add: reconcilePod_def refetch_apply bindA_def thenA_def getL_def mapErr_def)
  next
    case (Inr x)
    with getUnit_Inr [of ns n s x s1] g u have x: "x = u" by simp
    with view_names [OF u] have xn: "u_Name u = n" by (simp add: u_Name_def)
    have *: "reconcilePod K A X V ns n (l, s) = (case r2 of
        Inl e \<Rightarrow> (if IsNotFound e then createConverted K X else fail e) (u, s2)
      | Inr pod \<Rightarrow> reconcileExistingPod K A X V ns n u pod (u, s2))"
      using g h n Inr x xn
      by (simp add: reconcilePod_def refetch_apply bindA_def thenA_def getL_def mapErr_def tryA_def liftW_def split: sum.split)
    show ?thesis
    proof (cases r2)
      case (Inl e)
      have "\<not> IsNotFound e"
        using tripleD_Inl [OF getAs_absent [of "view s1" asPod "podKey ns n"] refl] h Inl p v1 by (auto simp: getPod_def)
      with * Inl v2 show ?thesis by simp
    next
      case (Inr pod)
      with getPod_Inr [of ns n s1 pod s2] h p v1 have "pod = p" by simp
      with * Inr v2 d r q show ?thesis
        by (simp add: reconcileExistingPod_def patchPod_def bindA_def getL_def)
    qed
  qed
qed

lemma waitPodFailed_view: "waitPodFailed K u s = (r, s') \<Longrightarrow> view s' = view s"
proof (rule keepsD' [where I = "\<lambda>t. view t = view s", OF _ refl])
  show "keeps (\<lambda>t. view t = view s) (waitPodFailed K u)"
    unfolding waitPodFailed_def
    by (intro keeps_case_option keeps_fail keeps_mapErr keeps_poll keeps_tryA keeps_reads [of "\<lambda>w. w = view s"]
        keeps_case_sum keeps_ret)
qed

lemma recovery_idle:
  assumes n: "Namespace (u_meta l) = ns" "u_Name l = n"
    and idle: "\<And>p pol. view s (podKey ns n) = Some (OPod p) \<Longrightarrow> IsFailed p \<or> IsPodSucceeded p \<Longrightarrow>
      FailedPodRecoveryPolicy (u_Spec l) = Some pol \<Longrightarrow> \<not> Enabled pol"
  shows "view (snd (snd (podAutoRecovery K X (l, s)))) = view s"
proof -
  obtain r t where g: "getPod K ns n s = (r, t)" by fastforce
  from getPod_view [OF g] have v: "view t = view s" .
  show ?thesis
  proof (cases r)
    case (Inl e)
    with g n v show ?thesis by (simp add: podAutoRecovery_def bindA_def getL_def tryA_def liftW_def)
  next
    case (Inr p)
    have p: "view s (podKey ns n) = Some (OPod p)" using getPod_Inr(1) [of ns n s p t] g Inr by simp
    show ?thesis
    proof (cases "IsFailed p \<or> IsPodSucceeded p")
      case False
      with g n v Inr show ?thesis by (simp add: podAutoRecovery_def bindA_def getL_def tryA_def liftW_def)
    next
      case True
      with g n v Inr idle [OF p] show ?thesis
        by (cases "FailedPodRecoveryPolicy (u_Spec l)")
          (simp_all add: podAutoRecovery_def bindA_def getL_def tryA_def liftW_def waitPodFailed_def)
    qed
  qed
qed

end

text \<open>
  C25 (\<open>reconcilePod\<close>): in a steady state nothing is written. When the pod exists, is not being
  deleted, gives no reason for recreation and needs no patch, the reconciliation of the pod leaves every
  object of the cluster as it is, whatever the API server and the agent answer.
\<close>

theorem reconcile_pod_stable:
  assumes "kube_api K view wire"
    and "view s (unitKey ns n) = Some (OUnit u)" "view s (podKey ns n) = Some (OPod p)" "DeletionTimestamp (p_meta p) = None"
    and "ifNeedUpgradePod X u p = None" "ifNeedPatchPod K u p = Inr False" and "u_Name l = n"
  shows "view (snd (snd (reconcilePod K A X V ns n (l, s)))) = view s"
  by (rule kube_api.reconcilePod_stable [OF assms])

text \<open>
  C26 (\<open>podAutoRecovery\<close>, \<open>waitPodFailed\<close>): the recovery touches the cluster only for a pod that has
  failed or succeeded, of a unit whose recovery policy is present and enabled.
\<close>

theorem recovery_needs_failure:
  assumes "kube_api K view wire" and "Namespace (u_meta l) = ns" "u_Name l = n"
    and "view (snd (snd (podAutoRecovery K X (l, s)))) \<noteq> view s"
  shows "\<exists>p pol. view s (podKey ns n) = Some (OPod p) \<and> (IsFailed p \<or> IsPodSucceeded p) \<and>
    FailedPodRecoveryPolicy (u_Spec l) = Some pol \<and> Enabled pol"
  using kube_api.recovery_idle [OF assms(1-3), of s X] assms(4) by blast

text \<open>
  \<open>podAutoRecovery\<close>: for a failed pod of a unit without a recovery policy the recovery panics.
\<close>

theorem recovery_nil_policy_panics:
  assumes "getPod K (Namespace (u_meta l)) (u_Name l) s = (Inr p, s')" and "IsFailed p \<or> IsPodSucceeded p"
    and "FailedPodRecoveryPolicy (u_Spec l) = None"
  shows "fst (podAutoRecovery K X (l, s)) = Inl (Panic ''nil pointer dereference'')"
  using assms by (simp add: podAutoRecovery_def bindA_def getL_def tryA_def liftW_def waitPodFailed_def)

section \<open>In-place resize\<close>

lemma firstIndex_Some:
  "firstIndex P xs = Some i \<Longrightarrow> i < length xs \<and> P (xs ! i) \<and> List.find P xs = Some (xs ! i)"
  by (induction xs arbitrary: i) (auto split: if_splits)

lemma find_update:
  assumes "firstIndex P xs = Some i" and "P y"
  shows "List.find P (xs[i := y]) = Some y"
  using assms by (induction xs arbitrary: i) (auto split: if_splits)

text \<open>The pod apart from the resources of its containers and the version.\<close>

definition shapeOf :: "pod \<Rightarrow> pod" where
  "shapeOf p = p\<lparr>p_meta := (p_meta p)\<lparr>ResourceVersion := []\<rparr>,
     p_Spec := (p_Spec p)\<lparr>Containers := map (\<lambda>c. c\<lparr>c_Resources := resources0\<rparr>) (Containers (p_Spec p))\<rparr>\<rparr>"

lemma map_update_same: "i < length xs \<Longrightarrow> f y = f (xs ! i) \<Longrightarrow> map f (xs[i := y]) = map f xs"
  by (metis list_update_id map_update)

text \<open>
  \<open>resizePod\<close>: after a successful resize the main container of the stored pod has the requests
  and limits of the unit's main container, and nothing else of the pod but its version has changed.
\<close>

theorem resize_pod_effect:
  assumes K: "kube_api K view wire" and p: "view s (keyOf (OPod p)) = Some (OPod p)"
    and run: "resizePod K u p s = (Inr (), s')"
  shows "\<exists>c p' d. List.find (\<lambda>c. c_Name c = mainOf u) (Containers (t_Spec (Template (u_Spec u)))) = Some c \<and>
    view s' = (view s)(keyOf (OPod p) \<mapsto> OPod p') \<and> shapeOf p' = shapeOf p \<and>
    List.find (\<lambda>c. c_Name c = mainOf u) (Containers (p_Spec p')) = Some d \<and>
    Requests (c_Resources d) = Requests (c_Resources c) \<and> Limits (c_Resources d) = Limits (c_Resources c)"
proof -
  let ?M = "\<lambda>c. c_Name c = mainOf u" and ?cs = "Containers (p_Spec p)"
  from run obtain c i where c: "List.find ?M (Containers (t_Spec (Template (u_Spec u)))) = Some c"
    and i: "firstIndex ?M ?cs = Some i"
    by (auto simp: resizePod_def split: if_splits option.splits)
  note ix = firstIndex_Some [OF i]
  show ?thesis
  proof (cases "Requests (c_Resources (?cs ! i)) = Requests (c_Resources c) \<and> Limits (c_Resources (?cs ! i)) = Limits (c_Resources c)")
    case True
    with run c i have "s' = s" by (simp add: resizePod_def split: if_splits)
    with True c ix p show ?thesis by (intro exI [of _ c] exI [of _ p] exI [of _ "?cs ! i"]) (simp add: fun_upd_idem)
  next
    case False
    with run c i have "resizeObj K (keyOf (OPod p)) i (c_Resources c) s = (Inr (), s')"
      by (auto simp: resizePod_def split: if_splits)
    then have "resizeEff (keyOf (OPod p)) i (c_Resources c) (view s) (view s')"
      using kube_api.write_Inr [OF K kube_api.resize_law [OF K]] by (simp add: resizeObj_def)
    with p obtain w where v: "view s' = (view s)(keyOf (OPod p) \<mapsto>
        OPod ((withResources i (c_Resources c) p)\<lparr>p_meta := (p_meta p)\<lparr>ResourceVersion := w\<rparr>\<rparr>))"
      by (auto simp: resizeEff_def)
    let ?d = "(?cs ! i)\<lparr>c_Resources := (c_Resources (?cs ! i))\<lparr>Requests := Requests (c_Resources c), Limits := Limits (c_Resources c)\<rparr>\<rparr>"
    let ?p = "(withResources i (c_Resources c) p)\<lparr>p_meta := (p_meta p)\<lparr>ResourceVersion := w\<rparr>\<rparr>"
    have "shapeOf ?p = shapeOf p"
      using ix by (simp add: shapeOf_def withResources_def map_update_same)
    moreover have "List.find ?M (Containers (p_Spec ?p)) = Some ?d"
      using find_update [OF i, of ?d] ix by (simp add: withResources_def)
    ultimately show ?thesis using c v by (intro exI [of _ c] exI [of _ ?p] exI [of _ ?d]) simp
  qed
qed

section \<open>Witnesses\<close>

definition steadyUnit :: Unit where
  "steadyUnit = sampleEnvUnit [sampleEnv ''A'' ''1'']"

definition steadyPod :: pod where
  "steadyPod = generatePatchPod steadyUnit (podOf plainExt steadyUnit)"

definition steadyCluster :: mem where
  "steadyCluster = \<lparr>m_store = [OUnit steadyUnit, OPod steadyPod], m_rv = 1, m_faults = []\<rparr>"

theorem reconcile_pod_stable_witness:
  "memView (snd (snd (reconcilePod memKube idleAgent plainExt sampleVars ''ns'' ''db-0'' (steadyUnit, steadyCluster)))) = memView steadyCluster"
proof (rule reconcile_pod_stable [OF mem.kube_api_axioms])
  have n: "Name (u_meta steadyUnit) = ''db-0''" "Namespace (u_meta steadyUnit) = ''ns''"
    "Name (p_meta steadyPod) = ''db-0''" "Namespace (p_meta steadyPod) = ''ns''" by code_simp+
  show "memView steadyCluster (unitKey ''ns'' ''db-0'') = Some (OUnit steadyUnit)"
    "memView steadyCluster (podKey ''ns'' ''db-0'') = Some (OPod steadyPod)"
    by (simp_all add: memView_def steadyCluster_def n)
  show "DeletionTimestamp (p_meta steadyPod) = None" "ifNeedUpgradePod plainExt steadyUnit steadyPod = None"
    "ifNeedPatchPod memKube steadyUnit steadyPod = Inr False" "u_Name steadyUnit = ''db-0''" by code_simp+
qed

definition failedPod :: pod where
  "failedPod = samplePod\<lparr>p_Status := (p_Status samplePod)\<lparr>p_Phase := PodFailed\<rparr>\<rparr>"

definition failedCluster :: mem where
  "failedCluster = \<lparr>m_store = [OUnit sampleStarted, OPod failedPod], m_rv = 1, m_faults = []\<rparr>"

definition recoveringUnit :: Unit where
  "recoveringUnit = sampleStarted\<lparr>u_Spec := (u_Spec sampleStarted)\<lparr>
     FailedPodRecoveryPolicy := Some \<lparr>Enabled = True, ReconcileThreshold = 1\<rparr>\<rparr>\<rparr>"

theorem recovery_needs_failure_witness:
  "\<exists>p pol. memView failedCluster (podKey ''ns'' ''db-0'') = Some (OPod p) \<and> (IsFailed p \<or> IsPodSucceeded p) \<and>
    FailedPodRecoveryPolicy (u_Spec recoveringUnit) = Some pol \<and> Enabled pol"
proof (rule recovery_needs_failure [OF mem.kube_api_axioms])
  let ?s = "snd (snd (podAutoRecovery memKube plainExt (recoveringUnit, failedCluster)))"
  have "memView ?s (podKey ''ns'' ''db-0'') \<noteq> memView failedCluster (podKey ''ns'' ''db-0'')" by code_simp
  then show "memView ?s \<noteq> memView failedCluster" by metis
qed code_simp+

theorem recovery_nil_policy_panics_witness:
  "fst (podAutoRecovery memKube plainExt (sampleStarted, failedCluster)) = Inl (Panic ''nil pointer dereference'')"
proof (rule recovery_nil_policy_panics)
  show "getPod memKube (Namespace (u_meta sampleStarted)) (u_Name sampleStarted) failedCluster = (Inr failedPod, failedCluster)"
    by code_simp
qed code_simp+

definition resizedUnit :: Unit where
  "resizedUnit = sampleStarted\<lparr>
     u_meta := (u_meta sampleStarted)\<lparr>Annotations := mput AnnotationMainContainerName ''mysql'' None\<rparr>,
     u_Spec := (u_Spec sampleStarted)\<lparr>Template := (Template (u_Spec sampleStarted))\<lparr>
       t_Spec := podSpec0\<lparr>Containers := [container0\<lparr>c_Name := ''mysql'',
         c_Resources := resources0\<lparr>Requests := mput ''cpu'' (Quantity ''2'') None\<rparr>\<rparr>]\<rparr>\<rparr>\<rparr>\<rparr>"

theorem resize_pod_effect_witness:
  "\<exists>p'. memView (snd (resizePod memKube resizedUnit samplePod (sampleUnitCluster resizedUnit))) (podKey ''ns'' ''db-0'') = Some (OPod p') \<and>
     shapeOf p' = shapeOf samplePod \<and> p' \<noteq> samplePod"
proof -
  let ?s = "sampleUnitCluster resizedUnit" and ?s' = "snd (resizePod memKube resizedUnit samplePod (sampleUnitCluster resizedUnit))"
  have k: "keyOf (OPod samplePod) = podKey ''ns'' ''db-0''" by code_simp
  have v: "memView ?s (keyOf (OPod samplePod)) = Some (OPod samplePod)" by code_simp
  have r: "fst (resizePod memKube resizedUnit samplePod ?s) = Inr ()" by code_simp
  then have run: "resizePod memKube resizedUnit samplePod ?s = (Inr (), ?s')" by (metis prod.collapse)
  have ne: "memView ?s' (podKey ''ns'' ''db-0'') \<noteq> Some (OPod samplePod)" by code_simp
  from resize_pod_effect [OF mem.kube_api_axioms v run] k ne show ?thesis by auto
qed

end
