(* ===== verification/UnitConfig.thy ===== *)
theory UnitConfig
  imports UnitPod
begin

text \<open>
  The configuration of a unit (\<open>src/pkg/controller/unit/unit_config.go\<close>): the agent is asked to render
  the configuration from the template and value config maps, and the versions of the two are recorded in
  the annotations of the unit.
\<close>

section \<open>Operations\<close>

definition syncOnce :: "'s agent \<Rightarrow> vars \<Rightarrow> Unit \<Rightarrow> string \<Rightarrow> ('s, unit) act" where
  "syncOnce A V unit host =
     bindA (SyncConfig A (UnitAgentHostType V) (UnitsetHeadlessSvcName unit) host ''2214'' (Namespace (u_meta unit))
              (u_ConfigTemplateName (u_Spec unit)) (u_ConfigValueName (u_Spec unit)) (MainContainerName unit) [])
       (\<lambda>_. ret ())"

definition withVersions :: "configMap \<Rightarrow> configMap \<Rightarrow> Unit \<Rightarrow> Unit" where
  "withVersions tcm vcm unit = unit\<lparr>u_meta := (u_meta unit)\<lparr>Annotations :=
     mput AnnotationConfigValueVersion (ResourceVersion (cm_meta vcm))
       (mput AnnotationConfigTemplateVersion (ResourceVersion (cm_meta tcm)) (Annotations (u_meta unit)))\<rparr>\<rparr>"

definition recordVersions :: "'s kube \<Rightarrow> configMap \<Rightarrow> configMap \<Rightarrow> (Unit \<times> 's, unit) act" where
  "recordVersions K tcm vcm =
     bindA getL (\<lambda>unit. thenA (putL (withVersions tcm vcm unit))
       (mapErr (Fmt ''[reconcileUnitConfig]: sync unit config failed'') (retryOnConflict DefaultRetry (storeUnit K))))"

definition configMapsOf :: "'s kube \<Rightarrow> string \<Rightarrow> Unit \<Rightarrow> ('s, configMap \<times> configMap) act" where
  "configMapsOf K ns unit =
     bindA (mapErr (Fmt ''[reconcileUnitConfig]: get configTemplate cm failed'')
              (getConfigMap K ns (u_ConfigTemplateName (u_Spec unit)))) (\<lambda>tcm.
     bindA (mapErr (Fmt ''[reconcileUnitConfig]: get configValue cm failed'')
              (getConfigMap K ns (u_ConfigValueName (u_Spec unit)))) (\<lambda>vcm. ret (tcm, vcm)))"

definition reloadUnitConfig :: "'s kube \<Rightarrow> 's agent \<Rightarrow> vars \<Rightarrow> string \<Rightarrow> pod \<Rightarrow> (Unit \<times> 's, unit) act" where
  "reloadUnitConfig K A V ns pod =
     bindA getL (\<lambda>unit.
       if mfind (Annotations (u_meta unit)) AnnotationConfigTemplateVersion = None \<or>
          mfind (Annotations (u_meta unit)) AnnotationConfigValueVersion = None then ret ()
       else bindA (liftW (configMapsOf K ns unit)) (\<lambda>cms.
         if configInSync unit (fst cms) (snd cms) then ret ()
         else if \<not> IsContainerRunningAndReady pod (UnitAgentName V) then ret ()
         else if p_PodIPs (p_Status pod) = [] then fail (Msg ''[reloadUnitConfig] reload unit config failed: no pod ip to used'')
         else bindA (liftE (agentHost V unit pod)) (\<lambda>host.
                thenA (mapErr (Fmt ''[reloadUnitConfig]: reload unit config failed'') (liftW (syncOnce A V unit host)))
                  (recordVersions K (fst cms) (snd cms)))))"

text \<open>After a timeout the pod is deleted, unless the unit itself is; the next reconciliation creates it.\<close>

definition dropUnsynced :: "'s kube \<Rightarrow> Unit \<Rightarrow> pod \<Rightarrow> ('s, unit) act" where
  "dropUnsynced K unit pod =
     bindA (mapErr (Fmt ''[reconcileUnitConfig]: sync config timeout, get new unit failed'')
              (getUnit K (Namespace (u_meta unit)) (u_Name unit))) (\<lambda>lastUnit.
       if DeletionTimestamp (u_meta lastUnit) \<noteq> None
       then fail (Msg ''[reconcileUnitConfig]: sync config timeout, unit marked for deleted, finish reconcile'')
       else thenA (ignoreAbsent (deleteObj K (keyOf (OPod pod))))
         (thenA (mapErr (Fmt ''[reconcileUnitConfig]: wait pod delete fail'')
                  (pollAbsent (kPolls K 5000 30000) (getPod K (Namespace (u_meta unit)) (u_Name unit))))
           (fail (Msg ''[reconcileUnitConfig]: sync config timeout, delete pod ok''))))"

definition syncUnitConfig :: "'s kube \<Rightarrow> 's agent \<Rightarrow> vars \<Rightarrow> string \<Rightarrow> pod \<Rightarrow> (Unit \<times> 's, unit) act" where
  "syncUnitConfig K A V ns pod =
     bindA getL (\<lambda>unit.
       if IsContainerRunningAndReady pod (MainContainerName unit) \<or> \<not> Startup (u_Spec unit) then ret ()
       else if \<not> IsContainerRunningAndReady pod (UnitAgentName V) then ret ()
       else if p_PodIPs (p_Status pod) = [] then fail (Msg ''sync unit config failed: no pod ip to used'')
       else bindA (liftE (agentHost V unit pod)) (\<lambda>host.
            bindA (liftE (probeTimes unit pod)) (\<lambda>pt.
            tryA (liftW (pollUntil (pollsFor K pt) (tryA (syncOnce A V unit host) (\<lambda>r. case r of
                    Inl e \<Rightarrow> if isPanic e then fail e else ret False | Inr _ \<Rightarrow> ret True))))
              (\<lambda>r. case r of
                 Inl e \<Rightarrow> if isPanic e then fail e else liftW (dropUnsynced K unit pod)
               | Inr _ \<Rightarrow> bindA (liftW (configMapsOf K ns unit)) (\<lambda>cms. recordVersions K (fst cms) (snd cms))))))"

definition reconcileUnitConfig :: "'s kube \<Rightarrow> 's agent \<Rightarrow> vars \<Rightarrow> string \<Rightarrow> (Unit \<times> 's, unit) act" where
  "reconcileUnitConfig K A V ns =
     bindA getL (\<lambda>unit.
       if inMaintenance unit then ret ()
       else bindA (liftW (getPod K (Namespace (u_meta unit)) (u_Name unit))) (\<lambda>pod.
         if DeletionTimestamp (p_meta pod) \<noteq> None then fail (Msg ''pod is marked for deleted'')
         else if \<not> IsPodInitialized pod then ret ()
         else thenA (whenA (IsRunning pod) (reloadUnitConfig K A V ns pod)) (syncUnitConfig K A V ns pod)))"

section \<open>Frame rules\<close>

lemma withVersions_names [simp]:
  "Namespace (u_meta (withVersions t w u)) = Namespace (u_meta u)" "u_Name (withVersions t w u) = u_Name u"
  "u_Spec (withVersions t w u) = u_Spec u"
  by (simp_all add: withVersions_def u_Name_def)

context agent_api
begin

lemma keeps_syncOnce [triple_rules]: "keeps (frame view B v) (syncOnce A V u h)"
  unfolding syncOnce_def by (intro keeps_bindA keeps_frame_agent keeps_ret)

lemma keeps_configMapsOf [triple_rules]: "keeps (frame view B v) (configMapsOf K ns u)"
  unfolding configMapsOf_def by (intro keeps_bindA keeps_mapErr keeps_frame_reads keeps_ret)

lemma keeps_recordVersions [triple_rules]:
  "unitKey ns n \<in> B \<Longrightarrow> keeps (unitI view ns n B v) (recordVersions K t w)"
  unfolding recordVersions_def
  by (intro keeps_unitI_getL keeps_thenA keeps_unitI_putL keeps_mapErr keeps_retry keeps_storeUnit) simp_all

lemma keeps_unitConfig [triple_rules]:
  assumes B: "unitKey ns n \<in> B" "podKey ns n \<in> B"
  shows "keeps (unitI view ns n B v) (reconcileUnitConfig K A V ns)"
proof -
  have drop: "keeps (frame view B v) (dropUnsynced K u pod)"
    if "keyOf (OPod pod) = podKey ns n" "Namespace (u_meta u) = ns" "u_Name u = n" for u pod
    unfolding dropUnsynced_def
    by (intro keeps_bindA keeps_mapErr keeps_frame_reads keeps_if keeps_fail keeps_thenA keeps_ignoreAbsent
        keeps_frame_writes keeps_pollAbsent) (use that B in simp)
  have sync: "keeps (unitI view ns n B v) (syncUnitConfig K A V ns pod)" if "keyOf (OPod pod) = podKey ns n" for pod
    unfolding syncUnitConfig_def
    by (intro keeps_unitI_getL keeps_if keeps_ret keeps_fail keeps_bindA keeps_liftE keeps_tryA keeps_unitI_liftW keeps_poll
        keeps_syncOnce keeps_case_sum drop keeps_configMapsOf keeps_recordVersions that B)
  have reload: "keeps (unitI view ns n B v) (reloadUnitConfig K A V ns pod)" for pod
    unfolding reloadUnitConfig_def
    by (intro keeps_unitI_getL keeps_if keeps_ret keeps_fail keeps_bindA keeps_liftE keeps_unitI_liftW keeps_configMapsOf
        keeps_thenA keeps_mapErr keeps_syncOnce keeps_recordVersions B)
  have pods: "triple (unitI view ns n B v) (liftW (getPod K ns n)) (\<lambda>pod p. keyOf (OPod pod) = podKey ns n \<and> unitI view ns n B v p)
      (\<lambda>_. unitI view ns n B v)"
    by (rule triple_liftW, rule tripleI)
      (auto simp: unitI_def dest: tripleD_Inr [OF getPod_names] tripleD_Inl [OF getPod_names])
  have body: "keeps (unitI view ns n B v) (bindA (liftW (getPod K ns n)) (\<lambda>pod.
         if DeletionTimestamp (p_meta pod) \<noteq> None then fail (Msg ''pod is marked for deleted'')
         else if \<not> IsPodInitialized pod then ret ()
         else thenA (whenA (IsRunning pod) (reloadUnitConfig K A V ns pod)) (syncUnitConfig K A V ns pod)))"
    by (rule keeps_bind_if [OF pods]) (intro keeps_if keeps_fail keeps_ret keeps_thenA keeps_whenA reload sync)
  show ?thesis
    unfolding reconcileUnitConfig_def
    by (intro keeps_unitI_getL keeps_if keeps_ret) (use body in simp)
qed

end

section \<open>The recorded versions\<close>

context kube_api
begin

lemma configMapsOf_Inr:
  assumes "configMapsOf K ns u s = (Inr (tcm, vcm), s')"
  shows "view s (KConfigMap, ns, u_ConfigTemplateName (u_Spec u)) = Some (OConfigMap tcm)"
    "view s (KConfigMap, ns, u_ConfigValueName (u_Spec u)) = Some (OConfigMap vcm)" "view s' = view s"
proof -
  from assms obtain s1 where t: "getConfigMap K ns (u_ConfigTemplateName (u_Spec u)) s = (Inr tcm, s1)"
    and c: "getConfigMap K ns (u_ConfigValueName (u_Spec u)) s1 = (Inr vcm, s')"
    by (auto simp: configMapsOf_def bindA_eq_Inr_iff)
  from getAs_Inr [OF t [unfolded getConfigMap_def]] getAs_Inr [OF c [unfolded getConfigMap_def]]
  show "view s (KConfigMap, ns, u_ConfigTemplateName (u_Spec u)) = Some (OConfigMap tcm)"
    "view s (KConfigMap, ns, u_ConfigValueName (u_Spec u)) = Some (OConfigMap vcm)" "view s' = view s" by auto
qed

text \<open>What a stored unit has in common with the one that was sent.\<close>

lemma storeUnit_Inr:
  assumes "storeUnit K (l, s) = (Inr (), (l', s'))"
  shows "metaEq (u_meta l) (u_meta l')" and
    "view s' (keyOf (OUnit l)) = Some (OUnit l') \<or> view s' (keyOf (OUnit l)) = None"
proof -
  from assms obtain ob where w: "updateObj K (OUnit l) s = (Inr ob, s')" and a: "adopt ob (l, s') = (Inr (), (l', s'))"
    by (auto simp: storeUnit_def bindA_eq_Inr_iff getL_def liftW_def adopt_def putL_def split: prod.splits option.splits)
  have "updateEff wire (OUnit l) ob (view s) (view s')" using w write_Inr [OF update_law] by (simp add: updateObj_def)
  then obtain old where old: "view s (keyOf (OUnit l)) = Some old" "updStored wire old (OUnit l) ob" "keyOf ob = keyOf (OUnit l)"
    and v: "view s' (keyOf (OUnit l)) = Some ob \<or> view s' (keyOf (OUnit l)) = None"
    by (auto simp: updateEff_def split: if_splits)
  obtain w where "old = OUnit w" using view_unit old(1) by fastforce
  moreover obtain u where u: "ob = OUnit u" using old(3) by (cases ob) (auto simp: keyOf_def)
  ultimately show "metaEq (u_meta l) (u_meta l')"
    and "view s' (keyOf (OUnit l)) = Some (OUnit l') \<or> view s' (keyOf (OUnit l)) = None"
    using old(2) a v by (simp_all add: adopt_def putL_def)
qed

lemma recordVersions_Inr:
  assumes "recordVersions K tcm vcm (l, s) = (Inr (), (l', s'))"
  shows "configInSync l' tcm vcm"
proof -
  let ?l = "withVersions tcm vcm l"
  have "triple (\<lambda>p. fst p = ?l) (storeUnit K) (\<lambda>_ p. configInSync (fst p) tcm vcm) (\<lambda>_ p. fst p = ?l)"
  proof (rule tripleI)
    fix p x q assume p: "fst p = ?l" and "storeUnit K p = (Inr x, q)"
    then have "storeUnit K (?l, snd p) = (Inr (), (fst q, snd q))" by (metis old.unit.exhaust prod.collapse)
    from storeUnit_Inr(1) [OF this] show "configInSync (fst q) tcm vcm"
      by (auto simp: configInSync_def metaEq_def mfind_def withVersions_def const_defs)
  next
    fix p e q assume "fst p = ?l" and "storeUnit K p = (Inl e, q)"
    then show "fst q = ?l"
      by (auto simp: storeUnit_def bindA_def getL_def liftW_def adopt_def putL_def split: prod.splits sum.splits option.splits)
  qed
  from tripleD_Inr [OF triple_retry [OF this], of "(?l, s)" DefaultRetry] assms show ?thesis
    by (simp add: recordVersions_def bindA_def thenA_def getL_def putL_def mapErr_def split: prod.splits sum.splits)
qed

lemma reload_syncs:
  assumes run: "reloadUnitConfig K A V ns pod (l, s) = (Inr (), (l', s'))"
    and rec: "mfind (Annotations (u_meta l)) AnnotationConfigTemplateVersion \<noteq> None"
      "mfind (Annotations (u_meta l)) AnnotationConfigValueVersion \<noteq> None"
    and ready: "IsContainerRunningAndReady pod (UnitAgentName V)"
  shows "\<exists>tcm vcm. view s (KConfigMap, ns, u_ConfigTemplateName (u_Spec l)) = Some (OConfigMap tcm) \<and>
    view s (KConfigMap, ns, u_ConfigValueName (u_Spec l)) = Some (OConfigMap vcm) \<and> configInSync l' tcm vcm"
proof -
  obtain r s1 where c: "configMapsOf K ns l s = (r, s1)" by fastforce
  with run rec obtain tcm vcm where r: "r = Inr (tcm, vcm)"
    by (cases r) (auto simp: reloadUnitConfig_def bindA_def getL_def liftW_def)
  note cms = configMapsOf_Inr [OF c [unfolded r]]
  show ?thesis
  proof (cases "configInSync l tcm vcm")
    case True
    with run rec c r have "l' = l" by (simp add: reloadUnitConfig_def bindA_def getL_def liftW_def)
    with True cms show ?thesis by blast
  next
    case False
    with run rec ready c r obtain host where
      h: "bindA (liftE (agentHost V l pod)) (\<lambda>host.
          thenA (mapErr (Fmt ''[reloadUnitConfig]: reload unit config failed'') (liftW (syncOnce A V l host)))
            (recordVersions K tcm vcm)) (l, s1) = (Inr (), (l', s'))"
      by (auto simp: reloadUnitConfig_def bindA_def [of getL] bindA_def [of "liftW (configMapsOf K ns l)"] getL_def liftW_def [of "configMapsOf K ns l"] split: if_splits)
    then obtain h s2 where "recordVersions K tcm vcm (l, s2) = (Inr (), (l', s'))"
      by (cases "agentHost V l pod") (auto simp: bindA_eq_Inr_iff thenA_eq_Inr_iff liftW_def split: prod.splits)
    from recordVersions_Inr [OF this] cms show ?thesis by blast
  qed
qed

end

text \<open>
  \<open>reloadUnitConfig\<close>: for a unit whose configuration was synchronised before and whose agent is
  ready, a successful reload leaves the unit with the versions of the stored config maps in its
  annotations, which is what \<open>reconcileUnitStatus\<close> reports as synchronised.
\<close>

theorem reload_records_versions:
  assumes "kube_api K view wire" and "reloadUnitConfig K A V ns pod (l, s) = (Inr (), (l', s'))"
    and "mfind (Annotations (u_meta l)) AnnotationConfigTemplateVersion \<noteq> None"
      "mfind (Annotations (u_meta l)) AnnotationConfigValueVersion \<noteq> None"
    and "IsContainerRunningAndReady pod (UnitAgentName V)"
  shows "\<exists>tcm vcm. view s (KConfigMap, ns, u_ConfigTemplateName (u_Spec l)) = Some (OConfigMap tcm) \<and>
    view s (KConfigMap, ns, u_ConfigValueName (u_Spec l)) = Some (OConfigMap vcm) \<and> configInSync l' tcm vcm"
  using kube_api.reload_syncs [OF assms] .

definition outdatedUnit :: Unit where
  "outdatedUnit = sampleConfigured\<lparr>u_meta := (u_meta sampleConfigured)\<lparr>Annotations :=
     mput AnnotationConfigTemplateVersion ''6'' (mput AnnotationConfigValueVersion ''7'' None)\<rparr>\<rparr>"

theorem reload_records_versions_witness:
  "\<exists>tcm vcm. configInSync (fst (snd (reloadUnitConfig memKube idleAgent sampleVars ''ns'' samplePod
     (outdatedUnit, sampleConfiguredCluster [])))) tcm vcm"
proof -
  let ?run = "reloadUnitConfig memKube idleAgent sampleVars ''ns'' samplePod (outdatedUnit, sampleConfiguredCluster [])"
  have "fst ?run = Inr ()" by code_simp
  then have run: "?run = (Inr (), (fst (snd ?run), snd (snd ?run)))" by (metis prod.collapse)
  have "mfind (Annotations (u_meta outdatedUnit)) AnnotationConfigTemplateVersion \<noteq> None"
    "mfind (Annotations (u_meta outdatedUnit)) AnnotationConfigValueVersion \<noteq> None"
    "IsContainerRunningAndReady samplePod (UnitAgentName sampleVars)" by code_simp+
  from reload_records_versions [OF mem.kube_api_axioms run this] show ?thesis by blast
qed

end
