(* ===== verification/UnitPvc.thy ===== *)
theory UnitPvc
  imports UnitStatus
begin

text \<open>
  The volume claims of a unit (\<open>src/pkg/controller/unit/unit_pvc.go\<close>): a missing claim is created
  unless a persistent volume still refers to it, and a claim of another size is updated.
\<close>

section \<open>Operations\<close>

definition convert2PVC :: "Unit \<Rightarrow> vctemplate \<Rightarrow> pvc" where
  "convert2PVC unit t = \<lparr>
     pvc_meta = meta0\<lparr>Namespace := Namespace (u_meta unit), Name := PersistentVolumeClaimName unit (vct_Name t),
       Labels := Labels (u_meta unit)\<rparr>,
     pvc_Spec = vct_Spec t, pvc_Phase = [], pvc_Capacity = None\<rparr>"

definition claimedBy :: "string \<Rightarrow> pv \<Rightarrow> bool" where
  "claimedBy pvcName one = (case ClaimRef one of None \<Rightarrow> False | Some r \<Rightarrow> ref_Name r = pvcName)"

definition createClaim :: "'s kube \<Rightarrow> Unit \<Rightarrow> vctemplate \<Rightarrow> ('s, pvc) act" where
  "createClaim K unit t =
     bindA (mapErr (Fmt ''list pv error'') (listPVs K)) (\<lambda>pvs.
       if list_ex (claimedBy (PersistentVolumeClaimName unit (vct_Name t))) pvs
       then fail (Msg ''pv already exists, please delete them first'')
       else bindA (createObj K (OPVC (convert2PVC unit t))) (\<lambda>ob.
              case asPVC ob of Some claim \<Rightarrow> ret claim | None \<Rightarrow> fail (Msg ''unexpected kind'')))"

text \<open>One round of the loop; the result says whether the claim was updated.\<close>

definition reconcileClaim :: "'s kube \<Rightarrow> ext \<Rightarrow> Unit \<Rightarrow> vctemplate \<Rightarrow> ('s, bool) act" where
  "reconcileClaim K X unit t =
     bindA (tryA (getPVC K (Namespace (u_meta unit)) (PersistentVolumeClaimName unit (vct_Name t))) (\<lambda>r. case r of
              Inl e \<Rightarrow> if IsNotFound e then createClaim K unit t else fail e
            | Inr claim \<Rightarrow> ret claim)) (\<lambda>claim.
       if qcmp X (StorageQ X (pvc_Requests (vct_Spec t))) (StorageQ X (pvc_Requests (pvc_Spec claim))) \<noteq> 0
       then bindA (mapErr (Fmt ''update pvc error'')
              (updateObj K (OPVC (claim\<lparr>pvc_Spec := (pvc_Spec claim)\<lparr>pvc_Requests := pvc_Requests (vct_Spec t)\<rparr>\<rparr>))))
              (\<lambda>_. ret True)
       else ret False)"

primrec reconcileClaims :: "'s kube \<Rightarrow> ext \<Rightarrow> Unit \<Rightarrow> vctemplate list \<Rightarrow> bool \<Rightarrow> ('s, bool) act" where
  "reconcileClaims K X unit [] changed = ret changed"
| "reconcileClaims K X unit (t # ts) changed =
     bindA (reconcileClaim K X unit t) (\<lambda>b. reconcileClaims K X unit ts (changed \<or> b))"

definition reconcilePersistentVolumeClaims :: "'s kube \<Rightarrow> ext \<Rightarrow> string \<Rightarrow> Unit \<Rightarrow> ('s, unit) act" where
  "reconcilePersistentVolumeClaims K X ns unit =
     (if VolumeClaimTemplates (u_Spec unit) = [] then ret ()
      else bindA (reconcileClaims K X unit (VolumeClaimTemplates (u_Spec unit)) False) (\<lambda>changed.
             whenA changed (mapErr (Fmt ''[update pvc] error'') (reconcileUnitObservedGeneration K ns unit))))"

section \<open>What the reconciliation of the claims guarantees\<close>

abbreviation claimKey :: "Unit \<Rightarrow> vctemplate \<Rightarrow> okey" where
  "claimKey u t \<equiv> (KPVC, Namespace (u_meta u), PersistentVolumeClaimName u (vct_Name t))"

definition volumeKept :: "string \<Rightarrow> string \<Rightarrow> pv \<Rightarrow> string \<Rightarrow> string \<Rightarrow> objview \<Rightarrow> bool" where
  "volumeKept m x one ns cn w \<longleftrightarrow> w (KPV, m, x) = Some (OPV one) \<and> w (KPVC, ns, cn) = None"

lemma keyOf_PVC: "keyOf (OPVC (c\<lparr>pvc_Spec := sp\<rparr>)) = keyOf (OPVC c)"
  by (simp add: keyOf_def)

lemma keyOf_convert2PVC: "keyOf (OPVC (convert2PVC u t)) = claimKey u t"
  by (simp add: keyOf_def convert2PVC_def meta0_def)

context kube_api
begin

lemma createClaim_Inr:
  assumes "createClaim K u t s = (Inr c, s')"
  shows "keyOf (OPVC c) = claimKey u t"
proof -
  from assms obtain pvs s1 ob where "createObj K (OPVC (convert2PVC u t)) s1 = (Inr ob, s')" and ob: "ob = OPVC c"
    by (auto simp: createClaim_def bindA_eq_Inr_iff split: if_splits option.splits)
  then have "createEff wire (OPVC (convert2PVC u t)) ob (view s1) (view s')"
    using write_Inr [OF create_law] by (simp add: createObj_def)
  with ob show ?thesis by (simp add: createEff_def keyOf_convert2PVC)
qed

lemma keeps_createClaim [triple_rules]:
  assumes "claimKey u t \<in> B"
  shows "keeps (frame view B v) (createClaim K u t)"
  unfolding createClaim_def
  by (intro keeps_bindA keeps_mapErr keeps_frame_reads keeps_if keeps_fail keeps_frame_writes keeps_case_option keeps_ret)
    (use assms in \<open>simp add: keyOf_convert2PVC\<close>)

lemma keeps_reconcileClaim [triple_rules]:
  assumes "claimKey u t \<in> B"
  shows "keeps (frame view B v) (reconcileClaim K X u t)"
  unfolding reconcileClaim_def
proof (rule keeps_bind_if)
  let ?get = "tryA (getPVC K (Namespace (u_meta u)) (PersistentVolumeClaimName u (vct_Name t))) (\<lambda>r. case r of
              Inl e \<Rightarrow> if IsNotFound e then createClaim K u t else fail e | Inr claim \<Rightarrow> ret claim)"
  have k: "keeps (frame view B v) ?get"
    by (intro keeps_tryA keeps_frame_reads keeps_case_sum keeps_if keeps_createClaim keeps_fail keeps_ret assms)
  show "triple (frame view B v) ?get (\<lambda>c s. keyOf (OPVC c) = claimKey u t \<and> frame view B v s) (\<lambda>_. frame view B v)"
  proof (rule tripleI)
    fix s c s' assume f: "frame view B v s" and g: "?get s = (Inr c, s')"
    obtain r s1 where r: "getPVC K (Namespace (u_meta u)) (PersistentVolumeClaimName u (vct_Name t)) s = (r, s1)" by fastforce
    have "keyOf (OPVC c) = claimKey u t"
    proof (cases r)
      case (Inl e)
      with g r createClaim_Inr show ?thesis by (auto simp: tryA_def split: if_splits)
    next
      case (Inr x)
      with g r have "x = c" by (simp add: tryA_def)
      with getAs_Inr(1) [of asPVC "claimKey u t" s x s1] r Inr show ?thesis by (auto simp: getPVC_def dest: view_key)
    qed
    with keepsD' [OF k f g] show "keyOf (OPVC c) = claimKey u t \<and> frame view B v s'" by blast
  qed (rule keepsD' [OF k])
  show "keeps (frame view B v) (if qcmp X (StorageQ X (pvc_Requests (vct_Spec t))) (StorageQ X (pvc_Requests (pvc_Spec c))) \<noteq> 0
       then bindA (mapErr (Fmt ''update pvc error'')
              (updateObj K (OPVC (c\<lparr>pvc_Spec := (pvc_Spec c)\<lparr>pvc_Requests := pvc_Requests (vct_Spec t)\<rparr>\<rparr>)))) (\<lambda>_. ret True)
       else ret False)" if "keyOf (OPVC c) = claimKey u t" for c
    by (intro keeps_if keeps_bindA keeps_mapErr keeps_frame_writes keeps_ret) (use that assms in \<open>simp add: keyOf_PVC\<close>)
qed

lemma keeps_reconcileClaims:
  "(\<And>t. t \<in> set ts \<Longrightarrow> claimKey u t \<in> B) \<Longrightarrow> keeps (frame view B v) (reconcileClaims K X u ts b)"
  by (induction ts arbitrary: b) (auto simp: keeps_ret intro!: keeps_bindA keeps_reconcileClaim)

lemma keeps_pvcs [triple_rules]:
  assumes "\<And>t. t \<in> set (VolumeClaimTemplates (u_Spec u)) \<Longrightarrow> claimKey u t \<in> B" and "unitKey ns (u_Name u) \<in> B"
  shows "keeps (frame view B v) (reconcilePersistentVolumeClaims K X ns u)"
  unfolding reconcilePersistentVolumeClaims_def
  by (intro keeps_if keeps_ret keeps_bindA keeps_reconcileClaims keeps_whenA keeps_mapErr keeps_observedGeneration assms)

text \<open>A claim that a volume still refers to is not created.\<close>

lemma createClaim_blocked:
  assumes "view s (KPV, m, x) = Some (OPV one)" and "claimedBy (PersistentVolumeClaimName u (vct_Name t)) one"
  shows "view (snd (createClaim K u t s)) = view s"
proof -
  obtain r s1 where l: "listPVs K s = (r, s1)" by fastforce
  have v: "view s1 = view s" using keepsD' [OF keeps_lists(3) [of "\<lambda>w. w = view s"] refl l] .
  have k: "keyOf (OPV one) = (KPV, m, x)" using view_key [OF assms(1)] .
  show ?thesis
  proof (cases r)
    case (Inr pvs)
    with l listPVs_Inr(1) [of s pvs s1 one] assms(1) k have "one \<in> set pvs" by simp
    with assms(2) have "list_ex (claimedBy (PersistentVolumeClaimName u (vct_Name t))) pvs" by (auto simp: list_ex_iff)
    with l Inr v show ?thesis by (simp add: createClaim_def bindA_def mapErr_def)
  qed (use l v in \<open>simp add: createClaim_def bindA_def mapErr_def\<close>)
qed

lemma reconcileClaim_blocked:
  assumes pv: "view s (KPV, m, x) = Some (OPV one)" "claimedBy cn one"
    and absent: "view s (KPVC, ns, cn) = None" and t: "claimKey u t = (KPVC, ns, cn)"
  shows "view (snd (reconcileClaim K X u t s)) = view s" and "isl (fst (reconcileClaim K X u t s))"
proof -
  obtain r s1 where g: "getPVC K ns cn s = (r, s1)" by fastforce
  have v: "view s1 = view s" using keepsD' [OF keeps_reads(6) [of "\<lambda>w. w = view s"] refl g] .
  from g absent getAs_Inr(1) [of asPVC "(KPVC, ns, cn)" s _ s1] obtain e where e: "r = Inl e"
    by (cases r) (auto simp: getPVC_def)
  obtain r2 s2 where c: "createClaim K u t s1 = (r2, s2)" by fastforce
  have v2: "view s2 = view s" using createClaim_blocked [of s1 m x one u t] c v pv t by simp
  have "isl r2"
  proof (cases r2)
    case (Inr c')
    obtain rl s3 where l: "listPVs K s1 = (rl, s3)" by fastforce
    with c Inr obtain pvs where "rl = Inr pvs" "\<not> list_ex (claimedBy cn) pvs"
      using t by (cases rl) (auto simp: createClaim_def bindA_def mapErr_def split: if_splits)
    with l listPVs_Inr(1) [of s1 pvs s3 one] view_key [OF pv(1)] pv v show ?thesis by (auto simp: list_ex_iff)
  qed simp
  with g e c v v2 t show "view (snd (reconcileClaim K X u t s)) = view s" and "isl (fst (reconcileClaim K X u t s))"
    by (cases r2; simp add: reconcileClaim_def bindA_def tryA_def)+
qed

lemma keeps_volume_frame:
  assumes "\<And>v. keeps (frame view B v) act" and "(KPV, m, x) \<notin> B" "(KPVC, ns, cn) \<notin> B"
  shows "keeps (\<lambda>s. volumeKept m x one ns cn (view s)) act"
  by (rule keepsI) (use frame_apply [OF assms(1)] assms(2,3) in \<open>simp add: volumeKept_def\<close>)

lemma pvcs_blocked:
  assumes "claimedBy cn one"
  shows "keeps (\<lambda>s. volumeKept m x one ns cn (view s)) (reconcilePersistentVolumeClaims K X ns' u)"
proof -
  have one: "keeps (\<lambda>s. volumeKept m x one ns cn (view s)) (reconcileClaim K X u t)" for t
  proof (cases "claimKey u t = (KPVC, ns, cn)")
    case True
    show ?thesis
      by (rule keepsI) (use reconcileClaim_blocked(1) [OF _ assms _ True, of _ m x X] in \<open>auto simp: volumeKept_def\<close>)
  next
    case False
    show ?thesis
      by (rule keeps_volume_frame [where B = "{claimKey u t}"]) (use False in \<open>auto intro: keeps_reconcileClaim\<close>)
  qed
  have loop: "keeps (\<lambda>s. volumeKept m x one ns cn (view s)) (reconcileClaims K X u ts b)" for ts b
    by (induction ts arbitrary: b) (simp_all add: keeps_ret keeps_bindA one)
  have gen: "keeps (\<lambda>s. volumeKept m x one ns cn (view s)) (reconcileUnitObservedGeneration K ns' u)"
    by (rule keeps_volume_frame [where B = "{unitKey ns' (u_Name u)}"]) (auto intro: keeps_observedGeneration)
  show ?thesis
    unfolding reconcilePersistentVolumeClaims_def
    by (intro keeps_if keeps_ret keeps_bindA loop keeps_whenA keeps_mapErr gen)
qed

end

section \<open>Sizes\<close>

text \<open>A claim requests what its template requests.\<close>

definition sized :: "ext \<Rightarrow> vctemplate \<Rightarrow> obj option \<Rightarrow> bool" where
  "sized X t ob \<longleftrightarrow> (\<forall>c. ob = Some (OPVC c) \<longrightarrow>
     qcmp X (StorageQ X (pvc_Requests (vct_Spec t))) (StorageQ X (pvc_Requests (pvc_Spec c))) = 0)"

context kube_api
begin

lemma reconcileClaim_sized:
  assumes X: "ext_laws X" and run: "reconcileClaim K X u t s = (Inr b, s')"
  shows "sized X t (view s' (claimKey u t))"
proof -
  let ?k = "claimKey u t"
  let ?get = "tryA (getPVC K (Namespace (u_meta u)) (PersistentVolumeClaimName u (vct_Name t))) (\<lambda>r. case r of
              Inl e \<Rightarrow> if IsNotFound e then createClaim K u t else fail e | Inr claim \<Rightarrow> ret claim)"
  from run obtain c s1 where g: "?get s = (Inr c, s1)" and
    rest: "(if qcmp X (StorageQ X (pvc_Requests (vct_Spec t))) (StorageQ X (pvc_Requests (pvc_Spec c))) \<noteq> 0
       then bindA (mapErr (Fmt ''update pvc error'')
              (updateObj K (OPVC (c\<lparr>pvc_Spec := (pvc_Spec c)\<lparr>pvc_Requests := pvc_Requests (vct_Spec t)\<rparr>\<rparr>)))) (\<lambda>_. ret True)
       else ret False) s1 = (Inr b, s')"
    unfolding reconcileClaim_def bindA_eq_Inr_iff by blast
  have c: "view s1 ?k = Some (OPVC c)"
  proof -
    obtain r s0 where r: "getPVC K (Namespace (u_meta u)) (PersistentVolumeClaimName u (vct_Name t)) s = (r, s0)" by fastforce
    show ?thesis
    proof (cases r)
      case (Inl e)
      with g r obtain s2 ob where w: "createObj K (OPVC (convert2PVC u t)) s2 = (Inr ob, s1)" and "ob = OPVC c"
        by (auto simp: tryA_def createClaim_def bindA_eq_Inr_iff split: if_splits option.splits)
      moreover have "createEff wire (OPVC (convert2PVC u t)) ob (view s2) (view s1)"
        using w write_Inr [OF create_law] by (simp add: createObj_def)
      ultimately show ?thesis by (simp add: createEff_def keyOf_convert2PVC)
    next
      case (Inr x)
      with g r getAs_Inr [of asPVC ?k s x s0] show ?thesis by (auto simp: tryA_def getPVC_def)
    qed
  qed
  show ?thesis
  proof (cases "qcmp X (StorageQ X (pvc_Requests (vct_Spec t))) (StorageQ X (pvc_Requests (pvc_Spec c))) = 0")
    case True
    with rest c show ?thesis by (simp add: sized_def)
  next
    case False
    let ?c = "c\<lparr>pvc_Spec := (pvc_Spec c)\<lparr>pvc_Requests := pvc_Requests (vct_Spec t)\<rparr>\<rparr>"
    from False rest obtain ob where "updateObj K (OPVC ?c) s1 = (Inr ob, s')" by (auto simp: bindA_eq_Inr_iff)
    then have "updateEff wire (OPVC ?c) ob (view s1) (view s')"
      using write_Inr [OF update_law] by (simp add: updateObj_def)
    moreover have "keyOf (OPVC ?c) = ?k" using view_key [OF c] by (simp add: keyOf_PVC)
    ultimately have ob: "updStored wire (OPVC c) (OPVC ?c) ob" "view s' ?k = None \<or> view s' ?k = Some ob"
      using c by (auto simp: updateEff_def split: if_splits)
    have "qcmp X (StorageQ X (pvc_Requests (vct_Spec t))) (StorageQ X (pvc_Requests (pvc_Spec d))) = 0" if "ob = OPVC d" for d
      using ob(1) that ext_laws.StorageQ_body [OF X, of "pvc_Requests (pvc_Spec d)" "pvc_Requests (vct_Spec t)"]
      by (simp add: ext_laws.qcmp_refl [OF X])
    with ob(2) show ?thesis by (auto simp: sized_def)
  qed
qed

lemma reconcileClaims_sized:
  assumes X: "ext_laws X"
  shows "reconcileClaims K X u ts b s = (Inr b', s') \<Longrightarrow> distinct (map vct_Name ts) \<Longrightarrow>
    t \<in> set ts \<Longrightarrow> sized X t (view s' (claimKey u t))"
proof (induction ts arbitrary: b s)
  case (Cons a ts)
  from Cons.prems(1) obtain b1 s1 where a: "reconcileClaim K X u a s = (Inr b1, s1)"
    and r: "reconcileClaims K X u ts (b \<or> b1) s1 = (Inr b', s')" by (auto simp: bindA_eq_Inr_iff)
  show ?case
  proof (cases "t = a")
    case True
    have "keeps (frame view {claimKey u t' |t'. t' \<in> set ts} v) (reconcileClaims K X u ts (b \<or> b1))" for v
      by (rule keeps_reconcileClaims) blast
    moreover have "claimKey u a \<notin> {claimKey u t' |t'. t' \<in> set ts}"
      using Cons.prems(2) by (auto simp: PersistentVolumeClaimName_def)
    ultimately have "view s' (claimKey u a) = view s1 (claimKey u a)"
      using frame_apply [of view "{claimKey u t' |t'. t' \<in> set ts}" "reconcileClaims K X u ts (b \<or> b1)" "claimKey u a" s1] r by simp
    with reconcileClaim_sized [OF X a] True show ?thesis by simp
  qed (use Cons r in auto)
qed simp

end

text \<open>
  C27 (\<open>reconcilePersistentVolumeClaims\<close>): a missing claim is not created as long as a persistent
  volume refers to it by name, whatever the API server answers: the volume of a deleted claim is never
  shadowed by a new one.
\<close>

theorem claim_not_recreated:
  assumes "kube_api K view wire" and "claimedBy cn one"
    and "view s (KPV, m, x) = Some (OPV one)" "view s (KPVC, ns, cn) = None"
  shows "view (snd (reconcilePersistentVolumeClaims K X ns' u s)) (KPVC, ns, cn) = None"
  using keepsD [OF kube_api.pvcs_blocked [OF assms(1,2)], of m x ns s] assms(3,4) by (simp add: volumeKept_def)

text \<open>
  C28 (\<open>reconcilePersistentVolumeClaims\<close>): when the reconciliation succeeds, every claim of the unit
  that exists then requests the size of its template (template names are distinct).
\<close>

theorem claims_sized:
  assumes K: "kube_api K view wire" and X: "ext_laws X" and "distinct (map vct_Name (VolumeClaimTemplates (u_Spec u)))"
    and run: "reconcilePersistentVolumeClaims K X ns u s = (Inr (), s')" and t: "t \<in> set (VolumeClaimTemplates (u_Spec u))"
  shows "sized X t (view s' (claimKey u t))"
proof -
  from run t obtain b s1 where l: "reconcileClaims K X u (VolumeClaimTemplates (u_Spec u)) False s = (Inr b, s1)"
    and g: "whenA b (mapErr (Fmt ''[update pvc] error'') (reconcileUnitObservedGeneration K ns u)) s1 = (Inr (), s')"
    by (auto simp: reconcilePersistentVolumeClaims_def bindA_eq_Inr_iff split: if_splits)
  have "view s' (claimKey u t) = view s1 (claimKey u t)"
  proof -
    have "keeps (frame view {unitKey ns (u_Name u)} v) (whenA b (mapErr (Fmt ''[update pvc] error'') (reconcileUnitObservedGeneration K ns u)))" for v
      by (intro keeps_whenA keeps_mapErr kube_api.keeps_observedGeneration [OF K]) simp
    from frame_apply [OF this, of "claimKey u t" s1] g show ?thesis by simp
  qed
  with kube_api.reconcileClaims_sized [OF K X l assms(3) t] show ?thesis by simp
qed

text \<open>Witnesses: a unit with one claim, to be grown; the same claim missing, with its volume left.\<close>

definition sampleVct :: vctemplate where
  "sampleVct = \<lparr>vct_Name = ''data'', vct_Labels = None, vct_Annotations = None,
     vct_Spec = pvcSpec0\<lparr>pvc_Requests := mput ''storage'' (Quantity ''20'') None\<rparr>\<rparr>"

definition claimUnit :: Unit where
  "claimUnit = sampleStarted\<lparr>u_Spec := (u_Spec sampleStarted)\<lparr>VolumeClaimTemplates := [sampleVct]\<rparr>\<rparr>"

definition smallClaim :: pvc where
  "smallClaim = \<lparr>pvc_meta = meta0\<lparr>Name := ''db-0-data'', Namespace := ''ns''\<rparr>,
     pvc_Spec = pvcSpec0\<lparr>pvc_Requests := mput ''storage'' (Quantity ''10'') None\<rparr>, pvc_Phase = ''Bound'', pvc_Capacity = None\<rparr>"

definition sampleVolume :: pv where
  "sampleVolume = \<lparr>pv_meta = meta0\<lparr>Name := ''pv-1''\<rparr>, ClaimRef = Some \<lparr>ref_Namespace = ''other'', ref_Name = ''db-0-data''\<rparr>\<rparr>"

definition claimCluster :: "obj \<Rightarrow> mem" where
  "claimCluster ob = \<lparr>m_store = [OUnit claimUnit, ob], m_rv = 1, m_faults = []\<rparr>"

theorem claim_not_recreated_witness:
  "memView (snd (reconcilePersistentVolumeClaims memKube plainExt ''ns'' claimUnit (claimCluster (OPV sampleVolume))))
     (KPVC, ''ns'', ''db-0-data'') = None"
proof (rule claim_not_recreated [OF mem.kube_api_axioms, of "''db-0-data''" sampleVolume])
  show "memView (claimCluster (OPV sampleVolume)) (KPV, [], ''pv-1'') = Some (OPV sampleVolume)" by code_simp
qed code_simp+

theorem claims_sized_witness:
  "sized plainExt sampleVct (memView (snd (reconcilePersistentVolumeClaims memKube plainExt ''ns'' claimUnit
     (claimCluster (OPVC smallClaim)))) (KPVC, ''ns'', ''db-0-data'')) \<and>
   \<not> sized plainExt sampleVct (Some (OPVC smallClaim))"
proof
  let ?run = "reconcilePersistentVolumeClaims memKube plainExt ''ns'' claimUnit (claimCluster (OPVC smallClaim))"
  have k: "claimKey claimUnit sampleVct = (KPVC, ''ns'', ''db-0-data'')" by code_simp
  have "fst ?run = Inr ()" by code_simp
  then have run: "?run = (Inr (), snd ?run)" by (metis prod.collapse)
  have "distinct (map vct_Name (VolumeClaimTemplates (u_Spec claimUnit)))" "sampleVct \<in> set (VolumeClaimTemplates (u_Spec claimUnit))"
    by (simp_all add: claimUnit_def)
  from claims_sized [OF mem.kube_api_axioms plain.ext_laws_axioms this(1) run this(2)]
  show "sized plainExt sampleVct (memView (snd ?run) (KPVC, ''ns'', ''db-0-data''))" unfolding k .
  have "qcmp plainExt (StorageQ plainExt (pvc_Requests (vct_Spec sampleVct))) (StorageQ plainExt (pvc_Requests (pvc_Spec smallClaim))) = 1"
    by code_simp
  then show "\<not> sized plainExt sampleVct (Some (OPVC smallClaim))" by (simp add: sized_def)
qed

end
