(* ===== verification/UnitDelete.thy ===== *)
theory UnitDelete
  imports UnitPvc UnitPod
begin

text \<open>
  Deleting a unit (\<open>src/pkg/controller/unit/unit_delete.go\<close> and the deletion branch of
  \<open>reconcileUnit\<close>): its two finalizers guard the pod and the volume claims, with their volumes when
  the deletion is forced by an annotation.
\<close>

section \<open>Operations\<close>

definition sharedUnit :: "(obj \<times> 's, Unit) act" where
  "sharedUnit = bindA getL (\<lambda>ob. case asUnit ob of Some u \<Rightarrow> ret u | None \<Rightarrow> fail (Msg ''unexpected kind''))"

definition forceDelete :: "Unit \<Rightarrow> bool" where
  "forceDelete u \<longleftrightarrow> mfind (Annotations (u_meta u)) AnnotationForceDelete = Some ''true''"

text \<open>A list by the index on \<open>.spec.claimRef.name\<close>, which is a name without a namespace.\<close>

definition listPVsByClaim :: "'s kube \<Rightarrow> string \<Rightarrow> ('s, pv list) act" where
  "listPVsByClaim K pvcName = bindA (listPVs K) (\<lambda>pvs. ret (filter (claimedBy pvcName) pvs))"

definition needDeletePVCNames :: "Unit \<Rightarrow> string list" where
  "needDeletePVCNames unit = map (\<lambda>one. PersistentVolumeClaimName unit (vct_Name one)) (VolumeClaimTemplates (u_Spec unit))"

definition deleteClaim :: "'s kube \<Rightarrow> string \<Rightarrow> bool \<Rightarrow> string \<Rightarrow> ('s, unit) act" where
  "deleteClaim K ns force pvcName =
     (if force then
        thenA (deleteIgnoreAbsent (forceDeleteObj K (KPVC, ns, pvcName)) ''error force deleting pvc'')
          (bindA (mapErr (Fmt ''when force deleting pv, list pv error'') (listPVsByClaim K pvcName)) (\<lambda>pvs.
             forEach pvs (\<lambda>one. deleteIgnoreAbsent (forceDeleteObj K (keyOf (OPV one))) ''error force deleting pv'')))
      else deleteIgnoreAbsent (deleteObj K (KPVC, ns, pvcName)) ''error deleting pvc'')"

definition waitClaimGone :: "'s kube \<Rightarrow> string \<Rightarrow> bool \<Rightarrow> string \<Rightarrow> ('s, unit) act" where
  "waitClaimGone K ns force pvcName =
     thenA (waitGone (kPolls K 200 10000) (getPVC K ns pvcName) ''error waiting for pvc deleted'')
       (if force then
          bindA (mapErr (Fmt ''wait for pv deleted, list pv error'') (listPVsByClaim K pvcName)) (\<lambda>pvs.
            mapErr (Fmt ''[deletePVCWithFinalizer] error waiting for pv deleted'')
              (goAll K pvs (\<lambda>one. mapErr (Fmt ''error waiting for pv deleted'')
                 (waitGone (kPolls K 200 15000) (getPV K (Name (pv_meta one))) ''error waiting for pv deleted''))))
        else ret ())"

definition deletePVCWithFinalizer :: "'s kube \<Rightarrow> ext \<Rightarrow> string \<Rightarrow> string \<Rightarrow> (obj \<times> 's, unit) act" where
  "deletePVCWithFinalizer K X ns finalizer =
     bindA sharedUnit (\<lambda>unit.
     thenA (mapErr (Fmt ''[deletePVCWithFinalizer] error deleting pvc'')
             (liftW (goAll K (filter (\<lambda>n. n \<noteq> []) (needDeletePVCNames unit)) (deleteClaim K ns (forceDelete unit)))))
     (thenA (mapErr (Fmt ''[deletePVCWithFinalizer] error waiting for pvc/pv deleted'')
             (liftW (goAll K (needDeletePVCNames unit) (waitClaimGone K ns (forceDelete unit)))))
       (dropFinalizer K X ''[deletePVCWithFinalizer] error removing finalizer'' finalizer)))"

definition deletePodWithFinalizer :: "'s kube \<Rightarrow> ext \<Rightarrow> string \<Rightarrow> string \<Rightarrow> string \<Rightarrow> (obj \<times> 's, unit) act" where
  "deletePodWithFinalizer K X ns name finalizer =
     bindA sharedUnit (\<lambda>unit.
     bindA (liftW (optional ''[deletePodWithFinalizer] get pod fail'' (getPod K ns name))) (\<lambda>po.
       case po of
         None \<Rightarrow> dropFinalizer K X ''[deletePodWithFinalizer] error removing finalizer'' finalizer
       | Some pod \<Rightarrow>
           thenA (liftW (if forceDelete unit then forceDeleteObj K (keyOf (OPod pod))
                         else mapErr (Fmt ''[deletePodWithFinalizer] error deleting pod'') (deleteObj K (keyOf (OPod pod)))))
           (thenA (mapErr (Fmt ''[deletePodWithFinalizer] error waiting for pod deleted'')
                    (liftW (waitGone (kPolls K 2000 40000) (getPod K ns name) ''[deletePodWithFinalizer]wait pod deleted: get pod fail'')))
             (dropFinalizer K X ''[deletePodWithFinalizer] error removing finalizer'' finalizer))))"

definition unit_deleteResources :: "'s kube \<Rightarrow> ext \<Rightarrow> string \<Rightarrow> string \<Rightarrow> string \<Rightarrow> (obj \<times> 's, unit) act" where
  "unit_deleteResources K X ns name finalizer =
     (if finalizer = FinalizerPodDelete then deletePodWithFinalizer K X ns name finalizer
      else if finalizer = FinalizerPvcDelete then deletePVCWithFinalizer K X ns finalizer
      else ret ())"

text \<open>The branch of \<open>reconcileUnit\<close> for a unit in deletion.\<close>

definition deleteUnit :: "'s kube \<Rightarrow> ext \<Rightarrow> string \<Rightarrow> string \<Rightarrow> Unit \<Rightarrow> ('s, unit) act" where
  "deleteUnit K X ns name unit = runFinalizers K ''UNIT DELETING'' (unit_deleteResources K X ns name) (OUnit unit)"

section \<open>A finalizer goes only after what it guards\<close>

definition noClaims :: "Unit \<Rightarrow> objview \<Rightarrow> bool" where
  "noClaims u v \<longleftrightarrow> (\<forall>cn \<in> set (needDeletePVCNames u). v (KPVC, Namespace (u_meta u), cn) = None)"

text \<open>No volume of a claim of the unit; volumes have no namespace.\<close>

definition noVolumes :: "Unit \<Rightarrow> objview \<Rightarrow> bool" where
  "noVolumes u v \<longleftrightarrow> (\<forall>cn \<in> set (needDeletePVCNames u). \<forall>x one. v (KPV, [], x) = Some (OPV one) \<longrightarrow> \<not> claimedBy cn one)"

definition unitCleaned :: "Unit \<Rightarrow> string \<Rightarrow> objview \<Rightarrow> bool" where
  "unitCleaned u f v \<longleftrightarrow>
     (if f = FinalizerPodDelete then v (podKey (Namespace (u_meta u)) (u_Name u)) = None
      else if f = FinalizerPvcDelete then noClaims u v \<and> (forceDelete u \<longrightarrow> noVolumes u v) else False)"

definition sameUnit :: "Unit \<Rightarrow> obj \<Rightarrow> bool" where
  "sameUnit u ob \<longleftrightarrow> (case asUnit ob of None \<Rightarrow> False | Some l \<Rightarrow>
     u_Name l = u_Name u \<and> Namespace (u_meta l) = Namespace (u_meta u) \<and> forceDelete l = forceDelete u \<and>
     needDeletePVCNames l = needDeletePVCNames u)"

text \<open>The encoding of a unit keeps the names of its claim templates.\<close>

definition wireKeepsClaims :: "(UnitSpec \<Rightarrow> UnitSpec) \<Rightarrow> bool" where
  "wireKeepsClaims wire \<longleftrightarrow> (\<forall>sp. map vct_Name (VolumeClaimTemplates (wire sp)) = map vct_Name (VolumeClaimTemplates sp))"

lemma unitCleaned_simps [simp]:
  "unitCleaned u FinalizerPodDelete v \<longleftrightarrow> v (podKey (Namespace (u_meta u)) (u_Name u)) = None"
  "unitCleaned u FinalizerPvcDelete v \<longleftrightarrow> noClaims u v \<and> (forceDelete u \<longrightarrow> noVolumes u v)"
  by (simp_all add: unitCleaned_def const_defs)

lemma sameUnitE:
  assumes "sameUnit u ob"
  obtains l where "ob = OUnit l" "u_Name l = u_Name u" "Namespace (u_meta l) = Namespace (u_meta u)"
    "forceDelete l = forceDelete u" "needDeletePVCNames l = needDeletePVCNames u"
  using assms by (auto simp: sameUnit_def split: option.splits)

lemma needDelete_names:
  "needDeletePVCNames u = map (\<lambda>x. u_Name u @ ''-'' @ x) (map vct_Name (VolumeClaimTemplates (u_Spec u)))"
  by (simp add: needDeletePVCNames_def PersistentVolumeClaimName_def comp_def)

lemma noVolumes_delete:
  assumes n: "noVolumes u v" and d: "deleteEff k v v'"
  shows "noVolumes u v'"
  unfolding noVolumes_def
proof (intro ballI allI impI)
  fix cn x one assume cn: "cn \<in> set (needDeletePVCNames u)" and one: "v' (KPV, [], x) = Some (OPV one)"
  from deleteEff_at [OF d, of "(KPV, [], x)"] one consider "v (KPV, [], x) = Some (OPV one)" |
    old t r g where "v (KPV, [], x) = Some old"
      "OPV one = withMeta (\<lambda>m. m\<lparr>DeletionTimestamp := Some t, ResourceVersion := r, Generation := g\<rparr>) old" by auto
  then show "\<not> claimedBy cn one"
  proof cases
    case 2
    then obtain w where w: "old = OPV w" by (cases old) auto
    with 2(1) n cn have "\<not> claimedBy cn w" unfolding noVolumes_def by blast
    with 2(2) w show ?thesis by (simp add: claimedBy_def)
  qed (use n cn in \<open>unfold noVolumes_def, blast\<close>)
qed

locale unit_guard_wire =
  fixes wire :: "UnitSpec \<Rightarrow> UnitSpec"
  assumes wire_claims: "wireKeepsClaims wire"
begin

lemma guarded: "guarded_object (sameUnit u) (unitKey (Namespace (u_meta u)) (u_Name u)) (unitCleaned u) wire"
proof
  fix ob show "sameUnit u ob \<Longrightarrow> keyOf ob = unitKey (Namespace (u_meta u)) (u_Name u)"
    by (auto elim!: sameUnitE simp: u_Name_def)
  show "sameUnit u ob \<Longrightarrow> sameUnit u (withMeta (\<lambda>m. m\<lparr>Finalizers := fs\<rparr>) ob)" for fs
    by (cases ob) (auto simp: sameUnit_def u_Name_def asUnit_def forceDelete_def needDelete_names comp_def)
next
  fix ob old ob'
  assume "sameUnit u ob" and st: "updStored wire old ob ob'" and k: "keyOf old = unitKey (Namespace (u_meta u)) (u_Name u)"
    "keyOf ob' = unitKey (Namespace (u_meta u)) (u_Name u)"
  from this(1) obtain l where l: "ob = OUnit l" "u_Name l = u_Name u" "Namespace (u_meta l) = Namespace (u_meta u)"
    "forceDelete l = forceDelete u" "needDeletePVCNames l = needDeletePVCNames u" by (rule sameUnitE)
  from k obtain a b where ab: "old = OUnit a" "ob' = OUnit b" by (cases old; cases ob') (auto simp: keyOf_def)
  with st l wire_claims have "needDeletePVCNames b = needDeletePVCNames l" "forceDelete b = forceDelete l"
    by (auto simp: needDelete_names metaEq_def u_Name_def wireKeepsClaims_def forceDelete_def mfind_def)
  with st l ab show "sameUnit u ob' \<and> Finalizers (objMeta ob') = Finalizers (objMeta ob)"
    by (auto simp: sameUnit_def metaEq_def u_Name_def asUnit_def)
next
  fix f v v' assume "unitCleaned u f v" and "\<And>k. k \<noteq> unitKey (Namespace (u_meta u)) (u_Name u) \<Longrightarrow> v' k = v k"
  then show "unitCleaned u f v'"
    by (auto simp: unitCleaned_def noClaims_def noVolumes_def split: if_splits)
next
  fix f v k v' assume "unitCleaned u f v" "deleteEff k v v'"
  then show "unitCleaned u f v'"
    using noVolumes_delete [of u v k v'] absent_delete [of v _ k v']
    by (auto simp: unitCleaned_def noClaims_def split: if_splits)
qed

end

interpretation mem_wire: unit_guard_wire id
  by unfold_locales (simp add: wireKeepsClaims_def)

locale unit_deletion = kube_api K view wire + ext_laws X + unit_guard_wire wire for K :: "'s kube" and view wire X +
  fixes u :: Unit

sublocale unit_deletion \<subseteq> gr: guarded_run K view wire "sameUnit u" "unitKey (Namespace (u_meta u)) (u_Name u)"
  "set (Finalizers (u_meta u))" "unitCleaned u" X
  by (intro guarded_run.intro kube_api_axioms guarded ext_laws_axioms)

context unit_deletion
begin

abbreviation uns :: string where "uns \<equiv> Namespace (u_meta u)"
abbreviation un :: string where "un \<equiv> u_Name u"

lemma triple_sharedUnit:
  assumes "\<And>l. forceDelete l = forceDelete u \<Longrightarrow> needDeletePVCNames l = needDeletePVCNames u \<Longrightarrow> keeps gr.guardI (f l)"
  shows "keeps gr.guardI (bindA sharedUnit f)"
proof (rule keepsI)
  fix p assume p: "gr.guardI p"
  then obtain l where "fst p = OUnit l" "forceDelete l = forceDelete u" "needDeletePVCNames l = needDeletePVCNames u"
    by (auto simp: gr.finInv_def elim: sameUnitE)
  with keepsD [OF assms p] show "gr.guardI (snd (bindA sharedUnit f p))"
    by (simp add: sharedUnit_def bindA_def getL_def)
qed

lemma absentPod:
  "triple (\<lambda>s. view s = v) (optional msg (getPod K uns un))
     (\<lambda>po s. view s = v \<and> (po = None \<longrightarrow> unitCleaned u FinalizerPodDelete v)) (\<lambda>_ s. view s = v)"
  by (rule triple_conseq [OF optional_getPod]) (auto split: option.splits)

lemma keeps_deletePod: "keeps gr.guardI (deletePodWithFinalizer K X uns un FinalizerPodDelete)"
  unfolding deletePodWithFinalizer_def
proof (rule triple_sharedUnit)
  fix l assume "forceDelete l = forceDelete u"
  let ?drop = "dropFinalizer K X ''[deletePodWithFinalizer] error removing finalizer'' FinalizerPodDelete"
  let ?C = "\<lambda>p. gr.guardI p \<and> unitCleaned u FinalizerPodDelete (view (snd p))"
  let ?del = "\<lambda>pod. liftW (if forceDelete l then forceDeleteObj K (keyOf (OPod pod))
                         else mapErr (Fmt ''[deletePodWithFinalizer] error deleting pod'') (deleteObj K (keyOf (OPod pod))))"
  have get: "triple gr.guardI (liftW (optional msg (getPod K uns un)))
      (\<lambda>po p. gr.guardI p \<and> (po = None \<longrightarrow> unitCleaned u FinalizerPodDelete (view (snd p)))) (\<lambda>_. gr.guardI)" for msg
  proof (rule triple_liftW)
    fix ob
    show "triple (\<lambda>s. gr.guardI (ob, s)) (optional msg (getPod K uns un))
        (\<lambda>po s. gr.guardI (ob, s) \<and> (po = None \<longrightarrow> unitCleaned u FinalizerPodDelete (view (snd (ob, s))))) (\<lambda>_ s. gr.guardI (ob, s))"
      using triple_readonly [where h = view and P = "gr.finInv ob" and
          R = "\<lambda>po v. po = None \<longrightarrow> unitCleaned u FinalizerPodDelete v", OF absentPod] by simp
  qed
  have del: "keeps gr.guardI (?del pod)" for pod
    by (intro gr.keeps_guard_lift keeps_if keeps_mapErr gr.keeps_guarded_delete) simp_all
  have wait: "triple gr.guardI (mapErr g (liftW (waitGone k (getPod K uns un) msg))) (\<lambda>_. ?C) (\<lambda>_. gr.guardI)" for g k msg
    by (rule gr.guard_lift [where R = "\<lambda>_. unitCleaned u FinalizerPodDelete"],
        rule triple_readonly [where h = view and R = "\<lambda>_. unitCleaned u FinalizerPodDelete"])
      (simp add: getPod_def waitGone_gone [OF getAs_absent])
  show "keeps gr.guardI (bindA (liftW (optional ''[deletePodWithFinalizer] get pod fail'' (getPod K uns un))) (\<lambda>po.
       case po of None \<Rightarrow> ?drop
       | Some pod \<Rightarrow> thenA (?del pod)
           (thenA (mapErr (Fmt ''[deletePodWithFinalizer] error waiting for pod deleted'')
                    (liftW (waitGone (kPolls K 2000 40000) (getPod K uns un) ''[deletePodWithFinalizer]wait pod deleted: get pod fail'')))
             ?drop)))"
  proof (rule triple_bindA [OF get])
    fix po
    show "triple (\<lambda>p. gr.guardI p \<and> (po = None \<longrightarrow> unitCleaned u FinalizerPodDelete (view (snd p))))
      (case po of None \<Rightarrow> ?drop
       | Some pod \<Rightarrow> thenA (?del pod)
           (thenA (mapErr (Fmt ''[deletePodWithFinalizer] error waiting for pod deleted'')
                    (liftW (waitGone (kPolls K 2000 40000) (getPod K uns un) ''[deletePodWithFinalizer]wait pod deleted: get pod fail'')))
             ?drop)) (\<lambda>_. gr.guardI) (\<lambda>_. gr.guardI)"
    proof (cases po)
      case None
      show ?thesis unfolding None option.case by (rule triple_pre [OF gr.triple_dropFinalizer]) simp
    next
      case (Some pod)
      show ?thesis unfolding Some option.case
        by (rule triple_thenA [OF triple_pre [OF del] triple_thenA [OF wait gr.triple_dropFinalizer]]) simp
    qed
  qed
qed

lemma listPVsByClaim_triple:
  "triple (\<lambda>s. view s = v) (listPVsByClaim K cn)
     (\<lambda>pvs s. view s = v \<and> (\<forall>x one. v (KPV, [], x) = Some (OPV one) \<and> claimedBy cn one \<longrightarrow> one \<in> set pvs \<and> Name (pv_meta one) = x))
     (\<lambda>_ s. view s = v)"
proof (rule tripleI)
  fix s pvs s' assume v: "view s = v" and "listPVsByClaim K cn s = (Inr pvs, s')"
  then obtain all where l: "listPVs K s = (Inr all, s')" and pvs: "pvs = filter (claimedBy cn) all"
    by (auto simp: listPVsByClaim_def bindA_eq_Inr_iff)
  have "one \<in> set pvs \<and> Name (pv_meta one) = x" if "v (KPV, [], x) = Some (OPV one)" "claimedBy cn one" for x one
  proof -
    have "keyOf (OPV one) = (KPV, [], x)" using view_key [of s "(KPV, [], x)" "OPV one"] that v by simp
    with that v listPVs_Inr(1) [OF l, of one] pvs show ?thesis by (simp add: keyOf_def)
  qed
  with v listPVs_Inr(2) [OF l]
  show "view s' = v \<and> (\<forall>x one. v (KPV, [], x) = Some (OPV one) \<and> claimedBy cn one \<longrightarrow> one \<in> set pvs \<and> Name (pv_meta one) = x)"
    by blast
next
  fix s e s' assume v: "view s = v" and l: "listPVsByClaim K cn s = (Inl e, s')"
  have "keeps (\<lambda>s. view s = v) (listPVsByClaim K cn)"
    unfolding listPVsByClaim_def by (intro keeps_bindA keeps_lists [of "\<lambda>w. w = v"] keeps_ret)
  from keepsD' [OF this v l] show "view s' = v" .
qed

lemma waitClaimGone_triple:
  "triple (\<lambda>s. view s = v) (waitClaimGone K uns force cn)
     (\<lambda>_ s. view s = v \<and> v (KPVC, uns, cn) = None \<and> (force \<longrightarrow> (\<forall>x one. v (KPV, [], x) = Some (OPV one) \<longrightarrow> \<not> claimedBy cn one)))
     (\<lambda>_ s. view s = v)"
proof -
  let ?vol = "\<forall>x one. v (KPV, [], x) = Some (OPV one) \<longrightarrow> \<not> claimedBy cn one"
  let ?all = "\<lambda>pvs. mapErr (Fmt ''[deletePVCWithFinalizer] error waiting for pv deleted'')
              (goAll K pvs (\<lambda>one. mapErr (Fmt ''error waiting for pv deleted'')
                 (waitGone (kPolls K 200 15000) (getPV K (Name (pv_meta one))) ''error waiting for pv deleted'')))"
  have claim: "triple (\<lambda>s. view s = v) (waitGone k (getPVC K uns cn) msg) (\<lambda>_ s. view s = v \<and> v (KPVC, uns, cn) = None) (\<lambda>_ s. view s = v)" for k msg
    unfolding getPVC_def by (rule waitGone_gone [OF getAs_absent])
  have one: "triple (\<lambda>s. view s = w) (mapErr g (waitGone k (getPV K (Name (pv_meta x))) msg))
      (\<lambda>_ s. view s = w \<and> w (KPV, [], Name (pv_meta x)) = None) (\<lambda>_ s. view s = w)" for w g k x msg
    unfolding getPV_def by (rule triple_mapErr [OF waitGone_gone [OF getAs_absent]])
  have all: "triple (\<lambda>s. view s = v) (?all pvs) (\<lambda>_ s. view s = v \<and> (\<forall>x \<in> set pvs. v (KPV, [], Name (pv_meta x)) = None)) (\<lambda>_ s. view s = v)" for pvs
    by (rule triple_mapErr, rule triple_conseq [OF goAll_finds [where P = "\<lambda>w. w = v" and Q = "\<lambda>x w. w (KPV, [], Name (pv_meta x)) = None"]])
      (use one in auto)
  have vols: "triple (\<lambda>s. view s = v) (bindA (mapErr g (listPVsByClaim K cn)) ?all) (\<lambda>_ s. view s = v \<and> ?vol) (\<lambda>_ s. view s = v)" for g
  proof (rule triple_bindA [OF triple_mapErr [OF listPVsByClaim_triple]])
    fix pvs
    let ?L = "\<forall>x one. v (KPV, [], x) = Some (OPV one) \<and> claimedBy cn one \<longrightarrow> one \<in> set pvs \<and> Name (pv_meta one) = x"
    show "triple (\<lambda>s. view s = v \<and> ?L) (?all pvs) (\<lambda>_ s. view s = v \<and> ?vol) (\<lambda>_ s. view s = v)"
    proof (rule triple_conseq [OF triple_const [where c = ?L, OF all [of pvs]]])
      fix s assume a: "(view s = v \<and> (\<forall>x \<in> set pvs. v (KPV, [], Name (pv_meta x)) = None)) \<and> ?L"
      have "\<not> claimedBy cn one" if "v (KPV, [], x) = Some (OPV one)" for x one
      proof
        assume "claimedBy cn one"
        with a that have "one \<in> set pvs" "Name (pv_meta one) = x" by blast+
        with a have "v (KPV, [], x) = None" by auto
        with that show False by simp
      qed
      with a show "view s = v \<and> ?vol" by blast
    qed blast+
  qed
  have rest: "triple (\<lambda>s. view s = v) (if force then bindA (mapErr g (listPVsByClaim K cn)) ?all else ret ())
      (\<lambda>_ s. view s = v \<and> (force \<longrightarrow> ?vol)) (\<lambda>_ s. view s = v)" for g
    using vols [of g] by (cases force) (simp_all add: triple_def [of _ "ret ()"])
  note tail = triple_const [where c = "v (KPVC, uns, cn) = None", OF rest]
  show ?thesis
    unfolding waitClaimGone_def
    by (rule triple_thenA [OF claim], rule triple_conseq [OF tail]) simp_all
qed

lemma keeps_deleteClaims: "keeps gr.guardI (deletePVCWithFinalizer K X uns FinalizerPvcDelete)"
  unfolding deletePVCWithFinalizer_def
proof (rule triple_sharedUnit)
  fix l assume l: "forceDelete l = forceDelete u" "needDeletePVCNames l = needDeletePVCNames u"
  have pvs: "keeps (\<lambda>s. gr.finInv ob (view s)) (listPVsByClaim K cn)" for ob cn
    unfolding listPVsByClaim_def by (intro keeps_bindA keeps_lists [of "gr.finInv ob"] keeps_ret)
  have del: "keeps gr.guardI (liftW (goAll K xs (deleteClaim K uns (forceDelete u))))" for xs
    unfolding goAll_def deleteClaim_def
    by (intro gr.keeps_guard_lift keeps_bindA keeps_shuffled keeps_forkJoin keeps_if keeps_thenA keeps_deleteIgnoreAbsent
        gr.keeps_guarded_delete keeps_mapErr pvs keeps_forEach) (simp_all add: keyOf_def)
  have wait: "triple gr.guardI (mapErr g (liftW (goAll K (needDeletePVCNames u) (waitClaimGone K uns (forceDelete u)))))
      (\<lambda>_ p. gr.guardI p \<and> unitCleaned u FinalizerPvcDelete (view (snd p))) (\<lambda>_. gr.guardI)" for g
  proof (rule gr.guard_lift [where R = "\<lambda>_. unitCleaned u FinalizerPvcDelete"])
    fix ob
    let ?Q = "\<lambda>cn v. v (KPVC, uns, cn) = None \<and> (forceDelete u \<longrightarrow> (\<forall>x one. v (KPV, [], x) = Some (OPV one) \<longrightarrow> \<not> claimedBy cn one))"
    from goAll_finds [where P = "gr.finInv ob" and Q = ?Q, OF waitClaimGone_triple]
    show "triple (\<lambda>s. gr.finInv ob (view s)) (goAll K (needDeletePVCNames u) (waitClaimGone K uns (forceDelete u)))
        (\<lambda>_ s. gr.finInv ob (view s) \<and> unitCleaned u FinalizerPvcDelete (view s)) (\<lambda>_ s. gr.finInv ob (view s))"
      by (rule triple_conseq) (auto simp: noClaims_def noVolumes_def)
  qed
  show "keeps gr.guardI (thenA (mapErr (Fmt ''[deletePVCWithFinalizer] error deleting pvc'')
             (liftW (goAll K (filter (\<lambda>n. n \<noteq> []) (needDeletePVCNames l)) (deleteClaim K uns (forceDelete l)))))
     (thenA (mapErr (Fmt ''[deletePVCWithFinalizer] error waiting for pvc/pv deleted'')
             (liftW (goAll K (needDeletePVCNames l) (waitClaimGone K uns (forceDelete l)))))
       (dropFinalizer K X ''[deletePVCWithFinalizer] error removing finalizer'' FinalizerPvcDelete)))"
    unfolding l by (rule triple_thenA [OF keeps_mapErr [OF del] triple_thenA [OF wait gr.triple_dropFinalizer]])
qed

lemma keeps_unit_deleteResources: "keeps gr.guardI (unit_deleteResources K X uns un f)"
  unfolding unit_deleteResources_def by (auto intro!: triple_if keeps_deletePod keeps_deleteClaims keeps_ret)

lemma unit_deletion_guard:
  assumes "view s (unitKey uns un) = Some (OUnit u)" and "DeletionTimestamp (u_meta u) \<noteq> None" and "f \<in> set (Finalizers (u_meta u))"
    and "f \<notin> finalizersOf (view (snd (deleteUnit K X uns un u s)) (unitKey uns un))"
  shows "unitCleaned u f (view (snd (deleteUnit K X uns un u s)))"
  unfolding deleteUnit_def
  by (rule gr.runFinalizers_guard)
    (use assms keeps_unit_deleteResources in \<open>auto simp: deleteUnit_def sameUnit_def asUnit_def\<close>)

end

interpretation mem_unit: unit_deletion memKube memView id plainExt u for u
  by unfold_locales


text \<open>Witness: a unit with its pod, its claim and a volume, deleted by force in one go.\<close>

definition deletedUnit :: Unit where
  "deletedUnit = claimUnit\<lparr>u_meta := (u_meta claimUnit)\<lparr>Finalizers := [FinalizerPodDelete, FinalizerPvcDelete],
     DeletionTimestamp := Some 1, Annotations := mput AnnotationForceDelete ''true'' None\<rparr>\<rparr>"

definition deletedUnitCluster :: mem where
  "deletedUnitCluster = \<lparr>m_store = [OUnit deletedUnit, OPod samplePod, OPVC smallClaim, OPV sampleVolume], m_rv = 1, m_faults = []\<rparr>"



end
