(* ===== verification/UnitController.thy ===== *)
theory UnitController
  imports UnitConfig UnitDelete
begin

text \<open>
  The reconciliation of a unit (\<open>src/pkg/controller/unit/unit_controller.go\<close>), composed of the parts of
  the preceding theories, and what it may touch.
\<close>

section \<open>Operations\<close>

text \<open>Milliseconds.\<close>

definition requeueAfter :: nat where "requeueAfter = 10000"

definition checkPodIsMarkedForDeleted :: "'s kube \<Rightarrow> string \<Rightarrow> string \<Rightarrow> Unit \<Rightarrow> ('s, bool) act" where
  "checkPodIsMarkedForDeleted K ns name unit =
     tryA (unitManagedResources K ns name unit) (\<lambda>r. ret (case r of
        Inl _ \<Rightarrow> False
      | Inr res \<Rightarrow> (case fst res of None \<Rightarrow> False | Some pod \<Rightarrow> DeletionTimestamp (p_meta pod) \<noteq> None)))"

definition statusRetried :: "'s kube \<Rightarrow> 's agent \<Rightarrow> ext \<Rightarrow> vars \<Rightarrow> string \<Rightarrow> string \<Rightarrow> (Unit \<times> 's, unit) act" where
  "statusRetried K A X V ns name =
     mapErr (Fmt ''failed to reconcile UnitStatus'') (retryOnConflict DefaultRetry (reconcileUnitStatus K A X V ns name))"

definition unit_reconcileUnit :: "'s kube \<Rightarrow> 's agent \<Rightarrow> ext \<Rightarrow> vars \<Rightarrow> string \<Rightarrow> string \<Rightarrow> (Unit \<times> 's, unit) act" where
  "unit_reconcileUnit K A X V ns name =
     bindA getL (\<lambda>unit.
       if DeletionTimestamp (u_meta unit) \<noteq> None then liftW (deleteUnit K X ns name unit)
       else
         thenA (mapErr (Fmt ''failed to reconcile PersistentVolumeClaims'') (liftW (reconcilePersistentVolumeClaims K X ns unit)))
         (thenA (statusRetried K A X V ns name)
         (thenA (mapErr (Fmt ''failed to auto recovery Pod'') (podAutoRecovery K X))
         (thenA (mapErr (Fmt ''failed to reconcile Pod'') (reconcilePod K A X V ns name))
         (thenA (bindA getL (\<lambda>u. mapErr (Fmt ''failed to waitUntilPodScheduled'')
                   (liftW (waitUntilPodScheduled K (u_Name u) (Namespace (u_meta u))))))
         (thenA (statusRetried K A X V ns name)
         (thenA (mapErr (Fmt ''failed to reconcile UnitConfig'') (reconcileUnitConfig K A V ns))
         (thenA (mapErr (Fmt ''failed to reconcile UnitServer'') (reconcileUnitServer K A V ns name))
           (statusRetried K A X V ns name)))))))))"

definition unit_Reconcile :: "'s kube \<Rightarrow> 's agent \<Rightarrow> ext \<Rightarrow> vars \<Rightarrow> string \<Rightarrow> string \<Rightarrow> ('s, nat) act" where
  "unit_Reconcile K A X V ns name =
     tryA (getUnit K ns name) (\<lambda>r. case r of
        Inl e \<Rightarrow> if IsNotFound e then ret requeueAfter else fail e
      | Inr unit \<Rightarrow> bindA (checkPodIsMarkedForDeleted K ns name unit) (\<lambda>marked.
          if marked then ret requeueAfter
          else bindA (withLocal unit (unit_reconcileUnit K A X V ns name)) (\<lambda>_. ret requeueAfter)))"

text \<open>\<open>GenerateMergePatch\<close> reports whether there is anything to patch.\<close>

definition patchUnit :: "'s kube \<Rightarrow> Unit \<Rightarrow> Unit \<Rightarrow> ('s, Unit) act" where
  "patchUnit K old new =
     (case kPatchData K (OUnit old) (OUnit new) of
        Inl e \<Rightarrow> fail e
      | Inr update \<Rightarrow> if \<not> update then ret old
                    else bindA (patchObj K (OUnit old) (OUnit new)) (\<lambda>_. ret new))"

section \<open>Isolation\<close>

text \<open>
  What the reconciliation of a unit may touch: the unit, its pod, the claims named after it, and
  persistent volumes only while the unit is being deleted.
\<close>

definition unitFootprint :: "string \<Rightarrow> string \<Rightarrow> bool \<Rightarrow> okey set" where
  "unitFootprint ns n deleting =
     {unitKey ns n, podKey ns n} \<union> {(KPVC, ns, n @ ''-'' @ x) |x. True} \<union> (if deleting then {(KPV, m, x) |m x. True} else {})"

text \<open>The unit the goroutines of a deletion share.\<close>

definition unitObjI :: "('s \<Rightarrow> objview) \<Rightarrow> string \<Rightarrow> string \<Rightarrow> okey set \<Rightarrow> objview \<Rightarrow> obj \<times> 's \<Rightarrow> bool" where
  "unitObjI view ns n B v p \<longleftrightarrow> keyOf (fst p) = unitKey ns n \<and> frame view B v (snd p)"

lemma keeps_unitObjI_liftW: "keeps (frame view B v) m \<Longrightarrow> keeps (unitObjI view ns n B v) (liftW m)"
  by (rule triple_liftW) (auto simp: unitObjI_def triple_def)

lemma keeps_sharedUnit:
  assumes "\<And>u. Namespace (u_meta u) = ns \<Longrightarrow> u_Name u = n \<Longrightarrow> keeps (unitObjI view ns n B v) (f u)"
  shows "keeps (unitObjI view ns n B v) (bindA sharedUnit f)"
proof (rule keepsI)
  fix p assume p: "unitObjI view ns n B v p"
  then obtain u where "fst p = OUnit u" "Namespace (u_meta u) = ns" "u_Name u = n"
    by (cases "fst p") (auto simp: unitObjI_def keyOf_def u_Name_def)
  with keepsD [OF assms p] show "unitObjI view ns n B v (snd (bindA sharedUnit f p))"
    by (simp add: sharedUnit_def bindA_def getL_def)
qed

lemma keyOf_withoutFinalizer: "ext_laws X \<Longrightarrow> keyOf (withoutFinalizer X f ob) = keyOf ob"
  by (simp add: withoutFinalizer_def keyOf_def ext_laws.RemoveFinalizer)

context agent_api
begin

lemma keeps_drop:
  assumes "ext_laws X" "unitKey ns n \<in> B"
  shows "keeps (unitObjI view ns n B v) (dropFinalizer K X msg f)"
proof (rule keepsI)
  fix p assume p: "unitObjI view ns n B v p"
  let ?l = "withoutFinalizer X f (fst p)"
  have k: "keyOf ?l = unitKey ns n" using p keyOf_withoutFinalizer [OF assms(1)] by (simp add: unitObjI_def)
  obtain r t where u: "updateObj K ?l (snd p) = (r, t)" by fastforce
  have "frame view B v t"
    by (rule keepsD' [OF keeps_frame_writes(2) _ u]) (use p k assms(2) in \<open>auto simp: unitObjI_def\<close>)
  moreover have "r = Inr ob \<Longrightarrow> keyOf ob = unitKey ns n" for ob using store_key(1) u k by auto
  ultimately show "unitObjI view ns n B v (snd (dropFinalizer K X msg f p))"
    using p k u
    by (cases r) (auto simp: dropFinalizer_def bindA_def thenA_def getL_def putL_def mapErr_def liftW_def unitObjI_def)
qed

lemma keeps_listPVsByClaim [triple_rules]: "keeps (frame view B v) (listPVsByClaim K cn)"
  unfolding listPVsByClaim_def by (intro keeps_bindA keeps_frame_reads keeps_ret)

lemma claimName_footprint: "u_Name u = n \<Longrightarrow> cn \<in> set (needDeletePVCNames u) \<Longrightarrow> (KPVC, ns, cn) \<in> unitFootprint ns n d"
  by (auto simp: needDelete_names unitFootprint_def)

lemma keeps_deleteUnit:
  assumes X: "ext_laws X" and u: "Namespace (u_meta u) = ns" "u_Name u = n"
  shows "keeps (frame view (unitFootprint ns n True) v) (deleteUnit K X ns n u)"
proof -
  let ?B = "unitFootprint ns n True"
  have B: "unitKey ns n \<in> ?B" "podKey ns n \<in> ?B" "keyOf (OPV one) \<in> ?B" for one
    by (auto simp: unitFootprint_def keyOf_def)
  have claim: "keeps (frame view ?B v) (deleteClaim K ns force cn)" if "(KPVC, ns, cn) \<in> ?B" for force cn
    unfolding deleteClaim_def
    by (intro keeps_if keeps_thenA keeps_deleteIgnoreAbsent keeps_frame_writes keeps_bindA keeps_mapErr keeps_listPVsByClaim
        keeps_forEach that B)
  have wait: "keeps (frame view ?B v) (waitClaimGone K ns force cn)" for force cn
    unfolding waitClaimGone_def
    by (intro keeps_thenA keeps_waitGone keeps_frame_reads keeps_if keeps_bindA keeps_mapErr keeps_listPVsByClaim keeps_goAll keeps_ret)
  have pvc: "keeps (unitObjI view ns n ?B v) (deletePVCWithFinalizer K X ns f)" for f
    unfolding deletePVCWithFinalizer_def
    by (intro keeps_sharedUnit keeps_thenA keeps_mapErr keeps_unitObjI_liftW keeps_goAll wait keeps_drop X B claim)
      (auto intro: claimName_footprint)
  have pods: "triple (unitObjI view ns n ?B v) (liftW (optional msg (getPod K ns n)))
      (\<lambda>po p. (\<forall>pod. po = Some pod \<longrightarrow> keyOf (OPod pod) = podKey ns n) \<and> unitObjI view ns n ?B v p) (\<lambda>_. unitObjI view ns n ?B v)" for msg
  proof (rule triple_liftW, rule tripleI)
    fix l s po s' assume "unitObjI view ns n ?B v (l, s)" and o: "optional msg (getPod K ns n) s = (Inr po, s')"
    with keepsD' [OF keeps_optional [OF keeps_frame_reads(3)] _ o] tripleD_Inr [OF optional_getPod refl o]
    show "(\<forall>pod. po = Some pod \<longrightarrow> keyOf (OPod pod) = podKey ns n) \<and> unitObjI view ns n ?B v (l, s')"
      by (auto simp: unitObjI_def simp del: keyOf_simps dest: view_key)
  next
    fix l s e s' assume "unitObjI view ns n ?B v (l, s)" and o: "optional msg (getPod K ns n) s = (Inl e, s')"
    with keepsD' [OF keeps_optional [OF keeps_frame_reads(3)] _ o] show "unitObjI view ns n ?B v (l, s')"
      by (simp add: unitObjI_def)
  qed
  have pod: "keeps (unitObjI view ns n ?B v) (deletePodWithFinalizer K X ns n f)" for f
    unfolding deletePodWithFinalizer_def
    by (rule keeps_sharedUnit, rule keeps_bind_if [OF pods])
      (intro keeps_case_option keeps_drop X B keeps_thenA keeps_unitObjI_liftW keeps_if keeps_frame_writes keeps_mapErr
        keeps_waitGone keeps_frame_reads, use B in auto)
  have h: "keeps (unitObjI view ns n ?B v) (unit_deleteResources K X ns n f)" for f
    unfolding unit_deleteResources_def by (intro keeps_if pod pvc keeps_ret)
  have all: "keeps (unitObjI view ns n ?B v) (goAllL K xs (unit_deleteResources K X ns n))" for xs
    unfolding goAllL_def by (intro keeps_bindA keeps_unitObjI_liftW keeps_frame_reads keeps_forkJoin h)
  show ?thesis
    unfolding deleteUnit_def runFinalizers_def
  proof (intro keeps_mapErr keeps_bindA keeps_ret, rule keepsI)
    fix s assume "frame view ?B v s"
    with keepsD [OF all, of "(OUnit u, s)"] u
    have "unitObjI view ns n ?B v (snd (goAllL K (Finalizers (objMeta (OUnit u))) (unit_deleteResources K X ns n) (OUnit u, s)))"
      by (simp add: unitObjI_def u_Name_def)
    then show "frame view ?B v (snd (withLocal (OUnit u) (goAllL K (Finalizers (objMeta (OUnit u))) (unit_deleteResources K X ns n)) s))"
      by (cases "goAllL K (Finalizers (objMeta (OUnit u))) (unit_deleteResources K X ns n) (OUnit u, s)")
        (auto simp: withLocal_def unitObjI_def split: prod.split)
  qed
qed

lemma keeps_statusRetried: "unitKey ns n \<in> B \<Longrightarrow> keeps (unitI view ns n B v) (statusRetried K A X V ns n)"
  unfolding statusRetried_def by (intro keeps_mapErr keeps_retry keeps_status)

lemma keeps_waitScheduled: "keeps (frame view B v) (waitUntilPodScheduled K n ns)"
  unfolding waitUntilPodScheduled_def
  by (intro keeps_mapErr keeps_poll keeps_tryA keeps_frame_reads keeps_case_sum keeps_ret)

lemma unitReconcile_frame:
  assumes X: "ext_laws X" and u: "Namespace (u_meta u) = ns" "u_Name u = n" and s: "frame view B v s"
    and B: "B = unitFootprint ns n (DeletionTimestamp (u_meta u) \<noteq> None)"
  shows "frame view B v (snd (withLocal u (unit_reconcileUnit K A X V ns n) s))"
proof -
  have mem: "unitKey ns n \<in> B" "podKey ns n \<in> B" "claimKey u t \<in> B" for t
    using u by (auto simp: B unitFootprint_def PersistentVolumeClaimName_def)
  have "unitI view ns n B v (snd (unit_reconcileUnit K A X V ns n (u, s)))"
  proof (cases "DeletionTimestamp (u_meta u)")
    case (Some t)
    have "keeps (unitI view ns n B v) (liftW (deleteUnit K X ns n u))"
      by (rule keeps_unitI_liftW) (use keeps_deleteUnit [OF X u] B Some in simp)
    from keepsD [OF this, of "(u, s)"] u s Some show ?thesis
      by (simp add: unit_reconcileUnit_def bindA_def getL_def unitI_def)
  next
    case None
    let ?rest = "thenA (mapErr (Fmt ''failed to reconcile PersistentVolumeClaims'') (liftW (reconcilePersistentVolumeClaims K X ns u)))
         (thenA (statusRetried K A X V ns n)
         (thenA (mapErr (Fmt ''failed to auto recovery Pod'') (podAutoRecovery K X))
         (thenA (mapErr (Fmt ''failed to reconcile Pod'') (reconcilePod K A X V ns n))
         (thenA (bindA getL (\<lambda>u. mapErr (Fmt ''failed to waitUntilPodScheduled'')
                   (liftW (waitUntilPodScheduled K (u_Name u) (Namespace (u_meta u))))))
         (thenA (statusRetried K A X V ns n)
         (thenA (mapErr (Fmt ''failed to reconcile UnitConfig'') (reconcileUnitConfig K A V ns))
         (thenA (mapErr (Fmt ''failed to reconcile UnitServer'') (reconcileUnitServer K A V ns n))
           (statusRetried K A X V ns n))))))))"
    have "keeps (unitI view ns n B v) ?rest"
      by (intro keeps_thenA keeps_mapErr keeps_unitI_liftW keeps_pvcs keeps_statusRetried keeps_recovery keeps_reconcilePod
          keeps_unitI_getL keeps_waitScheduled keeps_unitConfig keeps_server mem) (use u mem in simp)
    from keepsD [OF this, of "(u, s)"] u s None show ?thesis
      by (simp add: unit_reconcileUnit_def bindA_def getL_def unitI_def)
  qed
  then show ?thesis
    by (cases "unit_reconcileUnit K A X V ns n (u, s)") (auto simp: withLocal_def unitI_def split: prod.split)
qed

lemma unit_Reconcile_isolated:
  assumes X: "ext_laws X" and k: "k \<notin> unitFootprint ns n (\<exists>u. view s (unitKey ns n) = Some (OUnit u) \<and> DeletionTimestamp (u_meta u) \<noteq> None)"
  shows "view (snd (unit_Reconcile K A X V ns n s)) k = view s k"
proof -
  obtain r s1 where g: "getUnit K ns n s = (r, s1)" by fastforce
  have v1: "view s1 = view s" by (rule getUnit_view [OF g])
  show ?thesis
  proof (cases r)
    case (Inl e)
    with g v1 show ?thesis by (simp add: unit_Reconcile_def tryA_def)
  next
    case (Inr u)
    with g getUnit_Inr(1) [of ns n s u s1] have u: "view s (unitKey ns n) = Some (OUnit u)" by simp
    note nm = view_names [OF u]
    let ?B = "unitFootprint ns n (DeletionTimestamp (u_meta u) \<noteq> None)"
    have kB: "k \<notin> ?B" using k u by simp
    obtain b s2 where c: "checkPodIsMarkedForDeleted K ns n u s1 = (b, s2)" by fastforce
    have "keeps (frame view ?B (view s)) (checkPodIsMarkedForDeleted K ns n u)"
      unfolding checkPodIsMarkedForDeleted_def by (intro keeps_tryA keeps_managed keeps_ret)
    from keepsD' [OF this _ c] v1 have f2: "frame view ?B (view s) s2" by (simp add: frame_def)
    have f3: "frame view ?B (view s) (snd (withLocal u (unit_reconcileUnit K A X V ns n) s2))"
      by (rule unitReconcile_frame [OF X _ _ f2 refl]) (use nm in \<open>simp_all add: u_Name_def\<close>)
    have "frame view ?B (view s) (snd (unit_Reconcile K A X V ns n s))"
      using g Inr c f2 f3 by (auto simp: unit_Reconcile_def tryA_def bindA_def split: sum.split prod.split)
    from frameD [OF this kB] show ?thesis .
  qed
qed

end

text \<open>
  C20 (\<open>Reconcile\<close> of the Unit controller, the composition of all its parts): the reconciliation of a
  unit touches nothing but the unit, its pod, the volume claims named after it, and persistent volumes
  only while the unit is being deleted; other units, their pods and claims, config maps, nodes, services
  and unit sets stay as they are, whatever the API server and the agent answer.
\<close>

theorem unit_reconcile_isolated:
  assumes "agent_api K view wire A" and "ext_laws X"
    and "k \<notin> unitFootprint ns n (\<exists>u. view s (unitKey ns n) = Some (OUnit u) \<and> DeletionTimestamp (u_meta u) \<noteq> None)"
  shows "view (snd (unit_Reconcile K A X V ns n s)) k = view s k"
  using agent_api.unit_Reconcile_isolated [OF assms] .

text \<open>Witness: a unit without a pod next to another unit; the pod of the first is created.\<close>

definition twoUnits :: mem where
  "twoUnits = \<lparr>m_store = [OUnit sampleConfigured, OUnit (sampleConfigured\<lparr>u_meta := (u_meta sampleConfigured)\<lparr>Name := ''db-1''\<rparr>\<rparr>),
     sampleConfigMap ''ct'', sampleConfigMap ''cv''], m_rv = 9, m_faults = []\<rparr>"

theorem unit_reconcile_isolated_witness:
  "memView (snd (unit_Reconcile memKube idleAgent plainExt sampleVars ''ns'' ''db-0'' twoUnits)) (unitKey ''ns'' ''db-1'') =
     memView twoUnits (unitKey ''ns'' ''db-1'') \<and>
   memView (snd (unit_Reconcile memKube idleAgent plainExt sampleVars ''ns'' ''db-0'' twoUnits)) (podKey ''ns'' ''db-0'') \<noteq> None"
proof
  show "memView (snd (unit_Reconcile memKube idleAgent plainExt sampleVars ''ns'' ''db-0'' twoUnits)) (unitKey ''ns'' ''db-1'') =
     memView twoUnits (unitKey ''ns'' ''db-1'')"
    by (rule unit_reconcile_isolated [OF mem_agent.agent_api_axioms plain.ext_laws_axioms]) (simp add: unitFootprint_def)
  show "memView (snd (unit_Reconcile memKube idleAgent plainExt sampleVars ''ns'' ''db-0'' twoUnits)) (podKey ''ns'' ''db-0'') \<noteq> None"
    by code_simp
qed

end
