(* ===== verification/UnitSetController.thy ===== *)
theory UnitSetController
  imports UnitSetConfig UnitSetResources UnitSetStatus UnitSetDelete UnitController
begin

text \<open>
  The controller of the UnitSet (\<open>src/pkg/controller/unitset/unitset_controller.go\<close>): the composition of
  its parts. The set is read once and handed from part to part; the parts that change it in memory
  (services, node map, status) leave it changed for those that follow, so it is the local state.
\<close>

section \<open>Operations\<close>

definition unitset_requeueAfter :: nat where "unitset_requeueAfter = 10000"

definition onSet :: "(UnitSet \<Rightarrow> ('s, 'a) act) \<Rightarrow> (UnitSet \<times> 's, 'a) act" where
  "onSet f = bindA getL (\<lambda>unitset. liftW (f unitset))"

definition changeSet :: "(UnitSet \<Rightarrow> ('s, UnitSet) act) \<Rightarrow> (UnitSet \<times> 's, unit) act" where
  "changeSet f = bindA getL (\<lambda>unitset. bindA (liftW (f unitset)) putL)"

definition unitsetStatusRetried :: "'s kube \<Rightarrow> ext \<Rightarrow> (UnitSet \<times> 's, unit) act" where
  "unitsetStatusRetried K X =
     mapErr (Fmt ''failed to reconcile UnitsetStatus'') (retryOnConflict DefaultRetry (reconcileUnitsetStatus K X))"

text \<open>The part after the services and certificates.\<close>

definition reconcileUnits :: "'s kube \<Rightarrow> ext \<Rightarrow> vars \<Rightarrow> string \<Rightarrow> podTemplate \<Rightarrow> (UnitSet \<times> 's, unit) act" where
  "reconcileUnits K X V ns podTemplate =
     thenA (unitsetStatusRetried K X)
     (thenA (onSet (\<lambda>unitset. reconcileUnit K X ns unitset podTemplate))
     (thenA (mapErr (Fmt ''failed to reconcile PatchUnitset'') (retryOnConflict DefaultRetry (reconcilePatchUnitset K X)))
     (thenA (onSet (reconcilePodMonitor K X))
     (thenA (onSet (\<lambda>unitset. reconcileImageVersion K X V ns unitset podTemplate))
     (thenA (onSet (reconcileResources K X ns))
     (thenA (onSet (reconcileResizePolicy K X ns))
     (thenA (onSet (reconcileUnitLabelsAnnotations K ns))
     (thenA (onSet (reconcileStorage K X ns))
       (unitsetStatusRetried K X)))))))))"

definition reconcileAround :: "'s kube \<Rightarrow> ext \<Rightarrow> string \<Rightarrow> containerPort list \<Rightarrow> (UnitSet \<times> 's, unit) act" where
  "reconcileAround K X ns ports =
     thenA (onSet (\<lambda>unitset. reconcileHeadlessService K X unitset ports))
     (thenA (changeSet (\<lambda>unitset. reconcileExternalService K X unitset ports))
     (thenA (changeSet (\<lambda>unitset. reconcileUnitService K X unitset ports))
       (onSet (reconcileUnitCertificates K X ns))))"

definition reconcileUnitset ::
  "'s kube \<Rightarrow> ('c, 'v) viper \<Rightarrow> ext \<Rightarrow> vars \<Rightarrow> string \<Rightarrow> (UnitSet \<times> 's, unit) act" where
  "reconcileUnitset K Y X V ns =
     bindA getL (\<lambda>unitset.
       if DeletionTimestamp (us_meta unitset) \<noteq> None then liftW (deleteUnitset K X unitset)
       else thenA (liftW (reconcileConfigmap K Y X V ns unitset))
         (bindA (mapErr (Fmt ''get pod template error'') (liftW (getPodTemplate K X V ns unitset))) (\<lambda>podTemplate.
            let ports = getPortsFromPodtemplate unitset podTemplate in
            if ports = [] then fail (Msg ''get ports in pod template error: not found ports in pod template'')
            else thenA (reconcileAround K X ns ports) (reconcileUnits K X V ns podTemplate))))"

definition unitset_Reconcile ::
  "'s kube \<Rightarrow> ('c, 'v) viper \<Rightarrow> ext \<Rightarrow> vars \<Rightarrow> string \<Rightarrow> string \<Rightarrow> ('s, nat) act" where
  "unitset_Reconcile K Y X V ns name =
     tryA (getUnitSet K ns name) (\<lambda>r. case r of
        Inl e \<Rightarrow> if IsNotFound e then ret unitset_requeueAfter else fail e
      | Inr unitset \<Rightarrow> bindA (withLocal unitset (reconcileUnitset K Y X V ns)) (\<lambda>_. ret unitset_requeueAfter))"

section \<open>The footprint of a set\<close>

text \<open>
  The set itself, the units that carry its label or are named after it, and the objects around the
  units, which are named after the set too.
\<close>

definition aroundKinds :: "kind set" where
  "aroundKinds = {KUnit, KConfigMap, KPodTemplate, KService, KIssuer, KCertificate, KPodMonitor}"

definition setFootprint :: "string \<Rightarrow> string \<Rightarrow> objview \<Rightarrow> okey set" where
  "setFootprint ns n v =
     {unitSetKey ns n} \<union> {(kd, ns, n @ ''-'' @ x) |kd x. kd \<in> aroundKinds} \<union>
     {unitKey ns m |m. \<exists>u. v (unitKey ns m) = Some (OUnit u) \<and> mfind (Labels (u_meta u)) UnitsetName = Some n}"

definition named :: "string \<Rightarrow> string \<Rightarrow> UnitSet \<Rightarrow> bool" where
  "named ns n us \<longleftrightarrow> Namespace (us_meta us) = ns \<and> Name (us_meta us) = n"

lemma footprint_set [simp]: "named ns n us \<Longrightarrow> unitSetKey ns (us_Name us) \<in> setFootprint ns n v"
  "named ns n us \<Longrightarrow> unitSetKey (Namespace (us_meta us)) (Name (us_meta us)) \<in> setFootprint ns n v"
  by (simp_all add: named_def us_Name_def setFootprint_def)

lemma footprint_named: "named ns n us \<Longrightarrow> kd \<in> aroundKinds \<Longrightarrow> (kd, ns, us_Name us @ ''-'' @ x) \<in> setFootprint ns n v"
  by (auto simp: setFootprint_def named_def us_Name_def)

lemma unitNames_prefix: "u \<in> set (unitNames us) \<Longrightarrow> \<exists>x. u = us_Name us @ ''-'' @ x"
  by (auto simp: unitNames_eq unitNameAt_def)

lemma footprint_unit:
  assumes "named ns n us" and "u \<in> set (unitNames us)" and "kd \<in> aroundKinds"
  shows "(kd, ns, u) \<in> setFootprint ns n v" and "(kd, ns, u @ x) \<in> setFootprint ns n v"
proof -
  obtain y where "u = us_Name us @ ''-'' @ y" using unitNames_prefix [OF assms(2)] by blast
  with footprint_named [OF assms(1,3), of y] footprint_named [OF assms(1,3), of "y @ x"]
  show "(kd, ns, u) \<in> setFootprint ns n v" and "(kd, ns, u @ x) \<in> setFootprint ns n v" by simp_all
qed

lemma aroundKinds_simps [simp]:
  "KUnit \<in> aroundKinds" "KConfigMap \<in> aroundKinds" "KPodTemplate \<in> aroundKinds" "KService \<in> aroundKinds"
  "KIssuer \<in> aroundKinds" "KCertificate \<in> aroundKinds" "KPodMonitor \<in> aroundKinds"
  by (simp_all add: aroundKinds_def)

context kube_api
begin

lemma footprint_listed:
  assumes "named ns n us" and "ns \<noteq> []" and "frame view (setFootprint ns n v) v s" and "unitsBelongUnitset K us s = (Inr ks, t)" and "u \<in> set ks"
  shows "keyOf (OUnit u) \<in> setFootprint ns n v" and "Namespace (u_meta u) = ns"
proof -
  have u: "view s (keyOf (OUnit u)) = Some (OUnit u)" "inSet us u" using unitsBelong_Inr(1) [OF assms(4)] assms(5) by blast+
  then show nsu: "Namespace (u_meta u) = ns" using assms(1,2) by (simp add: inSet_def named_def)
  show "keyOf (OUnit u) \<in> setFootprint ns n v"
  proof (rule ccontr)
    assume k: "keyOf (OUnit u) \<notin> setFootprint ns n v"
    with frameD [OF assms(3)] u(1) have "v (keyOf (OUnit u)) = Some (OUnit u)" by simp
    with u(2) assms(1) nsu k show False by (auto simp: setFootprint_def inSet_def named_def us_Name_def)
  qed
qed

text \<open>Continuing with the listed units.\<close>

lemma keeps_units_then:
  assumes "named ns n us" and "ns \<noteq> []"
    and "\<And>ks. (\<And>u. u \<in> set ks \<Longrightarrow> keyOf (OUnit u) \<in> setFootprint ns n v \<and> Namespace (u_meta u) = ns) \<Longrightarrow>
      keeps (frame view (setFootprint ns n v) v) (f ks)"
  shows "keeps (frame view (setFootprint ns n v) v) (bindA (mapErr g (unitsBelongUnitset K us)) f)"
proof (rule keeps_bind_if [where P = "\<lambda>ks. \<forall>u \<in> set ks. keyOf (OUnit u) \<in> setFootprint ns n v \<and> Namespace (u_meta u) = ns"])
  show "triple (frame view (setFootprint ns n v) v) (mapErr g (unitsBelongUnitset K us))
      (\<lambda>ks s. (\<forall>u \<in> set ks. keyOf (OUnit u) \<in> setFootprint ns n v \<and> Namespace (u_meta u) = ns) \<and> frame view (setFootprint ns n v) v s)
      (\<lambda>_. frame view (setFootprint ns n v) v)"
  proof (rule triple_mapErr, rule tripleI)
    fix s ks s' assume f: "frame view (setFootprint ns n v) v s" and l: "unitsBelongUnitset K us s = (Inr ks, s')"
    show "(\<forall>u \<in> set ks. keyOf (OUnit u) \<in> setFootprint ns n v \<and> Namespace (u_meta u) = ns) \<and> frame view (setFootprint ns n v) v s'"
      using footprint_listed [OF assms(1,2) f l] keepsD' [OF keeps_unitsBelong f l] by blast
  qed (rule keepsD' [OF keeps_unitsBelong])
qed (use assms(3) in blast)

section \<open>Every part stays within it\<close>

lemma configFor_names:
  assumes A: "(KConfigMap, ns, m) \<in> A"
  shows "triple (frame view A v) (configFor K X V ns us m tm w)
     (\<lambda>cm s. (Namespace (cm_meta cm) = ns \<and> Name (cm_meta cm) = m) \<and> frame view A v s) (\<lambda>_. frame view A v)"
proof -
  have k: "keyOf (OConfigMap (newConfig X ns us m tp)) = (KConfigMap, ns, m)" for tp by (simp add: keyOf_def newConfig_def)
  have keep: "keeps (frame view A v) (configFor K X V ns us m tm w)"
    unfolding configFor_def Let_def
    by (intro keeps_tryA keeps_frame_reads keeps_case_sum keeps_if keeps_fail keeps_bindA keeps_mapErr keeps_frame_writes keeps_ret)
      (simp add: k A)
  have "Namespace (cm_meta cm) = ns \<and> Name (cm_meta cm) = m" if r: "configFor K X V ns us m tm w s = (Inr cm, s')" for s cm s'
  proof -
    obtain g t where g: "getConfigMap K ns m s = (g, t)" by fastforce
    show ?thesis
    proof (cases g)
      case (Inr x)
      with r g have "cm = x" by (simp add: configFor_def)
      with view_names [OF getConfigMap_Inr(1) [OF g [unfolded Inr]]] show ?thesis by simp
    next
      case (Inl e)
      with r g obtain tp u where c: "tryA (createObj K (OConfigMap (newConfig X ns us m tp))) (\<lambda>c. case c of
               Inl e \<Rightarrow> if IsAlreadyExists e then ret (newConfig X ns us m tp) else fail (Fmt ''[CREATE] create config cm error'' e)
             | Inr ob \<Rightarrow> ret (case asConfigMap ob of Some cm' \<Rightarrow> cm' | None \<Rightarrow> newConfig X ns us m tp)) u = (Inr cm, s')"
        by (auto simp: configFor_def Let_def act_eq_iffs split: if_splits)
      obtain d w' where d: "kCreate K (OConfigMap (newConfig X ns us m tp)) u = (d, w')" by fastforce
      have nc: "Namespace (cm_meta (newConfig X ns us m tp)) = ns \<and> Name (cm_meta (newConfig X ns us m tp)) = m"
        by (simp add: newConfig_def)
      show ?thesis
      proof (cases d)
        case (Inl a)
        with c d nc show ?thesis by (auto simp: tryA_def createObj_def liftApi_def split: if_splits)
      next
        case (Inr ob)
        have "keyOf ob = (KConfigMap, ns, m)" using write_Inr [OF create_law d [unfolded Inr]] k by (simp add: createEff_def)
        with Inr c d nc show ?thesis
          by (auto simp: tryA_def createObj_def liftApi_def keyOf_def split: option.splits)
      qed
    qed
  qed
  with keep show ?thesis by (auto intro!: tripleI dest: keepsD')
qed

lemma keeps_updateConfigValue:
  assumes "(KConfigMap, Namespace (cm_meta cm), Name (cm_meta cm)) \<in> A"
  shows "keeps (frame view A v) (updateConfigValue K Y V us cm)"
  unfolding updateConfigValue_def oldTemplateContent_def
  by (intro keeps_bindA keeps_mapErr keeps_frame_reads keeps_case_option keeps_ret keeps_tryA keeps_liftE keeps_thenA keeps_frame_writes)
    (simp add: keyOf_def atVersion_def assms)

lemma keeps_reconcileConfigmap:
  assumes us: "named ns n us"
  shows "keeps (frame view (setFootprint ns n v) v) (reconcileConfigmap K Y X V ns us)"
proof -
  let ?A = "setFootprint ns n v"
  have t: "(KConfigMap, ns, ConfigTemplateName us) \<in> ?A"
    using footprint_named [OF us, of KConfigMap "''config-template''"] by (simp add: ConfigTemplateName_def)
  have tmpl: "keeps (frame view ?A v) (reconcileConfigTemplate K X V ns us)"
    unfolding reconcileConfigTemplate_def
    by (intro keeps_bind_if [OF configFor_names [OF t]] keeps_whenA keeps_bindA keeps_mapErr keeps_frame_reads keeps_thenA keeps_frame_writes
        keeps_ret) (simp add: keyOf_def atVersion_def t)
  have "keeps (frame view ?A v) (reconcileConfigTemplateValue K Y X V ns us u)" if u: "u \<in> set (unitNames us)" for u
  proof -
    have k: "(KConfigMap, ns, ConfigValueName us u) \<in> ?A"
      using footprint_unit(2) [OF us u, of KConfigMap] by (simp add: ConfigValueName_def)
    show ?thesis
      unfolding reconcileConfigTemplateValue_def
      by (intro keeps_if keeps_ret keeps_bind_if [OF configFor_names [OF k]] keeps_whenA keeps_updateConfigValue) (simp add: k)
  qed
  with tmpl show ?thesis
    unfolding reconcileConfigmap_def by (intro keeps_thenA keeps_goAll keeps_if keeps_ret)
qed

lemma keeps_getPodTemplate:
  assumes us: "named ns n us"
  shows "keeps (frame view (setFootprint ns n v) v) (getPodTemplate K X V ns us)"
proof -
  have "(KPodTemplate, ns, PodTemplateName us) \<in> setFootprint ns n v"
    using footprint_named [OF us, of KPodTemplate "''podtemplate''"] by (simp add: PodTemplateName_def)
  moreover have "keeps I (case ob of OPodTemplate p \<Rightarrow> ret p | _ \<Rightarrow> ret q)" for I :: "'s \<Rightarrow> bool" and ob q
    by (cases ob) (simp_all only: obj.case keeps_ret)
  ultimately show ?thesis
    unfolding getPodTemplate_def Let_def
    by (intro keeps_tryA keeps_frame_reads keeps_case_sum keeps_ret keeps_if keeps_fail keeps_bindA keeps_frame_writes)
      (simp_all add: keyOf_def)
qed

lemma keeps_ensureObj:
  "keeps (frame view A v) get \<Longrightarrow> keyOf ob \<in> A \<Longrightarrow> keeps (frame view A v) (ensure get (createTolerant K ob w) w')"
  by (intro keeps_ensure keeps_createTolerant)

lemma keeps_headless:
  assumes us: "named ns n us"
  shows "keeps (frame view (setFootprint ns n v) v) (reconcileHeadlessService K X us ports)"
proof -
  have "keyOf (OService (headlessService X us ports)) = (KService, ns, us_Name us @ ''-'' @ ''headless-svc'')"
    using us by (simp add: keyOf_def headlessService_def withSelector_def withLabel_def serviceOf_def HeadlessServiceName_def named_def)
  with footprint_named [OF us, of KService "''headless-svc''"] show ?thesis
    unfolding reconcileHeadlessService_def by (intro keeps_ensureObj keeps_frame_reads) simp
qed

text \<open>The parts that change the set in memory keep its key.\<close>

definition changes :: "string \<Rightarrow> string \<Rightarrow> objview \<Rightarrow> ('s, UnitSet) act \<Rightarrow> bool" where
  "changes ns n v m \<longleftrightarrow> triple (frame view (setFootprint ns n v) v) m
     (\<lambda>us s. named ns n us \<and> frame view (setFootprint ns n v) v s) (\<lambda>_. frame view (setFootprint ns n v) v)"

lemma changesI:
  assumes "keeps (frame view (setFootprint ns n v) v) m" and "\<And>s us s'. m s = (Inr us, s') \<Longrightarrow> named ns n us"
  shows "changes ns n v m"
  unfolding changes_def using assms by (auto intro!: tripleI dest: keepsD')

lemma changes_external:
  assumes us: "named ns n us"
  shows "changes ns n v (reconcileExternalService K X us ports)"
proof (rule changesI)
  have "keyOf (OService (externalService X us ports)) = (KService, ns, us_Name us @ ''-'' @ ''svc'')"
    using us by (simp add: keyOf_def externalService_def withSelector_def withLabel_def serviceOf_def ExternalServiceName_def named_def)
  with footprint_named [OF us, of KService "''svc''"] us show "keeps (frame view (setFootprint ns n v) v) (reconcileExternalService K X us ports)"
    unfolding reconcileExternalService_def Let_def
    by (intro keeps_if keeps_ret keeps_tryA keeps_frame_reads keeps_case_sum keeps_fail keeps_thenA keeps_createTolerant keeps_mapErr
        keeps_patchUnitset) simp_all
  show "named ns n us'" if "reconcileExternalService K X us ports s = (Inr us', s')" for s us' s'
    using that us by (auto simp: reconcileExternalService_def Let_def tryA_def named_def act_eq_iffs split: if_splits prod.splits sum.splits)
qed

lemma keeps_ensureUnitService:
  assumes us: "named ns n us" and u: "u \<in> set (unitNames us)"
  shows "keeps (\<lambda>p. frame view (setFootprint ns n v) v (snd p)) (ensureUnitService K X us maps ports u)"
proof -
  have k: "unitServiceKey us u \<in> setFootprint ns n v"
    using footprint_unit(2) [OF us u, of KService] us by (simp add: unitServiceName_def named_def)
  show ?thesis
    unfolding ensureUnitService_def
    by (intro keeps_tryA keeps_liftW keeps_frame_reads keeps_case_sum keeps_ret keeps_if keeps_fail keeps_bindA keeps_liftE keeps_thenA
        keeps_createTolerant keeps_putL) (simp add: k)
qed

lemma keeps_createUnitServices:
  assumes us: "named ns n us"
  shows "keeps (frame view (setFootprint ns n v) v) (createUnitServices K X us maps ports)"
  unfolding createUnitServices_def
proof (rule keeps_shuffled_then)
  fix ys assume ys: "set ys = set (unitNames us)"
  show "keeps (frame view (setFootprint ns n v) v) (\<lambda>s. case forkAll ys (ensureUnitService K X us maps ports) (False, s) of
      (errs, created, s') \<Rightarrow> (Inr (errs, created), s'))"
  proof (rule keepsI)
    fix s assume "frame view (setFootprint ns n v) v s"
    then have "frame view (setFootprint ns n v) v (snd (snd (forkAll ys (ensureUnitService K X us maps ports) (False, s))))"
      by (intro forkAll_keeps [where I = "\<lambda>p. frame view (setFootprint ns n v) v (snd p)"] keeps_ensureUnitService [OF us]) (auto simp: ys)
    then show "frame view (setFootprint ns n v) v (snd (case forkAll ys (ensureUnitService K X us maps ports) (False, s) of
        (errs, created, s') \<Rightarrow> (Inr (errs, created), s')))" by (auto split: prod.split)
  qed
qed

lemma recordServices_key:
  assumes "recordServices K X maps us errs created s = (Inr us', s')"
  shows "sameKey us us'"
  using assms
  by (auto simp: recordServices_def recordNodePorts_def recordIPs_def Let_def act_eq_iffs split: if_splits)

lemma changes_unitService:
  assumes us: "named ns n us"
  shows "changes ns n v (reconcileUnitService K X us ports)"
proof (rule changesI)
  show "keeps (frame view (setFootprint ns n v) v) (reconcileUnitService K X us ports)"
    unfolding reconcileUnitService_def Let_def split_beta
    by (intro keeps_if keeps_ret keeps_bindA keeps_createUnitServices [OF us] keeps_recordServices) (simp add: us)
  show "named ns n us'" if "reconcileUnitService K X us ports s = (Inr us', s')" for s us' s'
    using that us by (auto simp: reconcileUnitService_def Let_def named_def act_eq_iffs split: if_splits dest!: recordServices_key)
qed

lemma keeps_certificates:
  assumes us: "named ns n us"
  shows "keeps (frame view (setFootprint ns n v) v) (reconcileUnitCertificates K X ns us)"
proof -
  let ?I = "\<lambda>p. frame view (setFootprint ns n v) v (snd p)"
  have note_: "keeps ?I (noteErr m)" if "keeps (frame view (setFootprint ns n v) v) m" for m
    unfolding noteErr_def by (intro keeps_tryA keeps_liftW that keeps_case_sum keeps_ret keeps_bindA keeps_getL keeps_putL)
  have "keeps ?I (certifyUnit K X ns us u)" if u: "u \<in> set (unitNames us)" for u
    unfolding certifyUnit_def ensureIssuer_def ensureCertificate_def
    using footprint_unit(2) [OF us u]
    by (intro keeps_thenA note_ keeps_ensureObj keeps_frame_aux_reads)
      (simp_all add: keyOf_def unitIssuer_def unitCertificate_def issuerName_def certificateName_def)
  then show ?thesis
    unfolding reconcileUnitCertificates_def split_beta
    by (intro keeps_if keeps_ret keeps_bindA keeps_withLocal keeps_goAllL keeps_mapErr keeps_aggregate)
qed

lemma keeps_setGeneration:
  assumes "named ns n us"
  shows "keeps (frame view (setFootprint ns n v) v) (reconcileUnitsetObservedGeneration K ns us)"
  unfolding reconcileUnitsetObservedGeneration_def
  by (intro keeps_mapErr keeps_retry keeps_getUnitSet_then keeps_thenA keeps_frame_writes keeps_ret)
    (use assms in \<open>simp_all add: named_def us_Name_def setFootprint_def\<close>)

lemma keeps_createMissing:
  assumes us: "named ns n us" and u: "u \<in> set (unitNames us)"
  shows "keeps (\<lambda>p. frame view (setFootprint ns n v) v (snd p)) (createMissing K X ns us pt ms vs es pvcs u)"
proof -
  have k: "keyOf (OUnit (fillUnitPersonalizedInfo X t us (snd (UnitNames us)) u)) \<in> setFootprint ns n v"
    if "generateUnitTemplate X ord ns u (Some us) (Some pt) ms vs es pvcs = Inr t" for ord t
    using footprint_unit(1) [OF us u, of KUnit] newUnit_meta [of X us u t] generated_meta(1,2) [OF that] by (simp add: newUnit_def)
  show ?thesis
    unfolding createMissing_def
    by (intro keeps_tryA keeps_liftW keeps_frame_reads keeps_case_sum keeps_ret keeps_if keeps_fail keeps_bindA keeps_orderA keeps_thenA
        keeps_putL keeps_frame_writes k)
qed

lemma keeps_removeUnits:
  assumes "\<And>u. u \<in> set ks \<Longrightarrow> keyOf (OUnit u) \<in> A"
  shows "keeps (frame view A v) (removeUnits K us ks)"
  unfolding removeUnits_def by (intro keeps_if keeps_ret keeps_removeLoop) (use assms in blast)

lemma keeps_reconcileUnit:
  assumes us: "named ns n us" and ns: "ns \<noteq> []"
  shows "keeps (frame view (setFootprint ns n v) v) (reconcileUnit K X ns us pt)"
  unfolding reconcileUnit_def split_beta
  by (rule keeps_bindA [OF keeps_liftE], rule keeps_bindA [OF keeps_withLocal [OF keeps_mapErr [OF keeps_goGroupL]]],
      rule keeps_createMissing [OF us], assumption, rule keeps_units_then [OF us ns])
    (intro keeps_bindA keeps_if keeps_ret keeps_removeUnits keeps_whenA keeps_mapErr keeps_setGeneration; use us in \<open>auto simp: footprint_set\<close>)

lemma keeps_podMonitor:
  assumes us: "named ns n us"
  shows "keeps (frame view (setFootprint ns n v) v) (reconcilePodMonitor K X us)"
proof -
  let ?A = "setFootprint ns n v"
  have A: "(KPodMonitor, ns, podMonitorName us) \<in> ?A"
    using footprint_named [OF us, of KPodMonitor "''exporter-podmon''"] by (simp add: podMonitorName_def MonitorPodMonitorNameSuffix_def)
  have sync: "keeps (frame view ?A v) (syncPodMonitor K X us)"
  proof (rule keepsI)
    fix s assume f: "frame view ?A v s"
    obtain g t where g: "getPodMonitor K (Namespace (us_meta us)) (podMonitorName us) s = (g, t)" by fastforce
    have ft: "frame view ?A v t" by (rule keepsD' [OF keeps_frame_aux_reads(3) f g])
    show "frame view ?A v (snd (syncPodMonitor K X us s))"
    proof (cases g)
      case (Inl e)
      have "keyOf (OAux (APodMonitor (newPodMonitor X us))) \<in> ?A" using A us by (simp add: keyOf_def newPodMonitor_def named_def)
      from keepsD [OF keeps_createTolerant [OF this] ft] Inl g ft show ?thesis by (simp add: syncPodMonitor_def tryA_def)
    next
      case (Inr pm)
      let ?pm = "OAux (APodMonitor (pm\<lparr>pm_Spec := buildExpectedPodMonitorSpec us\<rparr>))"
      have "keyOf ?pm \<in> ?A"
        using view_key [OF getPodMonitor_cases(3) [OF g Inr]] A us by (simp add: keyOf_def named_def)
      then have "keeps (frame view ?A v) (whenA b (thenA (mapErr w (updateObj K ?pm)) (ret ())))" for b w
        by (intro keeps_whenA keeps_thenA keeps_mapErr keeps_frame_writes keeps_ret)
      from keepsD [OF this ft] Inr g show ?thesis by (simp add: syncPodMonitor_def tryA_def)
    qed
  qed
  then show ?thesis
    unfolding reconcilePodMonitor_def by (intro keeps_if keeps_ret keeps_tryA keeps_frame_aux_reads keeps_case_sum keeps_fail)
qed

lemma keeps_imageVersion:
  assumes us: "named ns n us"
  shows "keeps (frame view (setFootprint ns n v) v) (reconcileImageVersion K X V ns us pt)"
proof -
  let ?A = "setFootprint ns n v"
  have A: "(KPodTemplate, ns, PodTemplateName us) \<in> ?A"
    using footprint_named [OF us, of KPodTemplate "''podtemplate''"] by (simp add: PodTemplateName_def)
  have unit: "keeps (frame view ?A v) (updateUnitImageVersion K X ns us pt' ms vs es u)" if "u \<in> set (unitNames us)" for pt' ms vs es u
    by (rule keeps_updateUnitImageVersion) (use footprint_unit(1) [OF us that] in simp)
  have parallel: "keeps (frame view ?A v) (performParallelUpdate K (sortUnitNamesByOrdinal (unitNames us)) f)"
    if "\<And>u. u \<in> set (unitNames us) \<Longrightarrow> keeps (frame view ?A v) (f u)" for f
    unfolding performParallelUpdate_def
    by (rule keeps_shuffled_then) (intro keeps_forEach keeps_bindA keeps_asks keeps_if keeps_fail keeps_mapErr that, simp)
  have cur: "currentUnit us (sortUnitNamesByOrdinal (unitNames us)) \<in> set (unitNames us)" if "unitNames us \<noteq> []"
  proof -
    have "sortUnitNamesByOrdinal (sortUnitNamesByOrdinal (unitNames us)) \<noteq> []" using that by (simp flip: set_empty)
    from hd_in_set [OF this] show ?thesis by (auto simp: currentUnit_def)
  qed
  show ?thesis
    unfolding reconcileImageVersion_def Let_def split_def
    by (intro keeps_getPodTemplate_then keeps_if keeps_ret keeps_bindA keeps_liftE keeps_mapErr keeps_thenA keeps_fail keeps_asks
        keeps_frame_writes keeps_setGeneration keeps_performRollingUpdate parallel unit)
      (use us A cur in \<open>auto simp: keyOf_def\<close>)
qed

lemma keeps_changeUnits:
  assumes us: "named ns n us" and ks: "\<And>u. u \<in> set ks \<Longrightarrow> keyOf (OUnit u) \<in> setFootprint ns n v \<and> Namespace (u_meta u) = ns"
    and f: "\<And>u. unitKey ns u \<in> setFootprint ns n v \<Longrightarrow> keeps (frame view (setFootprint ns n v) v) (f u)"
  shows "keeps (frame view (setFootprint ns n v) v) notReady \<Longrightarrow>
      keeps (frame view (setFootprint ns n v) v) (rollingPhases K ns us (unitMap ks) names needs f notReady)"
    and "keeps (frame view (setFootprint ns n v) v) (parallelChange K ns us (unitMap ks) names needs f wrap)"
proof -
  have m: "unitKey ns u \<in> setFootprint ns n v" if "unitMap ks u = Some x" for u x
    using ks [OF unitMap_Some(1) [OF that]] unitMap_Some(2) [OF that] by (auto simp: u_Name_def)
  show "keeps (frame view (setFootprint ns n v) v) (rollingPhases K ns us (unitMap ks) names needs f notReady)"
    if "keeps (frame view (setFootprint ns n v) v) notReady"
    by (rule keeps_rollingPhases) (use us that f m in auto)
  have "keeps (frame view (setFootprint ns n v) v) (f u)" if "u \<in> set (filter (needing needs (unitMap ks)) names)" for u
    using that f m by (auto simp: needing_def split: option.splits)
  then show "keeps (frame view (setFootprint ns n v) v) (parallelChange K ns us (unitMap ks) names needs f wrap)"
    unfolding parallelChange_def Let_def
    by (intro keeps_thenA keeps_mapErr keeps_goAll keeps_whenA keeps_setGeneration) (use us in auto)
qed

lemma keeps_resources:
  assumes us: "named ns n us" and ns: "ns \<noteq> []"
  shows "keeps (frame view (setFootprint ns n v) v) (reconcileResources K X ns us)"
    and "keeps (frame view (setFootprint ns n v) v) (reconcileResizePolicy K X ns us)"
proof -
  show "keeps (frame view (setFootprint ns n v) v) (reconcileResources K X ns us)"
    unfolding reconcileResources_def Let_def
    by (rule keeps_units_then [OF us ns])
      (intro keeps_if keeps_ret keeps_changeUnits [OF us] keeps_updateUnitResources, assumption+)
  show "keeps (frame view (setFootprint ns n v) v) (reconcileResizePolicy K X ns us)"
    unfolding reconcileResizePolicy_def Let_def
    by (rule keeps_units_then [OF us ns])
      (intro keeps_if keeps_ret keeps_fail keeps_changeUnits [OF us] keeps_updateUnitResizePolicy, assumption+)
qed

lemma keeps_storage:
  assumes us: "named ns n us" and ns: "ns \<noteq> []"
  shows "keeps (frame view (setFootprint ns n v) v) (reconcileStorage K X ns us)"
proof -
  have "u_meta w = u_meta u" if "mergeStorage X us u = Inr w" for u w
    using that by (auto simp: mergeStorage_def bindE_Inr_iff)
  then have body: "keeps (frame view A v) (bindA (liftE (mergeStorage X us u)) (\<lambda>w. thenA (updateObj K (OUnit w)) (ret ())))"
    if "keyOf (OUnit u) \<in> A" for u A
    using that by (cases "mergeStorage X us u") (auto simp: keeps_fail intro!: keeps_thenA keeps_frame_writes keeps_ret)
  show ?thesis
    unfolding reconcileStorage_def
  proof (rule keeps_units_then [OF us ns])
    fix ks assume ks: "\<And>u. u \<in> set ks \<Longrightarrow> keyOf (OUnit u) \<in> setFootprint ns n v \<and> Namespace (u_meta u) = ns"
    show "keeps (frame view (setFootprint ns n v) v) (if ks = [] then ret ()
       else bindA (liftE (storageTooSmall X us ks)) (\<lambda>needUpdate.
         whenA needUpdate
           (thenA (mapErr (Fmt ''[reconcileStorage] error'') (goAll K ks (\<lambda>unit.
                mapErr (Fmt ''[reconcileStorage] update unit err'')
                  (retryOnConflict DefaultRetry
                    (bindA (liftE (mergeStorage X us unit)) (\<lambda>newUnit.
                       thenA (updateObj K (OUnit newUnit)) (ret ())))))))
             (mapErr (Fmt ''[reconcileStorage] error'') (reconcileUnitsetObservedGeneration K ns us)))))"
      by (rule keeps_if [OF keeps_ret], rule keeps_bindA [OF keeps_liftE],
          rule keeps_whenA [OF keeps_thenA [OF keeps_mapErr [OF keeps_goAll [OF keeps_mapErr [OF keeps_retry [OF body]]]]
            keeps_mapErr [OF keeps_setGeneration [OF us]]]]) (use ks in blast)
  qed
qed

lemma keeps_labels:
  assumes us: "named ns n us" and ns: "ns \<noteq> []"
  shows "keeps (frame view (setFootprint ns n v) v) (reconcileUnitLabelsAnnotations K ns us)"
proof -
  let ?I = "\<lambda>p. frame view (setFootprint ns n v) v (snd p)"
  have body: "keeps ?I (bindA (liftW (getUnit K (Namespace (u_meta u)) (u_Name u))) (\<lambda>latest.
      case mergeLabelsAnnotations us latest of (merged, needUpdate) \<Rightarrow>
        if \<not> needUpdate then ret () else thenA (putL True) (thenA (liftW (updateObj K (OUnit merged))) (ret ()))))"
    if u: "keyOf (OUnit u) \<in> setFootprint ns n v" for u
  proof (rule keeps_bind_if [where P = "\<lambda>l. keyOf (OUnit l) = keyOf (OUnit u)"])
    show "triple ?I (liftW (getUnit K (Namespace (u_meta u)) (u_Name u))) (\<lambda>l p. keyOf (OUnit l) = keyOf (OUnit u) \<and> ?I p) (\<lambda>_. ?I)"
      by (rule triple_liftW) (use getUnit_names [of "setFootprint ns n v" v "Namespace (u_meta u)" "u_Name u"] in \<open>simp add: u_Name_def\<close>)
    fix l assume l: "keyOf (OUnit l) = keyOf (OUnit u)"
    have "keyOf (OUnit (fst (mergeLabelsAnnotations us l))) = keyOf (OUnit l)"
      by (simp add: mergeLabelsAnnotations_def Let_def withMetaMaps_def)
    with l u show "keeps ?I (case mergeLabelsAnnotations us l of (merged, needUpdate) \<Rightarrow>
        if \<not> needUpdate then ret () else thenA (putL True) (thenA (liftW (updateObj K (OUnit merged))) (ret ())))"
      unfolding split_beta by (intro keeps_if keeps_ret keeps_thenA keeps_putL keeps_liftW keeps_frame_writes) simp
  qed
  show ?thesis
    unfolding reconcileUnitLabelsAnnotations_def
  proof (rule keeps_units_then [OF us ns])
    fix ks assume ks: "\<And>u. u \<in> set ks \<Longrightarrow> keyOf (OUnit u) \<in> setFootprint ns n v \<and> Namespace (u_meta u) = ns"
    show "keeps (frame view (setFootprint ns n v) v) (if ks = [] then ret ()
       else bindA (withLocal False (mapErr (Fmt ''[reconcileUnitLabelsAnnotations] error'')
              (goAllL K ks (\<lambda>unit. mapErr (Fmt ''[reconcileUnitLabelsAnnotations] update unit err'')
                 (retryOnConflict DefaultRetry
                   (bindA (liftW (getUnit K (Namespace (u_meta unit)) (u_Name unit))) (\<lambda>latest.
                      case mergeLabelsAnnotations us latest of (merged, needUpdate) \<Rightarrow>
                        if \<not> needUpdate then ret ()
                        else thenA (putL True) (thenA (liftW (updateObj K (OUnit merged))) (ret ())))))))))
            (\<lambda>(_, needUpdateObservedGeneration).
              whenA needUpdateObservedGeneration (mapErr (Fmt ''[reconcileUnitLabelsAnnotations] error'')
                (reconcileUnitsetObservedGeneration K ns us))))"
      by (intro keeps_if keeps_ret keeps_bindA keeps_withLocal keeps_mapErr keeps_goAllL keeps_retry body)
        (use ks in \<open>auto intro!: keeps_whenA keeps_mapErr keeps_setGeneration [OF us]\<close>)
  qed
qed

end

section \<open>The set in memory\<close>

definition setI :: "('s \<Rightarrow> objview) \<Rightarrow> string \<Rightarrow> string \<Rightarrow> objview \<Rightarrow> UnitSet \<times> 's \<Rightarrow> bool" where
  "setI view ns n v p \<longleftrightarrow> named ns n (fst p) \<and> frame view (setFootprint ns n v) v (snd p)"

lemma keeps_setI_liftW: "keeps (frame view (setFootprint ns n v) v) m \<Longrightarrow> keeps (setI view ns n v) (liftW m)"
  by (rule triple_liftW) (auto simp: setI_def triple_def)

lemma keeps_setI_putL: "named ns n us \<Longrightarrow> keeps (setI view ns n v) (putL us)"
  by (rule keepsI) (simp add: setI_def putL_def)

lemma keeps_setI_getL:
  assumes "\<And>us. named ns n us \<Longrightarrow> keeps (setI view ns n v) (f us)"
  shows "keeps (setI view ns n v) (bindA getL f)"
  by (rule triple_getL) (use assms in \<open>auto simp: triple_def setI_def\<close>)

lemma keeps_onSet:
  assumes "\<And>us. named ns n us \<Longrightarrow> keeps (frame view (setFootprint ns n v) v) (f us)"
  shows "keeps (setI view ns n v) (onSet f)"
  unfolding onSet_def by (intro keeps_setI_getL keeps_setI_liftW assms)

context kube_api
begin

lemma keeps_changeSet:
  assumes "\<And>us. named ns n us \<Longrightarrow> changes ns n v (f us)"
  shows "keeps (setI view ns n v) (changeSet f)"
  unfolding changeSet_def
proof (rule keeps_setI_getL, rule keeps_bind_if [where P = "named ns n"])
  fix us assume "named ns n us"
  from assms [OF this] show "triple (setI view ns n v) (liftW (f us)) (\<lambda>x p. named ns n x \<and> setI view ns n v p) (\<lambda>_. setI view ns n v)"
    unfolding changes_def by (intro triple_liftW tripleI) (auto simp: setI_def dest: tripleD_Inr tripleD_Inl)
qed (rule keeps_setI_putL)

lemma keeps_storeStatus:
  assumes us: "named ns n us"
  shows "keeps (setI view ns n v) (storeStatus K X us st)"
  unfolding storeStatus_def Let_def
proof (intro keeps_thenA keeps_whenA keeps_bind_if [where P = "\<lambda>ob. keyOf ob = unitSetKey ns n"])
  let ?ob = "OUnitSet (us\<lparr>us_Status := st\<rparr>)"
  have new: "named ns n (us\<lparr>us_Status := st\<rparr>)" using us by (simp add: named_def)
  then show "keeps (setI view ns n v) (putL (us\<lparr>us_Status := st\<rparr>))" by (rule keeps_setI_putL)
  have k: "keyOf ?ob = unitSetKey ns n" using us by (simp add: named_def)
  have "keeps (frame view (setFootprint ns n v) v) (statusUpdate K ?ob)"
    by (rule keeps_frame_writes) (simp add: k [simplified] setFootprint_def)
  then show "triple (setI view ns n v) (liftW (statusUpdate K ?ob)) (\<lambda>ob p. keyOf ob = unitSetKey ns n \<and> setI view ns n v p)
      (\<lambda>_. setI view ns n v)"
    using store_key(2) [of ?ob] k
    by (intro triple_liftW tripleI) (auto simp: setI_def dest: keepsD')
  show "keeps (setI view ns n v) (putL (case asUnitSet ob of Some u \<Rightarrow> u | None \<Rightarrow> us\<lparr>us_Status := st\<rparr>))"
    if "keyOf ob = unitSetKey ns n" for ob
    by (rule keeps_setI_putL) (use that new in \<open>auto simp: named_def split: option.split\<close>)
qed

lemma keeps_unitsetStatus: "keeps (setI view ns n v) (reconcileUnitsetStatus K X)"
  unfolding reconcileUnitsetStatus_def listServiceBelongUnitset_def now_def split_beta
  by (intro keeps_setI_getL keeps_tryA keeps_bindA keeps_setI_liftW keeps_unitsBelong keeps_frame_reads keeps_asks keeps_liftE
      keeps_storeStatus)

lemma keeps_patchSet: "keeps (setI view ns n v) (reconcilePatchUnitset K X)"
  unfolding reconcilePatchUnitset_def Let_def
  by (intro keeps_setI_getL keeps_bindA keeps_mapErr keeps_setI_liftW keeps_unitsBelong keeps_if keeps_ret keeps_thenA keeps_setI_putL
      keeps_whenA keeps_ignoreErr keeps_patchUnitset)
    (simp_all add: setNodeNameMapToAnnotations_def named_def setFootprint_def)

lemma keeps_reconcileUnits:
  assumes "ns \<noteq> []"
  shows "keeps (setI view ns n v) (reconcileUnits K X V ns pt)"
  unfolding reconcileUnits_def unitsetStatusRetried_def
  by (intro keeps_thenA keeps_mapErr keeps_retry keeps_unitsetStatus keeps_onSet keeps_reconcileUnit keeps_patchSet keeps_podMonitor
      keeps_imageVersion keeps_resources keeps_labels keeps_storage assms)

lemma keeps_reconcileAround: "keeps (setI view ns n v) (reconcileAround K X ns ports)"
  unfolding reconcileAround_def
  by (intro keeps_thenA keeps_onSet keeps_headless keeps_changeSet changes_external changes_unitService keeps_certificates)

section \<open>Deletion\<close>

definition setObjI :: "string \<Rightarrow> string \<Rightarrow> objview \<Rightarrow> obj \<times> 's \<Rightarrow> bool" where
  "setObjI ns n v p \<longleftrightarrow> keyOf (fst p) = unitSetKey ns n \<and> frame view (setFootprint ns n v) v (snd p)"

lemma keeps_setObjI_liftW: "keeps (frame view (setFootprint ns n v) v) m \<Longrightarrow> keeps (setObjI ns n v) (liftW m)"
  by (rule triple_liftW) (auto simp: setObjI_def triple_def)

lemma keeps_sharedUnitSet:
  assumes "\<And>us. named ns n us \<Longrightarrow> keeps (setObjI ns n v) (f us)"
  shows "keeps (setObjI ns n v) (bindA sharedUnitSet f)"
proof (rule keepsI)
  fix p assume p: "setObjI ns n v p"
  then obtain us where "fst p = OUnitSet us" "named ns n us"
    by (cases "fst p") (auto simp: setObjI_def keyOf_def named_def)
  with keepsD [OF assms p] show "setObjI ns n v (snd (bindA sharedUnitSet f p))"
    by (simp add: sharedUnitSet_def bindA_def getL_def asUnitSet_def)
qed

lemma keeps_dropSet:
  assumes "ext_laws X"
  shows "keeps (setObjI ns n v) (dropFinalizer K X msg f)"
proof (rule keepsI)
  fix p assume p: "setObjI ns n v p"
  let ?l = "withoutFinalizer X f (fst p)"
  have k: "keyOf ?l = unitSetKey ns n" using p keyOf_withoutFinalizer [OF assms] by (simp add: setObjI_def)
  obtain r t where u: "updateObj K ?l (snd p) = (r, t)" by fastforce
  have "frame view (setFootprint ns n v) v t"
    by (rule keepsD' [OF keeps_frame_writes(2) _ u]) (use p k in \<open>auto simp: setObjI_def setFootprint_def\<close>)
  moreover have "r = Inr ob \<Longrightarrow> keyOf ob = unitSetKey ns n" for ob using store_key(1) u k by auto
  ultimately show "setObjI ns n v (snd (dropFinalizer K X msg f p))"
    using p k u
    by (cases r) (auto simp: dropFinalizer_def bindA_def thenA_def getL_def putL_def mapErr_def liftW_def setObjI_def)
qed

lemma keeps_waitGone':
  "keeps I get \<Longrightarrow> keeps I (waitGone m get msg)"
  unfolding waitGone_def by (intro keeps_poll keeps_tryA keeps_case_sum keeps_if keeps_ret keeps_fail)

lemma setUnits_then:
  assumes us: "named ns n us" and ns: "ns \<noteq> []"
    and f: "\<And>ks. (\<And>u. u \<in> set ks \<Longrightarrow> keyOf (OUnit u) \<in> setFootprint ns n v) \<Longrightarrow> keeps (setObjI ns n v) (f ks)"
  shows "keeps (setObjI ns n v) (bindA (mapErr g (liftW (unitsBelongUnitset K us))) f)"
proof (rule keeps_bind_if [where P = "\<lambda>ks. \<forall>u \<in> set ks. keyOf (OUnit u) \<in> setFootprint ns n v"])
  show "triple (setObjI ns n v) (mapErr g (liftW (unitsBelongUnitset K us)))
      (\<lambda>ks p. (\<forall>u \<in> set ks. keyOf (OUnit u) \<in> setFootprint ns n v) \<and> setObjI ns n v p) (\<lambda>_. setObjI ns n v)"
  proof (rule triple_mapErr, rule triple_liftW, rule tripleI)
    fix l s ks s' assume p: "setObjI ns n v (l, s)" and q: "unitsBelongUnitset K us s = (Inr ks, s')"
    then have f: "frame view (setFootprint ns n v) v s" by (simp add: setObjI_def)
    from keepsD' [OF keeps_unitsBelong f q] footprint_listed(1) [OF us ns f q] p
    show "(\<forall>u \<in> set ks. keyOf (OUnit u) \<in> setFootprint ns n v) \<and> setObjI ns n v (l, s')" by (simp add: setObjI_def)
  next
    fix l s e s' assume "setObjI ns n v (l, s)" and "unitsBelongUnitset K us s = (Inl e, s')"
    then show "setObjI ns n v (l, s')" by (auto simp: setObjI_def dest: keepsD' [OF keeps_unitsBelong])
  qed
qed (use f in blast)

lemma keeps_deleteSetUnits:
  assumes X: "ext_laws X" and ns: "ns \<noteq> []"
  shows "keeps (setObjI ns n v) (deleteUnitWithFinalizer K X f)"
proof -
  have poll: "keeps (frame view (setFootprint ns n v) v)
      (pollUntil m (bindA (mapErr g (unitsBelongUnitset K us)) (\<lambda>ks. ret (ks = []))))" for m g us
    by (intro keeps_poll keeps_bindA keeps_mapErr keeps_unitsBelong keeps_ret)
  show ?thesis
    unfolding deleteUnitWithFinalizer_def
    by (rule keeps_sharedUnitSet, rule setUnits_then [OF _ ns], assumption,
        intro keeps_if keeps_dropSet X keeps_thenA keeps_mapErr keeps_setObjI_liftW keeps_forEach keeps_deleteIgnoreAbsent
        keeps_frame_writes poll) blast
qed

lemma keeps_deleteSetConfigmaps:
  assumes X: "ext_laws X"
  shows "keeps (setObjI ns n v) (deleteConfigMapWithFinalizer K X f)"
proof -
  have k: "(KConfigMap, Namespace (us_meta us), m) \<in> setFootprint ns n v" if "named ns n us" "m \<in> set (configmapNames us)" for us m
    using that footprint_named [OF that(1), of KConfigMap "''config-template''"] footprint_unit(2) [OF that(1)]
    by (auto simp: configmapNames_def ConfigTemplateName_def ConfigValueName_def named_def)
  show ?thesis
    unfolding deleteConfigMapWithFinalizer_def
    by (rule keeps_sharedUnitSet)
      (intro keeps_thenA keeps_mapErr keeps_setObjI_liftW keeps_goAll keeps_deleteIgnoreAbsent keeps_frame_writes keeps_waitGone'
        keeps_frame_reads keeps_dropSet X k)
qed

lemma keeps_deleteUnitset:
  assumes X: "ext_laws X" and ns: "ns \<noteq> []" and us: "named ns n us"
  shows "keeps (frame view (setFootprint ns n v) v) (deleteUnitset K X us)"
proof -
  have h: "keeps (setObjI ns n v) (deleteResources K X f)" for f
    unfolding deleteResources_def by (intro keeps_if keeps_deleteSetUnits [OF X ns] keeps_deleteSetConfigmaps [OF X] keeps_ret)
  have all: "keeps (setObjI ns n v) (goAllL K xs (deleteResources K X))" for xs
    unfolding goAllL_def by (intro keeps_bindA keeps_setObjI_liftW keeps_frame_reads keeps_forkJoin h)
  show ?thesis
    unfolding deleteUnitset_def runFinalizers_def
  proof (intro keeps_mapErr keeps_bindA keeps_ret, rule keepsI)
    fix s assume "frame view (setFootprint ns n v) v s"
    with keepsD [OF all, of "(OUnitSet us, s)"] us
    have "setObjI ns n v (snd (goAllL K (Finalizers (objMeta (OUnitSet us))) (deleteResources K X) (OUnitSet us, s)))"
      by (simp add: setObjI_def named_def)
    then show "frame view (setFootprint ns n v) v
        (snd (withLocal (OUnitSet us) (goAllL K (Finalizers (objMeta (OUnitSet us))) (deleteResources K X)) s))"
      by (cases "goAllL K (Finalizers (objMeta (OUnitSet us))) (deleteResources K X) (OUnitSet us, s)")
        (auto simp: withLocal_def setObjI_def split: prod.split)
  qed
qed

section \<open>The whole reconciliation\<close>

lemma keeps_reconcileUnitset:
  assumes X: "ext_laws X" and ns: "ns \<noteq> []"
  shows "keeps (setI view ns n v) (reconcileUnitset K Y X V ns)"
  unfolding reconcileUnitset_def Let_def
  by (intro keeps_setI_getL keeps_if keeps_setI_liftW keeps_deleteUnitset [OF X ns] keeps_thenA keeps_reconcileConfigmap keeps_bindA keeps_mapErr
      keeps_getPodTemplate keeps_fail keeps_reconcileAround keeps_reconcileUnits [OF ns])

lemma unitset_Reconcile_frame:
  assumes X: "ext_laws X" and ns: "ns \<noteq> []"
  shows "frame view (setFootprint ns n (view s)) (view s) (snd (unitset_Reconcile K Y X V ns n s))"
proof -
  let ?F = "frame view (setFootprint ns n (view s)) (view s)"
  obtain r t where g: "getUnitSet K ns n s = (r, t)" by fastforce
  have t: "?F t" by (rule keepsD' [OF keeps_frame_reads(2) _ g]) simp
  show ?thesis
  proof (cases r)
    case (Inl e)
    with g t show ?thesis by (simp add: unitset_Reconcile_def tryA_def)
  next
    case (Inr us)
    have "named ns n us" using view_names [OF getUnitSet_Inr(1) [OF g [unfolded Inr]]] by (simp add: named_def)
    with t keepsD [OF keeps_reconcileUnitset [OF X ns], of n "view s" "(us, t)"]
    have "setI view ns n (view s) (snd (reconcileUnitset K Y X V ns (us, t)))" by (simp add: setI_def)
    then have "?F (snd (withLocal us (reconcileUnitset K Y X V ns) t))"
      by (cases "reconcileUnitset K Y X V ns (us, t)") (auto simp: withLocal_def setI_def split: prod.split)
    with g Inr show ?thesis by (auto simp: unitset_Reconcile_def tryA_def bindA_def split: prod.split sum.split)
  qed
qed

end

text \<open>
  C8 (\<open>Reconcile\<close> of the UnitSet controller, the composition of all its parts): the reconciliation of a
  set changes the set, the units that carry its label or its name, and config maps, services, pod
  template, issuers, certificates and pod monitor that are named after it, all in its own namespace.
  Everything else stays as it is, whatever the API server answers: the templates in the manager's
  namespace, other sets and their units, pods, claims, volumes, nodes and secrets.
\<close>

theorem unitset_reconcile_isolated:
  assumes "kube_api K view wire" and "ext_laws X" and "ns \<noteq> []" and "k \<notin> setFootprint ns n (view s)"
  shows "view (snd (unitset_Reconcile K Y X V ns n s)) k = view s k"
  using frameD [OF kube_api.unitset_Reconcile_frame [OF assms(1-3)] assms(4)] .

text \<open>A new set, with the templates of its version in the manager's namespace.\<close>

definition managerTemplate :: podTemplate where
  "managerTemplate = \<lparr>pt_meta = meta0\<lparr>Name := ''mysql-8.0'', Namespace := ''upm-system''\<rparr>,
     pt_Template = \<lparr>pts_Labels = None, pts_Annotations = None,
       pts_Spec = podSpec0\<lparr>Containers := [container0\<lparr>c_Name := ''mysql'', c_Ports := Some [samplePort]\<rparr>]\<rparr>, pts_other = []\<rparr>\<rparr>"

definition newSetCluster :: mem where
  "newSetCluster = \<lparr>m_store = [OUnitSet sampleSet, OPodTemplate managerTemplate,
     OConfigMap (valueMap ''upm-system'' ''mysql-8.0-config-template'' ''8.0'' ''t''),
     OConfigMap (valueMap ''upm-system'' ''mysql-8.0-config-value'' ''8.0'' ''v'')], m_rv = 9, m_faults = []\<rparr>"

theorem unitset_reconcile_isolated_witness:
  "fst (unitset_Reconcile memKube plainViper plainExt sampleVars ''ns'' ''db'' newSetCluster) = Inr 10000 \<and>
   memView (snd (unitset_Reconcile memKube plainViper plainExt sampleVars ''ns'' ''db'' newSetCluster)) (KPodTemplate, ''upm-system'', ''mysql-8.0'') =
   memView newSetCluster (KPodTemplate, ''upm-system'', ''mysql-8.0'')"
proof
  show "fst (unitset_Reconcile memKube plainViper plainExt sampleVars ''ns'' ''db'' newSetCluster) = Inr 10000" by code_simp
  show "memView (snd (unitset_Reconcile memKube plainViper plainExt sampleVars ''ns'' ''db'' newSetCluster)) (KPodTemplate, ''upm-system'', ''mysql-8.0'') =
   memView newSetCluster (KPodTemplate, ''upm-system'', ''mysql-8.0'')"
    by (rule unitset_reconcile_isolated [OF mem.kube_api_axioms plain.ext_laws_axioms]) (simp_all add: setFootprint_def)
qed

end
