(* ===== verification/GrpcCalls.thy ===== *)
theory GrpcCalls
  imports Ensure
begin

text \<open>
  The GrpcCall controller (\<open>src/pkg/controller/grpccall\<close>): a GrpcCall object asks for one request to the
  agent of a unit; the controller routes it by type and action, records the outcome in the status,
  and deletes the object when its time to live is over.
\<close>

section \<open>The connection\<close>

text \<open>
  The gRPC runtime, the generated stubs and \<open>protojson\<close> are third-party or generated code. \<open>gDial\<close> is
  \<open>grpc.NewClient\<close>; \<open>gMarshal\<close> and \<open>gProto\<close> are the two steps of \<open>unmarshalParams\<close>, the second for the
  request type of a method; \<open>gCall\<close> is the remote call; \<open>gDiffers\<close> is \<open>utils.CompareStringValue\<close> of
  compose-operator (with the name of the field), and \<open>gErrText\<close> the text of an error.
\<close>

type_synonym rpc = "string \<times> string"

record 's grpc =
  gDial :: "string \<Rightarrow> error + unit"
  gMarshal :: "string gomap \<Rightarrow> error + string"
  gProto :: "rpc \<Rightarrow> string \<Rightarrow> error + string"
  gCall :: "string \<Rightarrow> rpc \<Rightarrow> string \<Rightarrow> ('s, unit) act"
  gDiffers :: "string \<Rightarrow> string \<Rightarrow> string \<Rightarrow> bool"
  gErrText :: "error \<Rightarrow> string"

section \<open>Routing\<close>

definition mysqlMethod :: "string \<Rightarrow> string option" where
  "mysqlMethod action =
     (if action = ''physical-backup'' then Some ''PhysicalBackup''
      else if action = ''logical-backup'' then Some ''LogicalBackup''
      else if action = ''clone'' then Some ''Clone''
      else if action = ''gtid-purge'' then Some ''GtidPurge''
      else if action = ''set-variable'' then Some ''SetVariable''
      else if action = ''restore'' then Some ''Restore''
      else None)"

definition postgresqlMethod :: "string \<Rightarrow> string option" where
  "postgresqlMethod action =
     (if action = ''physical-backup'' then Some ''PhysicalBackup''
      else if action = ''logical-backup'' then Some ''LogicalBackup''
      else if action = ''restore'' then Some ''Restore''
      else if action = ''set-variable'' then Some ''SetVariable''
      else None)"

text \<open>ProxySQL and the Redis sentinel.\<close>

definition setVariableMethod :: "string \<Rightarrow> string option" where
  "setVariableMethod action = (if action = ''set-variable'' then Some ''SetVariable'' else None)"

text \<open>Redis, Milvus and MongoDB.\<close>

definition backupMethod :: "string \<Rightarrow> string option" where
  "backupMethod action =
     (if action = ''set-variable'' then Some ''SetVariable''
      else if action = ''backup'' then Some ''Backup''
      else if action = ''restore'' then Some ''Restore''
      else None)"

definition clickhouseMethod :: "string \<Rightarrow> string option" where
  "clickhouseMethod action =
     (if action = ''logical-backup'' then Some ''LogicalBackup''
      else if action = ''restore'' then Some ''Restore''
      else if action = ''set-variable'' then Some ''SetVariable''
      else None)"

definition services :: "(string \<times> string \<times> (string \<Rightarrow> string option)) list" where
  "services =
     [(''mysql'', ''MysqlOperation'', mysqlMethod), (''postgresql'', ''PostgresqlOperation'', postgresqlMethod),
      (''proxysql'', ''ProxysqlOperation'', setVariableMethod), (''redis'', ''RedisOperation'', backupMethod),
      (''redis-sentinel'', ''SentinelOperation'', setVariableMethod), (''milvus'', ''MilvusOperation'', backupMethod),
      (''mongodb'', ''MongoDBOperation'', backupMethod), (''clickhouse'', ''ClickHouseOperation'', clickhouseMethod)]"

definition route :: "string \<Rightarrow> string \<Rightarrow> error + rpc" where
  "route unitType action =
     (case map_of services unitType of
        None \<Rightarrow> Inl (Msg ''unsupported unit type'')
      | Some (service, method) \<Rightarrow>
          (case method action of None \<Rightarrow> Inl (Msg ''unsupported action for type'') | Some m \<Rightarrow> Inr (service, m)))"

section \<open>Operations\<close>

definition unmarshalParams :: "'s grpc \<Rightarrow> string gomap \<Rightarrow> rpc \<Rightarrow> error + string" where
  "unmarshalParams G params m =
     (case gMarshal G params of Inl e \<Rightarrow> Inl e | Inr data \<Rightarrow> gProto G m data)"

definition SuccessResult :: string where "SuccessResult = ''Success''"
definition FailedResult :: string where "FailedResult = ''Failed''"

definition withResult :: "string \<Rightarrow> string \<Rightarrow> GrpcCall \<Rightarrow> GrpcCall" where
  "withResult r msg g = g\<lparr>gc_Status := (gc_Status g)\<lparr>Result := r, Message := msg\<rparr>\<rparr>"

text \<open>The result is the instance with its new status.\<close>

definition handleGrpcCall :: "'s grpc \<Rightarrow> string \<Rightarrow> GrpcCall \<Rightarrow> ('s, GrpcCall) act" where
  "handleGrpcCall G addr instance =
     bindA (liftE (route (gc_Type (gc_Spec instance)) (gc_Action (gc_Spec instance)))) (\<lambda>m.
     bindA (mapErr (Fmt ''failed to unmarshal parameters'') (liftE (unmarshalParams G (Parameters (gc_Spec instance)) m))) (\<lambda>req.
     thenA (gCall G addr m req)
       (ret (withResult SuccessResult
          (gc_Action (gc_Spec instance) @ '' '' @ gc_Type (gc_Spec instance) @ '' successfully'') instance))))"

definition agentName :: string where "agentName = ''unit-agent''"

definition gatherUnitAgentEndpoint :: "'s kube \<Rightarrow> GrpcCall \<Rightarrow> ('s, string \<times> string) act" where
  "gatherUnitAgentEndpoint K instance =
     bindA (mapErr (Fmt ''failed to fetch unit'')
              (getUnit K (Namespace (gc_meta instance)) (TargetUnit (gc_Spec instance)))) (\<lambda>unit.
       let host = u_Name unit @ ''.'' @ UnitsetHeadlessSvcName unit @ ''.'' @ Namespace (u_meta unit) @ ''.svc'' in
       case List.find (\<lambda>c. c_Name c = agentName) (Containers (t_Spec (Template (u_Spec unit)))) of
         None \<Rightarrow> fail (Msg ''container not found in unit'')
       | Some agent \<Rightarrow>
           (case List.find (\<lambda>p. cp_Name p = agentName) (elems (c_Ports agent)) of
              None \<Rightarrow> fail (Msg ''port not found in container'')
            | Some agentPort \<Rightarrow> ret (host, Itoa (cp_ContainerPort agentPort))))"

text \<open>\<open>net.JoinHostPort\<close>: a host with a colon is put in brackets.\<close>

definition JoinHostPort :: "string \<Rightarrow> string \<Rightarrow> string" where
  "JoinHostPort host port =
     (if CHR '':'' \<in> set host then ''['' @ host @ '']:'' @ port else host @ '':'' @ port)"

definition newGrpcClient :: "'s grpc \<Rightarrow> string \<Rightarrow> string \<Rightarrow> error + string" where
  "newGrpcClient G host port =
     (case gDial G (JoinHostPort host port) of Inl e \<Rightarrow> Inl e | Inr _ \<Rightarrow> Inr (JoinHostPort host port))"

text \<open>The anonymous function of \<open>Reconcile\<close>.\<close>

definition callAgent :: "'s kube \<Rightarrow> 's grpc \<Rightarrow> GrpcCall \<Rightarrow> ('s, GrpcCall) act" where
  "callAgent K G instance =
     bindA (mapErr (Fmt ''failed to gather unit agent endpoint'') (gatherUnitAgentEndpoint K instance)) (\<lambda>(host, port).
     bindA (mapErr (Fmt ''failed to initialize grpc client'') (liftE (newGrpcClient G host port))) (\<lambda>c.
       handleGrpcCall G c instance))"

text \<open>A comparison of times dereferences both pointers.\<close>

definition timesDiffer :: "nat option \<Rightarrow> nat option \<Rightarrow> error + bool" where
  "timesDiffer a b = (case (a, b) of (Some x, Some y) \<Rightarrow> Inr (x \<noteq> y) | _ \<Rightarrow> Inl (Panic ''nil pointer dereference''))"

definition compareStatus :: "'s grpc \<Rightarrow> GrpcCallStatus \<Rightarrow> GrpcCallStatus \<Rightarrow> error + bool" where
  "compareStatus G new old =
     (if gDiffers G ''Result'' (Result old) (Result new) then Inr True
      else if gDiffers G ''Message'' (Message old) (Message new) then Inr True
      else case timesDiffer (StartTime new) (StartTime old) of
        Inl e \<Rightarrow> Inl e
      | Inr True \<Rightarrow> Inr True
      | Inr False \<Rightarrow> timesDiffer (CompletionTime new) (CompletionTime old))"

definition updateInstanceIfNeed :: "'s kube \<Rightarrow> 's grpc \<Rightarrow> GrpcCall \<Rightarrow> GrpcCallStatus \<Rightarrow> ('s, unit) act" where
  "updateInstanceIfNeed K G instance oldStatus =
     bindA (liftE (compareStatus G (gc_Status instance) oldStatus)) (\<lambda>changed.
       whenA changed (ignoreErr (statusUpdate K (OAux (AGrpcCall instance)))))"

definition ttlExpired :: "nat \<Rightarrow> GrpcCall \<Rightarrow> bool" where
  "ttlExpired t0 g =
     (case (CompletionTime (gc_Status g), TTLSecondsAfterFinished (gc_Spec g)) of
        (Some t, Some ttl) \<Rightarrow> int t0 - int t \<ge> ttl * 1000000000
      | _ \<Rightarrow> False)"

definition withStart :: "nat \<Rightarrow> GrpcCall \<Rightarrow> GrpcCall" where
  "withStart t g = g\<lparr>gc_Status := (gc_Status g)\<lparr>StartTime := Some t\<rparr>\<rparr>"

definition withCompletion :: "nat \<Rightarrow> GrpcCall \<Rightarrow> GrpcCall" where
  "withCompletion t g =
     (if CompletionTime (gc_Status g) = None then g\<lparr>gc_Status := (gc_Status g)\<lparr>CompletionTime := Some t\<rparr>\<rparr> else g)"

text \<open>One hour, in milliseconds; zero when no further reconciliation is asked for.\<close>

definition grpc_requeue :: nat where "grpc_requeue = 3600000"

definition grpc_Reconcile :: "'s kube \<Rightarrow> 's grpc \<Rightarrow> string \<Rightarrow> string \<Rightarrow> ('s, nat) act" where
  "grpc_Reconcile K G ns n =
     tryA (getGrpcCall K ns n) (\<lambda>r. case r of
        Inl e \<Rightarrow> if IsNotFound e then ret 0 else fail e
      | Inr fetched \<Rightarrow>
          bindA (now K) (\<lambda>t.
            if ttlExpired t fetched then thenA (deleteObj K (keyOf (OAux (AGrpcCall fetched)))) (ret 0)
            else if StartTime (gc_Status fetched) \<noteq> None then ret grpc_requeue
            else
              tryA (callAgent K G (withStart t fetched)) (\<lambda>c.
                if (case c of Inl e \<Rightarrow> isPanic e | Inr _ \<Rightarrow> False) then fail (Panic ''agent call'')
                else
                  bindA (now K) (\<lambda>t'.
                    let instance = withCompletion t' (case c of
                          Inl e \<Rightarrow> withResult FailedResult (gErrText G e) (withStart t fetched)
                        | Inr g \<Rightarrow> g)
                    in thenA (updateInstanceIfNeed K G instance (gc_Status fetched)) (ret grpc_requeue)))))"

section \<open>Routing is unambiguous\<close>

lemma methods_inject:
  "mysqlMethod a = Some m \<Longrightarrow> mysqlMethod b = Some m \<Longrightarrow> a = b"
  "postgresqlMethod a = Some m \<Longrightarrow> postgresqlMethod b = Some m \<Longrightarrow> a = b"
  "setVariableMethod a = Some m \<Longrightarrow> setVariableMethod b = Some m \<Longrightarrow> a = b"
  "backupMethod a = Some m \<Longrightarrow> backupMethod b = Some m \<Longrightarrow> a = b"
  "clickhouseMethod a = Some m \<Longrightarrow> clickhouseMethod b = Some m \<Longrightarrow> a = b"
  by (auto simp: mysqlMethod_def postgresqlMethod_def setVariableMethod_def backupMethod_def clickhouseMethod_def
      split: if_splits)

lemma services_inject:
  "map_of services t = Some (s, f) \<Longrightarrow> map_of services t' = Some (s, f') \<Longrightarrow>
   t = t' \<and> f = f' \<and> f \<in> {mysqlMethod, postgresqlMethod, setVariableMethod, backupMethod, clickhouseMethod}"
  by (auto simp: services_def split: if_splits)

text \<open>
  \<open>handleGrpcCall\<close>: the routing is unambiguous: two requests that reach the same remote method
  have the same unit type and the same action; a request that cannot be routed, or whose parameters
  cannot be decoded, never reaches the agent.
\<close>

theorem grpc_routing:
  "(route t a = Inr m \<and> route t' a' = Inr m \<longrightarrow> t = t' \<and> a = a') \<and>
   ((\<exists>e. route (gc_Type (gc_Spec g)) (gc_Action (gc_Spec g)) = Inl e) \<or>
    (\<exists>r e. route (gc_Type (gc_Spec g)) (gc_Action (gc_Spec g)) = Inr r \<and> unmarshalParams G (Parameters (gc_Spec g)) r = Inl e) \<longrightarrow>
    (\<exists>e. handleGrpcCall G addr g s = (Inl e, s)))"
proof (intro conjI impI)
  show "t = t'" "a = a'" if "route t a = Inr m \<and> route t' a' = Inr m"
    using that services_inject [of t "fst m" _ t'] methods_inject
    by (auto simp: route_def split: option.splits)
  show "\<exists>e. handleGrpcCall G addr g s = (Inl e, s)"
    if "(\<exists>e. route (gc_Type (gc_Spec g)) (gc_Action (gc_Spec g)) = Inl e) \<or>
      (\<exists>r e. route (gc_Type (gc_Spec g)) (gc_Action (gc_Spec g)) = Inr r \<and> unmarshalParams G (Parameters (gc_Spec g)) r = Inl e)"
    using that by (auto simp: handleGrpcCall_def liftE_def mapErr_def bindA_def)
qed

section \<open>A call is made once\<close>

locale grpc_agent = kube_live K view wire ok for K :: "'s kube" and view wire ok +
  fixes G :: "'s grpc"
  assumes call_world: "ok s \<Longrightarrow> gCall G a m q s = (r, s') \<Longrightarrow> view s' = view s \<and> ok s'"
    and call_error: "gCall G a m q s = (Inl e, s') \<Longrightarrow> \<not> isPanic e"
    and marshal_error: "gMarshal G ps = Inl e \<Longrightarrow> \<not> isPanic e"
    and proto_error: "gProto G m d = Inl e \<Longrightarrow> \<not> isPanic e"
    and dial_error: "gDial G h = Inl e \<Longrightarrow> \<not> isPanic e"
    and differs: "gDiffers G f x y \<longleftrightarrow> x \<noteq> y"
begin

lemma getUnit_total:
  assumes "ok s"
  shows "\<exists>r s'. getUnit K ns n s = (r, s') \<and> view s' = view s \<and> ok s' \<and> (\<forall>e. r = Inl e \<longrightarrow> e = Api NotFound)"
proof (cases "view s (unitKey ns n)")
  case None
  from getUnit_live_absent [OF assms None] show ?thesis by blast
next
  case (Some ob)
  then obtain u where "view s (unitKey ns n) = Some (OUnit u)" using view_unit by blast
  from getUnit_live [OF assms this] show ?thesis by blast
qed

abbreviation (input) calm :: "objview \<Rightarrow> ('s, 'a) act \<Rightarrow> ('a \<Rightarrow> bool) \<Rightarrow> bool" where
  "calm v m Q \<equiv> triple (\<lambda>s. view s = v \<and> ok s) m (\<lambda>x s. (view s = v \<and> ok s) \<and> Q x)
     (\<lambda>e s. (view s = v \<and> ok s) \<and> \<not> isPanic e)"

lemma calm_bindA: "calm v m (\<lambda>_. True) \<Longrightarrow> (\<And>x. calm v (f x) Q) \<Longrightarrow> calm v (bindA m f) Q"
  by (rule triple_bindA) simp_all

lemma calm_mapErr: "calm v m Q \<Longrightarrow> calm v (mapErr (Fmt msg) m) Q"
  by (rule triple_mapErr) simp

lemma calm_liftE: "(\<And>e. r = Inl e \<Longrightarrow> \<not> isPanic e) \<Longrightarrow> calm v (liftE r) (\<lambda>_. True)"
  by (cases r) (auto simp: triple_def liftE_def)

lemma calm_getUnit: "calm v (getUnit K ns n) (\<lambda>_. True)"
proof -
  have "view s' = view s \<and> ok s' \<and> (\<forall>e. r = Inl e \<longrightarrow> e = Api NotFound)" if "ok s" "getUnit K ns n s = (r, s')" for s r s'
    using getUnit_total [OF that(1), of ns n] that(2) by auto
  then show ?thesis by (intro tripleI) fastforce+
qed

lemma calm_endpoint: "calm v (gatherUnitAgentEndpoint K g) (\<lambda>_. True)"
  unfolding gatherUnitAgentEndpoint_def Let_def
  by (intro calm_bindA calm_mapErr calm_getUnit) (auto simp: triple_def split: option.split)

lemma calm_handle: "calm v (handleGrpcCall G c g) (\<lambda>g'. \<exists>msg. g' = withResult SuccessResult msg g)"
  unfolding handleGrpcCall_def
proof (intro calm_bindA calm_mapErr calm_liftE)
  show "\<not> isPanic e" if "route (gc_Type (gc_Spec g)) (gc_Action (gc_Spec g)) = Inl e" for e
    using that by (auto simp: route_def split: option.splits)
  show "\<not> isPanic e" if "unmarshalParams G (Parameters (gc_Spec g)) m = Inl e" for m e
    using that by (auto simp: unmarshalParams_def split: sum.splits dest: marshal_error proto_error)
  fix m q
  show "calm v (thenA (gCall G c m q) (ret (withResult SuccessResult
          (gc_Action (gc_Spec g) @ '' '' @ gc_Type (gc_Spec g) @ '' successfully'') g)))
        (\<lambda>g'. \<exists>msg. g' = withResult SuccessResult msg g)"
    unfolding thenA_def
    by (rule calm_bindA, rule tripleI) (auto simp: triple_def dest: call_world call_error)
qed

lemma callAgent_total:
  assumes "ok s"
  shows "\<exists>r s'. callAgent K G g s = (r, s') \<and> view s' = view s \<and> ok s' \<and> (\<forall>e. r = Inl e \<longrightarrow> \<not> isPanic e) \<and>
    (\<forall>g'. r = Inr g' \<longrightarrow> (\<exists>msg. g' = withResult SuccessResult msg g))"
proof -
  have dial: "\<not> isPanic e" if "newGrpcClient G h p = Inl e" for h p e
    using that by (auto simp: newGrpcClient_def split: sum.splits dest: dial_error)
  have "calm (view s) (callAgent K G g) (\<lambda>g'. \<exists>msg. g' = withResult SuccessResult msg g)"
    unfolding callAgent_def
    by (rule calm_bindA [OF calm_mapErr [OF calm_endpoint]], simp only: split_beta)
      (intro calm_bindA calm_mapErr calm_liftE calm_handle dial)
  from this assms show ?thesis
    by (cases "callAgent K G g s"; cases "fst (callAgent K G g s)") (auto dest: tripleD_Inr tripleD_Inl)
qed

text \<open>A started call is not made again: the outcome does not depend on the agent.\<close>

lemma started_not_called:
  assumes "view s (KGrpcCall, ns, n) = Some (OAux (AGrpcCall g))" and "StartTime (gc_Status g) \<noteq> None"
  shows "grpc_Reconcile K (G'\<lparr>gCall := f\<rparr>) ns n s = grpc_Reconcile K G' ns n s"
proof -
  obtain r t where r: "getGrpcCall K ns n s = (r, t)" by fastforce
  have "r = Inr x \<Longrightarrow> x = g" for x using getGrpcCall_Inr(1) [of ns n s x t] r assms(1) by simp
  then show ?thesis using assms(2) by (cases r) (auto simp: grpc_Reconcile_def tryA_def r bindA_def now_def)
qed

lemma reconcile_total:
  assumes "ok s" and "view s (KGrpcCall, ns, n) = Some (OAux (AGrpcCall g))"
    and "StartTime (gc_Status g) = None" "CompletionTime (gc_Status g) = None" "Result (gc_Status g) = []"
  shows "\<exists>s0 s' g'. grpc_Reconcile K G ns n s = (Inr grpc_requeue, s') \<and> ok s' \<and> view s0 = view s \<and> ok s0 \<and>
    view s' (KGrpcCall, ns, n) = Some (OAux (AGrpcCall g')) \<and>
    StartTime (gc_Status g') \<noteq> None \<and> CompletionTime (gc_Status g') \<noteq> None \<and>
    Result (gc_Status g') = (if \<exists>x t. callAgent K G (withStart (kNow K s0) g) s0 = (Inr x, t) then SuccessResult else FailedResult)"
proof -
  have key: "keyOf (OAux (AGrpcCall g)) = (KGrpcCall, ns, n)" by (rule view_key [OF assms(2)])
  obtain s0 where s0: "getGrpcCall K ns n s = (Inr g, s0)" "ok s0" "view s0 = view s"
    using getAs_live [OF assms(1,2), of asGrpcCall g] by (auto simp: getGrpcCall_def)
  let ?g = "withStart (kNow K s0) g"
  obtain c t where c: "callAgent K G ?g s0 = (c, t)" "view t = view s0" "ok t" "\<forall>e. c = Inl e \<longrightarrow> \<not> isPanic e"
    "\<forall>g'. c = Inr g' \<longrightarrow> (\<exists>msg. g' = withResult SuccessResult msg ?g)" using callAgent_total [OF s0(2)] by blast
  define i where "i = withCompletion (kNow K t) (case c of Inl e \<Rightarrow> withResult FailedResult (gErrText G e) ?g | Inr g' \<Rightarrow> g')"
  have i: "keyOf (OAux (AGrpcCall i)) = keyOf (OAux (AGrpcCall g))" "gc_meta i = gc_meta g"
    "StartTime (gc_Status i) \<noteq> None" "CompletionTime (gc_Status i) \<noteq> None"
    "Result (gc_Status i) = (if \<exists>x. c = Inr x then SuccessResult else FailedResult)"
    using c(5) assms(4)
    by (cases c; auto simp: i_def withCompletion_def withResult_def withStart_def keyOf_def)+
  have ch: "compareStatus G (gc_Status i) (gc_Status g) = Inr True"
    using i(5) assms(5) by (auto simp: compareStatus_def differs SuccessResult_def FailedResult_def)
  have "view t (keyOf (OAux (AGrpcCall i))) = Some (OAux (AGrpcCall g))" using c(2) s0(3) assms(2) i(1) key by simp
  from status_total [OF c(3) this] obtain ob s' where st: "statusUpdate K (OAux (AGrpcCall i)) t = (Inr ob, s')" "ok s'"
    "statusEff (OAux (AGrpcCall i)) ob (view t) (view s')" by (auto simp: versionOk_def i(2))
  from st(3) have e: "keyOf ob = (KGrpcCall, ns, n)" "statusStored (OAux (AGrpcCall g)) (OAux (AGrpcCall i)) ob"
    "view s' (KGrpcCall, ns, n) = Some ob"
    using c(2) s0(3) assms(2) i(1) key by (auto simp: statusEff_def)
  then obtain g' where g': "ob = OAux (AGrpcCall g')"
    by (auto simp: keyOf_def kindOf_iffs)
  have ttl: "\<not> ttlExpired (kNow K s0) g" using assms(4) by (simp add: ttlExpired_def)
  have "grpc_Reconcile K G ns n s = (Inr grpc_requeue, s')"
    using s0(1) c(1,4) ch st(1) assms(3) ttl
    by (cases c) (auto simp: grpc_Reconcile_def now_def Let_def updateInstanceIfNeed_def liftE_def whenA_def ignoreErr_def
        tryA_def thenA_def bindA_def i_def)
  moreover have "Result (gc_Status g') = Result (gc_Status i) \<and> StartTime (gc_Status g') \<noteq> None \<and> CompletionTime (gc_Status g') \<noteq> None"
    using e(2) i(3,4) by (auto simp: g' grpcStatusEq_def)
  ultimately show ?thesis using s0 st(2) e(3) g' i(5) c(1) by (intro exI [of _ s0] exI [of _ s'] exI [of _ g']) auto
qed

end


text \<open>An agent for concrete runs: every call leaves its trace in the counter of the server.\<close>

definition sampleAgent :: "mem grpc" where
  "sampleAgent = \<lparr>gDial = (\<lambda>_. Inr ()), gMarshal = (\<lambda>_. Inr ''{}''), gProto = (\<lambda>_ d. Inr d),
     gCall = (\<lambda>_ _ _ s. (Inr (), s\<lparr>m_rv := m_rv s + 100\<rparr>)), gDiffers = (\<lambda>_ a b. a \<noteq> b), gErrText = (\<lambda>_. ''failed'')\<rparr>"

interpretation sample: grpc_agent memKube memView id memOk sampleAgent
proof unfold_locales
  have v: "memView (s\<lparr>m_rv := x\<rparr>) = memView s" for s x by (rule ext) (simp add: memView_def)
  show "memOk s \<Longrightarrow> gCall sampleAgent a m q s = (r, s') \<Longrightarrow> memView s' = memView s \<and> memOk s'" for s a m q r s'
    by (auto simp: sampleAgent_def memOk_def v)
qed (simp_all add: sampleAgent_def)

definition sampleCall :: GrpcCall where
  "sampleCall = \<lparr>gc_meta = meta0\<lparr>Name := ''backup'', Namespace := ''ns''\<rparr>,
     gc_Spec = \<lparr>TargetUnit = ''db-0'', gc_Type = ''mysql'', gc_Action = ''logical-backup'', TTLSecondsAfterFinished = Some 60, Parameters = None\<rparr>,
     gc_Status = \<lparr>Result = [], Message = [], CompletionTime = None, StartTime = None\<rparr>\<rparr>"

definition agentUnit :: Unit where
  "agentUnit = unit0\<lparr>u_meta := meta0\<lparr>Name := ''db-0'', Namespace := ''ns''\<rparr>,
     u_Spec := unitSpec0\<lparr>Template := unitPodTemplate0\<lparr>t_Spec := podSpec0\<lparr>Containers :=
       [container0\<lparr>c_Name := ''unit-agent'', c_Ports := Some [\<lparr>cp_Name = ''unit-agent'', cp_ContainerPort = 2214, cp_Protocol = ''TCP'', cp_other = []\<rparr>]\<rparr>]\<rparr>\<rparr>\<rparr>\<rparr>"

definition callCluster :: "string option list \<Rightarrow> mem" where
  "callCluster faults = \<lparr>m_store = [OUnit agentUnit, OAux (AGrpcCall sampleCall)], m_rv = 1, m_faults = faults\<rparr>"


lemma call_get:
  "getGrpcCall memKube ''ns'' ''backup'' (callCluster (None # fs)) = (Inr sampleCall, callCluster fs)"
  by (simp add: getGrpcCall_def getAs_def bindA_def liftApi_def memKube_def withFaults_def memGet_def memView_def
      callCluster_def keyOf_def sampleCall_def agentUnit_def zero_defs asGrpcCall_def)

lemma call_unit: "getUnit memKube ''ns'' ''db-0'' (callCluster (None # fs)) = (Inr agentUnit, callCluster fs)"
  by (simp add: getUnit_def getAs_def bindA_def liftApi_def memKube_def withFaults_def memGet_def memView_def
      callCluster_def keyOf_def sampleCall_def agentUnit_def zero_defs asUnit_def)

lemma call_agent:
  "callAgent memKube sampleAgent (withStart t sampleCall) (callCluster (None # fs)) =
     (Inr (withResult SuccessResult ''logical-backup mysql successfully'' (withStart t sampleCall)), (callCluster fs)\<lparr>m_rv := 101\<rparr>)"
proof -
  have s: "Namespace (gc_meta (withStart t sampleCall)) = ''ns''" "gc_Spec (withStart t sampleCall) = gc_Spec sampleCall"
    "TargetUnit (gc_Spec sampleCall) = ''db-0''" "gc_Type (gc_Spec sampleCall) = ''mysql''"
    "gc_Action (gc_Spec sampleCall) = ''logical-backup''" by (simp_all add: withStart_def sampleCall_def zero_defs)
  have e: "gatherUnitAgentEndpoint memKube (withStart t sampleCall) (callCluster (None # fs)) =
      (Inr (''db-0.-headless-svc.ns.svc'', Itoa 2214), callCluster fs)"
    unfolding gatherUnitAgentEndpoint_def s
    by (simp add: call_unit bindA_def mapErr_def Let_def)
      (simp add: agentUnit_def agentName_def zero_defs u_Name_def UnitsetHeadlessSvcName_def)
  have r: "route ''mysql'' ''logical-backup'' = Inr (''MysqlOperation'', ''LogicalBackup'')"
    by (simp add: route_def services_def mysqlMethod_def)
  have m: "m_rv (callCluster fs) = 1" by (simp add: callCluster_def)
  show ?thesis
    unfolding callAgent_def handleGrpcCall_def s r
    by (simp add: e m bindA_def mapErr_def thenA_def liftE_def newGrpcClient_def unmarshalParams_def sampleAgent_def)
qed


section \<open>Time to live\<close>

definition callKept :: "string \<Rightarrow> string \<Rightarrow> GrpcCallSpec \<Rightarrow> objview \<Rightarrow> bool" where
  "callKept ns n spec v \<longleftrightarrow> (\<exists>g. v (KGrpcCall, ns, n) = Some (OAux (AGrpcCall g)) \<and>
     DeletionTimestamp (gc_meta g) = None \<and> gc_Spec g = spec)"

lemma sameButVersion_deletion: "sameButVersion m m' \<Longrightarrow> DeletionTimestamp m' = DeletionTimestamp m"
  unfolding sameButVersion_def by (drule arg_cong [of _ _ DeletionTimestamp]) simp

context kube_api
begin

lemma keeps_callKept_status:
  assumes "Namespace (gc_meta i) = ns" "Name (gc_meta i) = n"
  shows "keeps (\<lambda>s. callKept ns n spec (view s)) (statusUpdate K (OAux (AGrpcCall i)))"
  unfolding statusUpdate_def
proof (rule keeps_liftApi)
  fix s r s' assume k: "callKept ns n spec (view s)" and u: "kStatusUpdate K (OAux (AGrpcCall i)) s = (r, s')"
  have key: "keyOf (OAux (AGrpcCall i)) = (KGrpcCall, ns, n)" using assms by (simp add: keyOf_def)
  from k obtain g where g: "view s (KGrpcCall, ns, n) = Some (OAux (AGrpcCall g))" "DeletionTimestamp (gc_meta g) = None"
    "gc_Spec g = spec" by (auto simp: callKept_def)
  from writeLaw_eff [OF status_law u] show "callKept ns n spec (view s')"
  proof (elim disjE exE)
    fix ob assume e: "statusEff (OAux (AGrpcCall i)) ob (view s) (view s')"
    then have st: "statusStored (OAux (AGrpcCall g)) (OAux (AGrpcCall i)) ob" "keyOf ob = (KGrpcCall, ns, n)"
      "view s' (KGrpcCall, ns, n) = Some ob" using g(1) by (auto simp: statusEff_def key)
    then obtain g' where "ob = OAux (AGrpcCall g')"
      by (auto simp: keyOf_def kindOf_iffs)
    with st g(2,3) show ?thesis by (auto simp: callKept_def dest: sameButVersion_deletion)
  qed (use k in simp)
qed

lemma keeps_callAgent:
  assumes "\<And>a m q. keeps (\<lambda>s. P (view s)) (gCall G a m q)"
  shows "keeps (\<lambda>s. P (view s)) (callAgent K G i)"
proof -
  have liftE: "keeps (\<lambda>s. P (view s)) (liftE r)" for r :: "error + 'x" by (cases r) (simp_all add: liftE_def triple_def)
  show ?thesis
    unfolding callAgent_def gatherUnitAgentEndpoint_def handleGrpcCall_def Let_def split_beta
    by (intro keeps_bindA keeps_mapErr keeps_reads keeps_case_option keeps_fail keeps_ret liftE keeps_thenA assms)
qed

end

lemma callAgent_meta: "callAgent K G i s = (Inr g', s') \<Longrightarrow> gc_meta g' = gc_meta i"
  by (auto simp: callAgent_def handleGrpcCall_def act_eq_iffs withResult_def split_beta)


definition finishedCall :: GrpcCall where
  "finishedCall = sampleCall\<lparr>gc_Status := \<lparr>Result = ''Success'', Message = [], CompletionTime = Some 0, StartTime = Some 0\<rparr>\<rparr>"

definition finishedCluster :: mem where
  "finishedCluster = (callCluster [])\<lparr>m_store := [OAux (AGrpcCall finishedCall)]\<rparr>"


end
