(* ===== verification/Spec2Isabelle.thy ===== *)
theory Spec2Isabelle
  imports UnitSetController ProjectController GrpcCalls
begin

text \<open>
  Verification library for unit-operator, a Kubernetes operator for stateful applications.

  A UnitSet describes a group of units (\<open>src/api/v1alpha2/unitset_types.go\<close>); the UnitSet
  controller (\<open>src/pkg/controller/unitset\<close>) creates a Unit per member and keeps the units in line
  with the UnitSet; the Unit controller (\<open>src/pkg/controller/unit\<close>) runs one pod with its volumes
  per Unit. All state lives in the Kubernetes API server; a controller reads it, compares and writes.

  \<^bold>\<open>Modelling.\<close> A function of a controller is an action \<open>'s \<Rightarrow> (error + 'a) \<times> 's\<close>
  (Prelude): it ends with an error value or a result and the next state of the world. The client of
  the API server is third-party code, hence a parameter \<open>K\<close> (KubeClient), with what the code relies
  on as the locale \<open>kube_api\<close>: the effect of each call on \<open>view s\<close>, the objects the server
  holds. An error other than NotFound, AlreadyExists and Conflict leaves open whether the write took
  place, so the safety theorems hold under lost answers. The locale \<open>kube_live\<close> adds that calls
  without a reason to fail succeed; liveness theorems use it. MemKube is an executable API server with
  fault injection on which both locales are interpreted and the witnesses are evaluated. The pure
  third-party functions (quantities, semantic equality, JSON, finalizers) are the record \<open>ext\<close>
  (ApiTypes) with the locale \<open>ext_laws\<close> and the instance \<open>plainExt\<close>. Goroutines run one after
  another in an order the parameter chooses; variables they share are a local state. Retries and polls
  are bounded by the counts of the source; the number of polls that fit in a timeout is a parameter.

  \<^bold>\<open>Theories.\<close>
  \<^item> Prelude: errors, actions, retry, poll, fan-out, Hoare calculus.
  \<^item> GoLib: strconv, strings, stable sort, nil-able slices and maps.
  \<^item> ApiTypes: the objects and names (\<open>src/api/v1alpha2\<close>), third-party functions.
  \<^item> KubeClient, MemKube: the API server, its contract and an instance.
  \<^item> Ordinals: update order of units (\<open>unitset_unit_update.go\<close>).
  \<^item> Webhooks: validation and defaulting (\<open>src/pkg/webhook/v1alpha2\<close>).
  \<^item> UnitTemplate: the Unit built from a UnitSet and a pod template (\<open>unitset_unit.go\<close>).
  \<^item> UnitSetUnits: creating and removing the units of a set (\<open>unitset_unit.go\<close>).
  \<^item> RollingUpdate: image updates (\<open>unitset_unit_update.go\<close>), with an abstract rollout (a cursor and
    the set of outdated units) that the rolling update refines.
  \<^item> SpecSync: resources, resize policy, storage, labels (\<open>unitset_unit_update.go\<close>).
  \<^item> Finalizing, UnitSetDelete: removing an object and waiting for it, finalizers of a UnitSet
    (\<open>unitset_delete.go\<close>).
  \<^item> PodUtil: conditions and readiness of a pod (\<open>src/pkg/utils\<close>).
  \<^item> UnitAgent: the gRPC client of the agent beside the database (\<open>src/pkg/client/unit-agent\<close>).
  \<^item> UnitServer: starting and stopping the service (\<open>unit_sever.go\<close>).
  \<^item> UnitStatus: the status of a unit (\<open>unit_status.go\<close>, \<open>unit_controller.go\<close>).
  \<^item> PodDiff, UnitPod: comparing the pod with its unit, creating, patching, resizing, upgrading and
    recovering it (\<open>unit_po.go\<close>).
  \<^item> UnitPvc, UnitConfig, UnitDelete: claims and volumes, synchronisation of the configuration,
    finalizers of a unit (\<open>unit_pvc.go\<close>, \<open>unit_config.go\<close>, \<open>unit_delete.go\<close>).
  \<^item> UnitController: the reconciliation of a Unit as a whole (\<open>unit_controller.go\<close>).
  \<^item> Ensure: reading an object and creating it if it is missing.
  \<^item> UnitSetConfig: config templates and values, and the merge of customised values at an upgrade
    (\<open>unitset_configmap.go\<close>, \<open>src/pkg/utils/config\<close>).
  \<^item> UnitSetServices: headless, external and unit services, node ports and addresses recorded in
    annotations (\<open>unitset_service.go\<close>).
  \<^item> UnitSetStatus: the status of a set and its node map (\<open>unitset_status.go\<close>).
  \<^item> UnitSetResources: issuers, certificates, pod monitor, service account (\<open>unitset_secret.go\<close>,
    \<open>unitset_podmonitor.go\<close>, \<open>unitset_serviceaccount.go\<close>).
  \<^item> UnitSetController: the reconciliation of a UnitSet as a whole (\<open>unitset_controller.go\<close>).
  \<^item> ProjectController: namespace, certificate authority, account and AES key of a project
    (\<open>src/pkg/controller/project\<close>) and the webhook that guards its deletion.
  \<^item> GrpcCalls: requests to the agents (\<open>src/pkg/controller/grpccall\<close>).

  \<^bold>\<open>What is shown.\<close> Of each controller as a whole: its reconciliation touches only the objects it is
  responsible for (UnitSetController, UnitController, ProjectController). Of scaling and updating: one
  reconciliation brings the set to the number of units of the spec, a rolling update changes at most
  one unit, refines the abstract rollout and ends with every unit at the version of the spec
  (UnitSetUnits, RollingUpdate, SpecSync). Of deletion: finalizers disappear only after what they guard
  (UnitSetDelete, UnitDelete). Of the objects of a set: values survive an upgrade, node ports and nodes
  are read back as they were recorded, every unit has its service and certificate, the stored status
  counts what the cluster holds (UnitSetConfig to UnitSetStatus). Of a unit: comparison of environments,
  stability of an unchanged pod, claims, truth of the status, commands to the agent (PodDiff to
  UnitServer). Theorems about error behaviour state what the code does where it falls short: a resumed
  rolling update skips units, a stale status is lost, a forced deletion crosses namespaces, a lost
  status update repeats a call.

  \<^bold>\<open>Bounds.\<close> \<open>retry.RetryOnConflict\<close> makes at most the five attempts of \<open>DefaultRetry\<close> or the four
  of \<open>DefaultBackoff\<close>, as in the library; a poll makes the number of tests that the parameters
  \<open>kPolls\<close> and \<open>kPollsLater\<close> of the client allow, and the theorems hold for every number. Ports and
  ordinals are integers with the range checks and the 64-bit wrap-around of the source written out.

  \<^bold>\<open>Not modelled.\<close> The applications of the agent (\<open>src/pkg/agent\<close>) are clients of databases, object
  stores and processes: nearly every line is a call into a driver or a shell command, and their effect
  is outside of the program. The certificates of the webhook server (\<open>src/pkg/certs\<close>) are calls into
  X.509 and TLS libraries. The binaries (\<open>src/cmd\<close>) and \<open>SetupWithManager\<close> register the
  controllers. Deep copies and protocol stubs are generated; a copy of a value of HOL is the value.
  File, log and event helpers are output only. Indices of the cache are modelled by the lists that
  use them.
\<close>

end
